(* ===== verification/Relay_Prelude.thy ===== *)
theory Relay_Prelude
  imports Complex_Main "HOL-Library.AList"
begin

text \<open>
  Shared notions of the relay model: Go's error returns as sums, the functions of
  Go's \<open>strings\<close> and \<open>strconv\<close> packages that the relay calls (a Go string is a
  byte sequence, here a list of 8-bit \<open>char\<close>s), and the lemmas on them, on maps and
  on association lists that the component theories share.
\<close>

named_theorems relay_defs \<open>operations of the model that proofs unfold\<close>
named_theorems relay_frame \<open>what an operation leaves unchanged\<close>

section \<open>Errors as values\<close>

text \<open>A Go function returning \<open>(T, error)\<close>: \<open>Inl\<close> holds the error text.\<close>

type_synonym go_error = string
type_synonym 'a result = "go_error + 'a"

section \<open>Package strings\<close>

definition HasPrefix :: "string \<Rightarrow> string \<Rightarrow> bool" where
  "HasPrefix s p = (take (length p) s = p)"

definition HasSuffix :: "string \<Rightarrow> string \<Rightarrow> bool" where
  "HasSuffix s p = (length p \<le> length s \<and> drop (length s - length p) s = p)"

definition TrimPrefix :: "string \<Rightarrow> string \<Rightarrow> string" where
  "TrimPrefix s p = (if HasPrefix s p then drop (length p) s else s)"

text \<open>\<open>strings.Split(s, sep)\<close> for a one-byte separator: never empty.\<close>

fun Split :: "string \<Rightarrow> char \<Rightarrow> string list" where
  "Split [] c = [[]]"
| "Split (x # xs) c =
     (if x = c then [] # Split xs c
      else (case Split xs c of [] \<Rightarrow> [[x]] | y # ys \<Rightarrow> (x # y) # ys))"

text \<open>\<open>strings.LastIndex(s, sep)\<close> for a one-byte separator; \<open>None\<close> is Go's -1.\<close>

fun LastIndex :: "string \<Rightarrow> char \<Rightarrow> nat option" where
  "LastIndex [] c = None"
| "LastIndex (x # xs) c =
     (case LastIndex xs c of
        Some i \<Rightarrow> Some (Suc i)
      | None \<Rightarrow> if x = c then Some 0 else None)"

lemma HasPrefix_append [simp]: "HasPrefix (p @ s) p"
  by (simp add: HasPrefix_def)

lemma TrimPrefix_append [simp]: "TrimPrefix (p @ s) p = s"
  by (simp add: TrimPrefix_def)

lemma HasPrefix_iff: "HasPrefix s p \<longleftrightarrow> (\<exists>r. s = p @ r)"
  by (metis HasPrefix_append HasPrefix_def append_take_drop_id)

lemma HasSuffix_iff: "HasSuffix s p \<longleftrightarrow> (\<exists>r. s = r @ p)"
proof
  assume "HasSuffix s p"
  then show "\<exists>r. s = r @ p"
    by (metis HasSuffix_def append_take_drop_id)
qed (auto simp: HasSuffix_def)

lemma Split_not_Nil [simp]: "Split s c \<noteq> []"
  by (cases s) (auto split: list.splits)

lemma Split_no_sep: "c \<notin> set s \<Longrightarrow> Split s c = [s]"
  by (induction s) auto

lemma last_Split_append: "c \<notin> set k \<Longrightarrow> last (Split (u @ c # k) c) = k"
proof (induction u)
  case Nil
  then show ?case by (simp add: Split_no_sep)
next
  case (Cons x u)
  then have IH: "last (Split (u @ c # k) c) = k" by simp
  have "length (Split k c) \<ge> 1"
    by (cases "Split k c") auto
  then have "length (Split (u @ c # k) c) \<ge> 2"
    by (induction u) (auto split: list.splits)
  then obtain y z zs where "Split (u @ c # k) c = y # z # zs"
    by (cases "Split (u @ c # k) c"; cases "tl (Split (u @ c # k) c)") auto
  with IH show ?case by auto
qed

lemma LastIndex_None: "LastIndex s c = None \<longleftrightarrow> c \<notin> set s"
  by (induction s) (auto split: option.splits)

lemma LastIndex_append: "c \<notin> set k \<Longrightarrow> LastIndex (u @ c # k) c = Some (length u)"
  by (induction u) (auto simp: LastIndex_None split: option.splits)

section \<open>Package strconv: decimal integers\<close>

definition digit_char :: "nat \<Rightarrow> char" where
  "digit_char d = char_of (48 + d)"

fun FormatNat :: "nat \<Rightarrow> string" where
  "FormatNat n =
     (if n < 10 then [digit_char n] else FormatNat (n div 10) @ [digit_char (n mod 10)])"

declare FormatNat.simps [simp del]

text \<open>\<open>strconv.FormatInt(n, 10)\<close> and the verb \<open>%d\<close>.\<close>

definition FormatInt :: "int \<Rightarrow> string" where
  "FormatInt n = (if n < 0 then CHR ''-'' # FormatNat (nat (- n)) else FormatNat (nat n))"

definition is_digit :: "char \<Rightarrow> bool" where
  "is_digit c = (48 \<le> (of_char c :: nat) \<and> (of_char c :: nat) \<le> 57)"

definition digits_value :: "string \<Rightarrow> nat" where
  "digits_value s = foldl (\<lambda>a c. 10 * a + (of_char c - 48)) 0 s"

text \<open>\<open>strconv.ParseInt(s, 10, 64)\<close>: an optional sign, then decimal digits, in range.\<close>

definition ParseInt :: "string \<Rightarrow> int option" where
  "ParseInt s =
     (let neg = (s \<noteq> [] \<and> hd s = CHR ''-'');
          ds = (if s \<noteq> [] \<and> (hd s = CHR ''-'' \<or> hd s = CHR ''+'') then tl s else s);
          v = (if neg then - int (digits_value ds) else int (digits_value ds))
      in if ds = [] \<or> \<not> list_all is_digit ds then None
         else if - (2 ^ 63) \<le> v \<and> v < 2 ^ 63 then Some v else None)"

lemma of_char_digit: "d < 10 \<Longrightarrow> of_char (digit_char d) = 48 + (d::nat)"
  by (simp add: digit_char_def of_char_of)

lemma is_digit_digit_char [simp]: "d < 10 \<Longrightarrow> is_digit (digit_char d)"
  by (simp add: is_digit_def of_char_digit)

lemma FormatNat_digits: "list_all is_digit (FormatNat n)"
proof (induction n rule: FormatNat.induct)
  case (1 n)
  then show ?case by (subst FormatNat.simps) auto
qed

lemma FormatNat_not_Nil [simp]: "FormatNat n \<noteq> []"
  by (subst FormatNat.simps) auto

lemma digits_value_FormatNat [simp]: "digits_value (FormatNat n) = n"
proof (induction n rule: FormatNat.induct)
  case (1 n)
  then show ?case
    by (cases "n < 10"; subst FormatNat.simps) (auto simp: digits_value_def of_char_digit)
qed

lemma FormatNat_hd_digit: "is_digit (hd (FormatNat n))"
  using FormatNat_digits [of n] by (cases "FormatNat n") auto

lemma is_digit_not_sign: "is_digit c \<Longrightarrow> c \<noteq> CHR ''-'' \<and> c \<noteq> CHR ''+'' \<and> c \<noteq> CHR ''v''"
  by (auto simp: is_digit_def)

lemma ParseInt_FormatInt:
  assumes "- (2 ^ 63) \<le> n" "n < 2 ^ 63"
  shows "ParseInt (FormatInt n) = Some n"
  using assms FormatNat_hd_digit [of "nat n"] FormatNat_digits
  by (auto simp: ParseInt_def FormatInt_def Let_def dest: is_digit_not_sign)

lemma FormatInt_inj:
  assumes "FormatInt a = FormatInt b" shows "a = b"
proof -
  have v: "nat \<bar>a\<bar> = digits_value (if a < 0 then tl (FormatInt a) else FormatInt a)" for a
    by (simp add: FormatInt_def)
  have s: "(hd (FormatInt a) = CHR ''-'') = (a < 0)" for a
    using FormatNat_hd_digit [of "nat a"] by (auto simp: FormatInt_def dest: is_digit_not_sign)
  from s [of a] s [of b] assms have "(a < 0) = (b < 0)" by simp
  moreover from this v [of a] v [of b] assms have "nat \<bar>a\<bar> = nat \<bar>b\<bar>" by simp
  ultimately show ?thesis by linarith
qed

section \<open>Maps, association lists, results\<close>

lemma map_of_update_simp [simp]:
  "map_of (AList.update k v al) k' = (if k = k' then Some v else map_of al k')"
  by (simp add: update_conv')

text \<open>A Go map read of a counter: the zero value when the key is absent.\<close>

definition get0 :: "int option \<Rightarrow> int" where
  "get0 v = (case v of None \<Rightarrow> 0 | Some n \<Rightarrow> n)"

lemma get0_simps [simp]: "get0 None = 0" "get0 (Some n) = n"
  by (simp_all add: get0_def)

text \<open>A Go map read of a string: the empty string when the key is absent.\<close>

definition getstr :: "string option \<Rightarrow> string" where
  "getstr v = (case v of None \<Rightarrow> [] | Some s \<Rightarrow> s)"

lemma getstr_simps [simp]: "getstr None = []" "getstr (Some s) = s"
  by (simp_all add: getstr_def)

lemma map_filter_eq_None:
  "m k = None \<Longrightarrow> (\<lambda>x. if P x then m x else None) k = None"
  by simp

end
