(* ===== verification/Go_Time.thy ===== *)
theory Go_Time
  imports Relay_Prelude
begin

text \<open>
  Go's \<open>time\<close> package as the relay uses it. A \<open>time.Time\<close> is the number of
  nanoseconds since the Unix epoch and a \<open>time.Duration\<close> a number of nanoseconds, both
  \<open>int\<close>; where the code's \<open>int64\<close> arithmetic can wrap or saturate on a value a client
  chooses, the wrap-around is written out. Postgres timestamps are kept at the same
  resolution.
\<close>

section \<open>Durations and instants\<close>

definition Second :: int where "Second = 1000000000"
definition Minute :: int where "Minute = 60 * Second"
definition Hour :: int where "Hour = 60 * Minute"

lemmas time_units = Hour_def Minute_def Second_def

lemma Second_pos [simp]: "0 < Second" and Minute_pos [simp]: "0 < Minute"
  and Hour_pos [simp]: "0 < Hour"
  by (simp_all add: time_units)

text \<open>Two's complement wrap-around of an \<open>int64\<close> result.\<close>

definition wrap64 :: "int \<Rightarrow> int" where
  "wrap64 x = (x + 2 ^ 63) mod 2 ^ 64 - 2 ^ 63"

definition int64 :: "int \<Rightarrow> bool" where
  "int64 x = (- (2 ^ 63) \<le> x \<and> x < 2 ^ 63)"

text \<open>\<open>Time.Unix()\<close>: whole seconds, rounded down.\<close>

definition unix :: "int \<Rightarrow> int" where
  "unix t = t div Second"

text \<open>
  \<open>time.Unix(sec, 0)\<close>: the seconds since year 1 are kept in an \<open>int64\<close>, so a
  \<open>sec\<close> near the top of the range wraps into the distant past.
\<close>

definition time_Unix :: "int \<Rightarrow> int" where
  "time_Unix sec = (wrap64 (sec + 62135596800) - 62135596800) * Second"

text \<open>\<open>t.Sub(u)\<close> saturates at the ends of \<open>Duration\<close>; \<open>time.Until(t)\<close> is \<open>t.Sub(now)\<close>.\<close>

definition time_Sub :: "int \<Rightarrow> int \<Rightarrow> int" where
  "time_Sub t u = max (- (2 ^ 63)) (min (2 ^ 63 - 1) (t - u))"

definition time_Until :: "int \<Rightarrow> int \<Rightarrow> int" where
  "time_Until now t = time_Sub t now"

lemma wrap64_id: "int64 x \<Longrightarrow> wrap64 x = x"
  by (simp add: int64_def wrap64_def)

lemma int64_wrap64 [simp]: "int64 (wrap64 x)"
  by (simp add: int64_def wrap64_def)

lemma unix_mono: "t \<le> u \<Longrightarrow> unix t \<le> unix u"
  by (simp add: unix_def zdiv_mono1)

lemma unix_decomp: "t = Second * unix t + t mod Second" "0 \<le> t mod Second" "t mod Second < Second"
  by (simp_all add: unix_def)

lemma le_unix_iff: "s \<le> unix t \<longleftrightarrow> s * Second \<le> t"
  using unix_decomp [of t] unfolding Second_def by linarith

lemma unix_le_iff: "unix t \<le> s \<longleftrightarrow> t < (s + 1) * Second"
  using le_unix_iff [of "s + 1" t] by linarith

lemma unix_seconds [simp]: "unix (s * Second) = s"
  by (simp add: unix_def Second_def)

lemma time_Unix_small:
  "- (2 ^ 62) \<le> s \<Longrightarrow> s < 2 ^ 62 \<Longrightarrow> time_Unix s = s * Second"
  by (simp add: time_Unix_def wrap64_id int64_def)

lemma time_Until_pos: "0 < time_Until now t \<longleftrightarrow> now < t"
  by (auto simp: time_Until_def time_Sub_def)

lemma time_Until_le: "now \<le> t \<Longrightarrow> now + time_Until now t \<le> t"
  by (auto simp: time_Until_def time_Sub_def)

section \<open>The timestamp drift check\<close>

text \<open>
  \<open>math.Abs(float64(time.Now().Unix() - timestamp))\<close> with an attacker-chosen \<open>int64\<close>
  timestamp. The subtraction wraps; the conversion to \<open>float64\<close> is monotone and exact
  below \<open>2^53\<close>, so comparing the result with 30 or 60 is comparing the integers.
\<close>

definition drift :: "int \<Rightarrow> int \<Rightarrow> int" where
  "drift now ts = \<bar>wrap64 (unix now - ts)\<bar>"

text \<open>Wrapping cannot be used to pass the check: it accepts the timestamps near the clock only.\<close>

lemma drift_le_iff:
  assumes "int64 ts" "0 \<le> unix now" "unix now < 2 ^ 62" "0 \<le> k" "k < 2 ^ 32"
  shows "drift now ts \<le> k \<longleftrightarrow> \<bar>unix now - ts\<bar> \<le> k"
proof (cases "unix now - ts < 2 ^ 63")
  case True
  with assms have "int64 (unix now - ts)" by (simp add: int64_def)
  then show ?thesis by (simp add: drift_def wrap64_id)
next
  case False
  with assms have "unix now - ts + 2 ^ 63 - 2 ^ 64 \<ge> 0" "unix now - ts + 2 ^ 63 - 2 ^ 64 < 2 ^ 64"
    by (auto simp: int64_def)
  then have "(unix now - ts + 2 ^ 63) mod 2 ^ 64 = unix now - ts + 2 ^ 63 - 2 ^ 64"
    by (metis mod_pos_pos_trivial minus_mod_self2)
  with False assms show ?thesis by (simp add: drift_def wrap64_def int64_def)
qed

end
