(* ===== verification/Crypto_Ops.thy ===== *)
theory Crypto_Ops
  imports Sha256 Go_Time
begin

text \<open>
  The pure checks of the relay: hex (\<open>hexEncode\<close>), proof of work and the puzzle answer
  (internal/cryptoops/cryptoops.go), identities and signatures (auth.go) and delivery
  vouchers (voucher.go). Ed25519 verification is the parameter \<open>ed\<close> (public key, message,
  signature) of the definitions that call it; nothing is assumed of it.
\<close>

section \<open>Hex\<close>

definition hexDigits :: string where
  "hexDigits = ''0123456789abcdef''"

definition hexEncode :: "bytes \<Rightarrow> string" where
  "hexEncode b =
     concat (map (\<lambda>v. [hexDigits ! unat (drop_bit 4 v), hexDigits ! unat (v AND 0x0F)]) b)"

text \<open>\<open>hex.DecodeString\<close>: \<open>None\<close> for an odd length or a byte that is no hex digit.\<close>

definition fromHexChar :: "char \<Rightarrow> u8 option" where
  "fromHexChar c =
     (let n = (of_char c :: nat)
      in if 48 \<le> n \<and> n \<le> 57 then Some (of_nat (n - 48))
         else if 97 \<le> n \<and> n \<le> 102 then Some (of_nat (n - 97 + 10))
         else if 65 \<le> n \<and> n \<le> 70 then Some (of_nat (n - 65 + 10))
         else None)"

fun DecodeString :: "string \<Rightarrow> bytes option" where
  "DecodeString [] = Some []"
| "DecodeString [x] = None"
| "DecodeString (x # y # r) =
     (case (fromHexChar x, fromHexChar y) of
        (Some a, Some b) \<Rightarrow> map_option ((#) (push_bit 4 a OR b)) (DecodeString r)
      | _ \<Rightarrow> None)"

section \<open>Proof of work\<close>

definition VerifyPoW :: "string \<Rightarrow> int \<Rightarrow> string \<Rightarrow> nat \<Rightarrow> bool" where
  "VerifyPoW challenge nonce payload difficulty =
     (let data = challenge @ FormatInt nonce @ payload;
          hash = sha256 (bytes_of data);
          hashHex = hexEncode hash;
          prefix = replicate difficulty (CHR ''0'')
      in HasPrefix hashHex prefix)"

section \<open>The strip-slide puzzle\<close>

definition PuzzleStrips :: int where "PuzzleStrips = 5"

definition PuzzleAnswerFromSeed :: "string \<Rightarrow> int \<Rightarrow> int" where
  "PuzzleAnswerFromSeed seed strips =
     (if strips \<le> 0 then 0
      else let sum = sha256 (bytes_of (seed @ ''k''));
               k = uint (sum ! 0) mod strips
           in if k = 0 then 0 else strips - k)"

section \<open>Identities and signatures\<close>

definition GenerateUserID :: "bytes \<Rightarrow> string" where
  "GenerateUserID pubKeyBytes = hexEncode (sha256 pubKeyBytes)"

definition VerifySignature ::
  "(bytes \<Rightarrow> bytes \<Rightarrow> bytes \<Rightarrow> bool) \<Rightarrow> string \<Rightarrow> string \<Rightarrow> bytes \<Rightarrow> bool result" where
  "VerifySignature ed pubKeyHex sigHex message =
     (case DecodeString pubKeyHex of
        None \<Rightarrow> Inl ''invalid public key hex''
      | Some pubKeyBytes \<Rightarrow>
          if length pubKeyBytes \<noteq> 32 then Inl ''invalid public key size for ed25519''
          else (case DecodeString sigHex of
                  None \<Rightarrow> Inl ''invalid signature hex''
                | Some sigBytes \<Rightarrow>
                    if length sigBytes \<noteq> 64 then Inl ''invalid signature size for ed25519''
                    else Inr (ed pubKeyBytes message sigBytes)))"

section \<open>Vouchers\<close>

record Voucher =
  RecipientPublicKey :: string
  SenderKeyHash :: string
  Expiry :: int
  Signature :: string

definition VerifyVoucher ::
  "(bytes \<Rightarrow> bytes \<Rightarrow> bytes \<Rightarrow> bool) \<Rightarrow> int \<Rightarrow> string \<Rightarrow> Voucher \<Rightarrow> bool result" where
  "VerifyVoucher ed now recipientID v =
     (if Expiry v < unix now then Inl ''voucher expired''
      else (case DecodeString (RecipientPublicKey v) of
              None \<Rightarrow> Inl ''invalid recipient public key format''
            | Some pubBytes \<Rightarrow>
                let computedRecipientID = hexEncode (sha256 pubBytes)
                in if computedRecipientID \<noteq> recipientID
                   then Inl ''recipient public key does not match recipient ID''
                   else let message = SenderKeyHash v @ '':'' @ FormatInt (Expiry v)
                        in (case VerifySignature ed (RecipientPublicKey v) (Signature v)
                                   (bytes_of message) of
                              Inl err \<Rightarrow> Inl err
                            | Inr ok \<Rightarrow> Inr ok)))"

section \<open>Facts about hex\<close>

lemma hexEncode_Nil [simp]: "hexEncode [] = []"
  by (simp add: hexEncode_def)

lemma hexEncode_Cons:
  "hexEncode (v # b) =
     hexDigits ! unat (drop_bit 4 v) # hexDigits ! unat (v AND 0x0F) # hexEncode b"
  by (simp add: hexEncode_def)

lemma length_hexEncode [simp]: "length (hexEncode b) = 2 * length b"
  by (induction b) (simp_all add: hexEncode_Cons)

lemma u8_lt: "unat (v::u8) < 256"
  using unsigned_less [of v] by simp

lemma hi_nibble: "unat (drop_bit 4 (v::u8)) = unat v div 16"
  by (simp add: drop_bit_eq_div unat_div_distrib)

lemma lo_nibble: "unat ((v::u8) AND 0x0F) = unat v mod 16"
proof -
  have "v AND 0x0F = take_bit 4 v"
    by (simp add: take_bit_eq_mask mask_eq_exp_minus_1)
  then show ?thesis
    by (simp add: take_bit_eq_mod unat_mod_distrib)
qed

lemma nibble_lt:
  "unat (drop_bit 4 (v::u8)) < 16" "unat ((v::u8) AND 0x0F) < 16"
  using u8_lt [of v] by (simp_all add: hi_nibble lo_nibble less_mult_imp_div_less)

lemma nibbles_join: "push_bit 4 (drop_bit 4 v) OR (v AND 0x0F) = (v::u8)"
proof -
  have "v AND 0x0F = take_bit 4 v"
    by (simp add: take_bit_eq_mask mask_eq_exp_minus_1)
  then show ?thesis
    by (simp add: bit_eq_iff bit_simps) auto
qed

lemma fromHexChar_hexDigits: "n < 16 \<Longrightarrow> fromHexChar (hexDigits ! n) = Some (of_nat n)"
proof -
  assume "n < 16"
  then have "n \<in> set [0,1,2,3,4,5,6,7,8,9,10,11,12,13,14,15]"
    by (simp, presburger)
  then show ?thesis by (auto simp: hexDigits_def fromHexChar_def Let_def)
qed

lemma DecodeString_hexEncode [simp]: "DecodeString (hexEncode b) = Some b"
  by (induction b) (simp_all add: hexEncode_Cons fromHexChar_hexDigits nibble_lt nibbles_join)

lemma hexEncode_inj: "hexEncode a = hexEncode b \<Longrightarrow> a = b"
  by (metis DecodeString_hexEncode option.inject)

lemma hexDigits_chars: "n < 16 \<Longrightarrow> hexDigits ! n \<in> set hexDigits"
  by (rule nth_mem) (simp add: hexDigits_def)

lemma set_hexEncode: "set (hexEncode b) \<subseteq> set hexDigits"
  by (induction b) (simp_all add: hexEncode_Cons hexDigits_chars nibble_lt)

lemma hexEncode_no_colon: "CHR '':'' \<notin> set (hexEncode b)"
proof -
  have "CHR '':'' \<notin> set hexDigits" by (simp add: hexDigits_def)
  then show ?thesis using set_hexEncode by blast
qed

section \<open>Leading zeros as a bound on the digest\<close>

text \<open>A digest as the 256-bit big-endian number it encodes.\<close>

definition be_value :: "bytes \<Rightarrow> nat" where
  "be_value b = foldl (\<lambda>a v. 256 * a + unat v) 0 b"

definition nibbles :: "bytes \<Rightarrow> nat list" where
  "nibbles b = concat (map (\<lambda>v. [unat (drop_bit 4 v), unat (v AND 0x0F)]) b)"

definition nib_value :: "nat \<Rightarrow> nat list \<Rightarrow> nat" where
  "nib_value a ns = foldl (\<lambda>a n. 16 * a + n) a ns"

lemma nib_value_simps [simp]:
  "nib_value a [] = a" "nib_value a (n # ns) = nib_value (16 * a + n) ns"
  by (simp_all add: nib_value_def)

lemma nib_value_acc: "nib_value a ns = a * 16 ^ length ns + nib_value 0 ns"
proof (induction ns arbitrary: a)
  case (Cons n ns)
  show ?case
    using Cons [of "16 * a + n"] Cons [of n] by (simp add: algebra_simps)
qed simp

lemma nib_value_bound: "list_all (\<lambda>n. n < 16) ns \<Longrightarrow> nib_value 0 ns < 16 ^ length ns"
proof (induction ns)
  case (Cons n ns)
  then have "n \<le> 15" "nib_value 0 ns < 16 ^ length ns" by simp_all
  then have "n * 16 ^ length ns + nib_value 0 ns < 15 * 16 ^ length ns + 16 ^ length ns"
    by (intro add_le_less_mono mult_le_mono1) auto
  then show ?case using nib_value_acc [of n ns] by simp
qed simp

lemma nib_value_zero_prefix:
  assumes "list_all (\<lambda>n. n < 16) ns" "d \<le> length ns"
  shows "nib_value 0 ns < 16 ^ (length ns - d) \<longleftrightarrow> take d ns = replicate d 0"
  using assms
proof (induction ns arbitrary: d)
  case (Cons n ns)
  show ?case
  proof (cases d)
    case 0
    then show ?thesis using nib_value_bound [OF Cons.prems(1)] by simp
  next
    case (Suc e)
    show ?thesis
    proof (cases "n = 0")
      case True
      then show ?thesis using Suc Cons by simp
    next
      case False
      then have "16 ^ length ns \<le> nib_value 0 (n # ns)"
        using nib_value_acc [of n ns] by (cases n) auto
      moreover have "(16::nat) ^ (length ns - e) \<le> 16 ^ length ns"
        by (rule power_increasing) auto
      ultimately have "\<not> nib_value 0 (n # ns) < 16 ^ (length ns - e)" by linarith
      then show ?thesis using False Suc by simp
    qed
  qed
qed simp

lemma nib_value_nibbles: "nib_value a (nibbles b) = foldl (\<lambda>a v. 256 * a + unat v) a b"
proof (induction b arbitrary: a)
  case (Cons v b)
  have "16 * (16 * a + unat v div 16) + unat v mod 16 = 256 * a + unat v"
    by presburger
  with Cons show ?case by (simp add: nibbles_def hi_nibble lo_nibble add.commute)
qed (simp add: nibbles_def)

lemma nibbles_lt: "list_all (\<lambda>n. n < 16) (nibbles b)"
  by (induction b) (auto simp: nibbles_def nibble_lt)

lemma length_nibbles [simp]: "length (nibbles b) = 2 * length b"
  by (induction b) (auto simp: nibbles_def)

lemma hexEncode_nibbles: "hexEncode b = map ((!) hexDigits) (nibbles b)"
  by (induction b) (auto simp: hexEncode_def nibbles_def)

lemma hexDigit_zero: "n < 16 \<Longrightarrow> (hexDigits ! n = CHR ''0'') = (n = 0)"
  using fromHexChar_hexDigits [of n] fromHexChar_hexDigits [of 0]
  by (auto simp: hexDigits_def of_nat_eq_0_iff unat_of_nat dest!: arg_cong [where f = unat])

lemma zero_prefix_map:
  "list_all (\<lambda>n. n < 16) ns \<Longrightarrow>
    take d (map ((!) hexDigits) ns) = replicate d (CHR ''0'') \<longleftrightarrow> take d ns = replicate d 0"
proof (induction ns arbitrary: d)
  case (Cons n ns)
  then show ?case by (cases d) (auto simp: hexDigit_zero)
qed auto

lemma leading_zeros_iff:
  assumes "length b = 32"
  shows "HasPrefix (hexEncode b) (replicate d (CHR ''0'')) \<longleftrightarrow>
    d \<le> 64 \<and> be_value b < 16 ^ (64 - d)"
proof (cases "d \<le> 64")
  case True
  then have "take d (nibbles b) = replicate d 0 \<longleftrightarrow> nib_value 0 (nibbles b) < 16 ^ (64 - d)"
    using nib_value_zero_prefix [OF nibbles_lt, of d b] assms by simp
  then show ?thesis using True
    by (simp add: HasPrefix_def hexEncode_nibbles zero_prefix_map nibbles_lt
        nib_value_nibbles be_value_def)
next
  case False
  have "HasPrefix (hexEncode b) (replicate d (CHR ''0'')) \<Longrightarrow> min 64 d = d"
    using assms by (auto simp: HasPrefix_def dest: arg_cong [where f = length])
  with False show ?thesis by linarith
qed

section \<open>Properties\<close>

text \<open>
  C17. Proof of work: \<open>VerifyPoW\<close>, which compares hex prefixes, accepts exactly when the
  SHA-256 digest of challenge, decimal nonce and payload, read as a 256-bit number, is below
  \<open>16 ^ (64 - difficulty)\<close>; no nonce passes a difficulty above 64.
\<close>

theorem VerifyPoW_iff:
  "VerifyPoW challenge nonce payload difficulty \<longleftrightarrow>
     difficulty \<le> 64 \<and>
     be_value (sha256 (bytes_of (challenge @ FormatInt nonce @ payload))) < 16 ^ (64 - difficulty)"
  by (simp add: VerifyPoW_def leading_zeros_iff)

text \<open>
  The puzzle answer: for a positive number of strips the derived rotation \<open>u\<close> lies in
  \<open>0 .. strips - 1\<close>, brings the displayed rotation \<open>k = sha256(seed + "k")[0] mod strips\<close>
  back to zero, and is the only rotation in that range that does.
\<close>

theorem PuzzleAnswerFromSeed_unique:
  assumes "0 < strips"
  shows "0 \<le> u \<and> u < strips \<and> (uint (sha256 (bytes_of (seed @ ''k'')) ! 0) mod strips + u) mod strips = 0
     \<longleftrightarrow> u = PuzzleAnswerFromSeed seed strips"
proof -
  define k where "k = uint (sha256 (bytes_of (seed @ ''k'')) ! 0) mod strips"
  have k: "0 \<le> k" "k < strips" using assms by (simp_all add: k_def)
  have "0 \<le> u \<and> u < strips \<and> (k + u) mod strips = 0 \<longleftrightarrow> u = (if k = 0 then 0 else strips - k)"
  proof
    assume u: "0 \<le> u \<and> u < strips \<and> (k + u) mod strips = 0"
    show "u = (if k = 0 then 0 else strips - k)"
    proof (cases "k + u < strips")
      case True
      with u k have "(k + u) mod strips = k + u" by (intro mod_pos_pos_trivial) auto
      with u k show ?thesis by auto
    next
      case False
      with u k have "(k + u - strips) mod strips = k + u - strips" by (intro mod_pos_pos_trivial) auto
      with u k False show ?thesis by auto
    qed
  next
    assume "u = (if k = 0 then 0 else strips - k)"
    with k assms show "0 \<le> u \<and> u < strips \<and> (k + u) mod strips = 0" by auto
  qed
  then show ?thesis using assms by (simp add: PuzzleAnswerFromSeed_def k_def Let_def)
qed

theorem PuzzleAnswerFromSeed_unique_witness:
  "(0::int) < 1 \<and> PuzzleAnswerFromSeed ''any'' 1 = 0"
  using PuzzleAnswerFromSeed_unique [of 1 0 "''any''"] by simp

text \<open>
  Hex: decoding what \<open>hexEncode\<close> printed gives the bytes back, so the user id
  \<open>hexEncode (sha256 key)\<close> determines the digest of the key.
\<close>

theorem hex_roundtrip:
  "DecodeString (hexEncode b) = Some b \<and> length (GenerateUserID b) = 64 \<and>
   DecodeString (GenerateUserID b) = Some (sha256 b) \<and> CHR '':'' \<notin> set (GenerateUserID b)"
  by (simp add: GenerateUserID_def hexEncode_no_colon)

text \<open>
  A voucher is accepted exactly when it has not expired, the recipient it is posted to is
  the SHA-256 identity of the key in it, key and signature are well-formed hex of 32 and 64
  bytes, and that key signed \<open>sender:expiry\<close>.
\<close>

theorem VerifyVoucher_iff:
  "VerifyVoucher ed now recipientID v = Inr True \<longleftrightarrow>
     unix now \<le> Expiry v \<and>
     (\<exists>pub sig. DecodeString (RecipientPublicKey v) = Some pub \<and> length pub = 32 \<and>
        DecodeString (Signature v) = Some sig \<and> length sig = 64 \<and>
        recipientID = GenerateUserID pub \<and>
        ed pub (bytes_of (SenderKeyHash v @ '':'' @ FormatInt (Expiry v))) sig)"
  by (auto simp: VerifyVoucher_def VerifySignature_def GenerateUserID_def Let_def
      split: option.splits sum.splits if_splits)

end
