(* ===== verification/Relay_Env.thy ===== *)
theory Relay_Env
  imports Crypto_Ops
begin

text \<open>
  What a run of the relay takes from outside its own code: the clock, the outages of Redis,
  Postgres and object storage, randomness, Ed25519, the memory gauge, \<open>encoding/json\<close> on an
  envelope, the local-time rendering of the host, and the answers of Firebase. A handler
  runs at one instant \<open>now\<close>; a property quantifies over every environment, so over every
  combination of failures.
\<close>

section \<open>Calls that can fail\<close>

text \<open>
  Each external call is named, with the identifier it is about, so that a fan-out can meet a
  failure for one recipient and none for the next.
\<close>

datatype rdb_op =
    OpAddMessageToQueue | OpFetchAndClearQueue | OpGetNotifiableQueueCount
  | OpBlockQueue | OpUnblockQueue | OpIsQueueBlocked
  | OpSetPushToken | OpGetPushToken | OpDeletePushToken
  | OpStorePoWChallenge | OpGetPoWChallengeDifficulty | OpIsNonceUnique
  | OpAllowNuke | OpAllowLargeUpload | OpAllowAction | OpConsumeVoucher
  | OpCheckIPBan | OpBanIP | OpIncrementIPFailure | OpCheckIPRateLimit
  | OpAllowIssuance | OpIssuanceCountToday
  | OpRegisterChallengeStrike | OpCheckChallengeCooldown | OpSetChallengeCooldown
  | OpPairing | OpTunnel | OpFileToken | OpEntitlement | OpIntegrityNonce

datatype pg_op =
    OpStoreMessage | OpGetFileMessage | OpGetPendingMessages | OpDeleteMessage
  | OpCountMessagesByBucket | OpDeleteInlineMessages
  | OpPruneSelect | OpPruneDelete | OpPruneCount
  | OpStoreEntitlement | OpGetEntitlement
  | OpStoreClientAttestation | OpGetClientAttestation
  | OpSelectBudget | OpInsertBudget | OpResetBudget | OpConsumeBudget
  | OpPostStory | OpGetStoriesFeed | OpGetStory | OpDeleteStory
  | OpStoryReaction | OpGetStoryReactions
  | OpWipeStories | OpWipeReactions | OpWipeBudget | OpPruneExpiredStories
  | OpMintDeviceToken | OpVerifyDeviceToken | OpTouchDeviceToken | OpRevokeDeviceToken
  | OpQueryMessageOwner

datatype store_op = OpCreate | OpCopy | OpDownload | OpDelete

datatype ext_call = Rdb rdb_op string | Pg pg_op string | Store store_op string

section \<open>The environment of one step\<close>

text \<open>
  \<open>json_fields s\<close> is the result of unmarshalling \<open>s\<close> into a
  \<open>map[string]json.RawMessage\<close> and \<open>json_marshal\<close> the text of such a map.
  \<open>ram_threshold\<close> is the parsed \<open>HIGH_RAM_THRESHOLD_PERCENT\<close>, if set, and \<open>mem_used\<close> the
  reading of the memory gauge, \<open>None\<close> when it fails. \<open>copied key\<close> is how many bytes a failing
  copy to the local file \<open>key\<close> writes before it fails.
\<close>

section \<open>Google's services\<close>

text \<open>
  The answer to an HTTP request the relay makes: none, or a status, the text of the body and
  what decoding it gives (\<open>None\<close> is a decoding error). The records hold the members that the
  relay reads of the Play Developer and Play Integrity answers.
\<close>

datatype 'a http_reply = NoReply | Reply nat string "'a option"

record subscriptionV2 =
  sv_SubscriptionState :: string
  sv_ExpiryTimes :: "string list"

record PlayIntegrityTokenResponse =
  it_RequestPackageName :: string
  it_Nonce :: string
  it_AppRecognitionVerdict :: string
  it_DeviceRecognitionVerdict :: "string list"
  it_Error :: "(string \<times> int) option"

text \<open>What the relay reads of the key file of a Google service account; the RSA key itself is used by
  \<open>rsa_sign\<close> of the environment.\<close>

record serviceAccount =
  sa_ProjectID :: string
  sa_ClientEmail :: string
  sa_TokenURI :: string

section \<open>The globals that main sets\<close>

datatype challenge_mode = Off | Adaptive | Always

record relay_globals =
  challengeMode :: challenge_mode
  issuanceDifficulty :: nat
  issuanceDailyIPCap :: int
  testMode :: bool

definition default_globals :: relay_globals where
  "default_globals =
     \<lparr> challengeMode = Off, issuanceDifficulty = 5, issuanceDailyIPCap = 5, testMode = False \<rparr>"

section \<open>The environment record\<close>

text \<open>
  Beyond the fields above: the two verifiers (\<open>play_enabled\<close>, \<open>integrity_enabled\<close> and their
  package names), the service account and the RSA signature for each scope (\<open>google_account\<close>,
  \<open>rsa_sign\<close>, \<open>None\<close> an error), Google's endpoints (\<open>oauth_api\<close> by address and assertion,
  \<open>fcm_api\<close>, \<open>play_api\<close> and \<open>integrity_api\<close> by access token and request), the relay's
  own signing key (\<open>relay_sign\<close>, \<open>relay_pub\<close>) and the globals of the process.
\<close>

record env =
  now :: int
  fault :: "ext_call \<Rightarrow> bool"
  localFormat :: "string \<Rightarrow> int \<Rightarrow> string"
  ed_verify :: "bytes \<Rightarrow> bytes \<Rightarrow> bytes \<Rightarrow> bool"
  mem_used :: "rat option"
  ram_threshold :: "rat option"
  json_fields :: "string \<Rightarrow> (string \<rightharpoonup> string) option"
  json_marshal :: "(string \<rightharpoonup> string) \<Rightarrow> string option"
  push_enabled :: bool
  copied :: "string \<Rightarrow> nat"
  globals :: relay_globals
  play_enabled :: bool
  play_package :: string
  integrity_enabled :: bool
  integrity_package :: string
  google_account :: "string \<Rightarrow> serviceAccount"
  rsa_sign :: "string \<Rightarrow> bytes \<Rightarrow> bytes option"
  oauth_api :: "string \<Rightarrow> string \<Rightarrow> (string \<times> int) http_reply"
  fcm_api :: "string \<Rightarrow> string \<Rightarrow> string \<Rightarrow> string \<Rightarrow> string \<Rightarrow> unit http_reply"
  play_api :: "string \<Rightarrow> string \<Rightarrow> string \<Rightarrow> subscriptionV2 http_reply"
  integrity_api :: "string \<Rightarrow> string \<Rightarrow> string \<Rightarrow> PlayIntegrityTokenResponse http_reply"
  relay_sign :: "bytes \<Rightarrow> bytes"
  relay_pub :: bytes

text \<open>An environment without outages, used by the witnesses.\<close>

definition env0 :: env where
  "env0 = \<lparr> now = 0, fault = (\<lambda>_. False), localFormat = (\<lambda>_ _. ''197001010000''),
            ed_verify = (\<lambda>_ _ _. True), mem_used = Some 10, ram_threshold = None,
            json_fields = (\<lambda>_. None), json_marshal = (\<lambda>_. None),
            push_enabled = False,
            copied = (\<lambda>_. 0), globals = default_globals,
            play_enabled = False, play_package = ''xyz.artfacility.wiltkey'',
            integrity_enabled = False, integrity_package = ''xyz.artfacility.wiltkey'',
            google_account = (\<lambda>_. \<lparr>sa_ProjectID = ''wiltkey'', sa_ClientEmail = ''relay@wiltkey'',
              sa_TokenURI = ''https://oauth2.googleapis.com/token''\<rparr>),
            rsa_sign = (\<lambda>_ _. Some (replicate 256 0)), oauth_api = (\<lambda>_ _. NoReply),
            fcm_api = (\<lambda>_ _ _ _ _. NoReply), play_api = (\<lambda>_ _ _. NoReply),
            integrity_api = (\<lambda>_ _ _. NoReply), relay_sign = (\<lambda>_. replicate 64 0),
            relay_pub = replicate 32 0 \<rparr>"

lemma env0_simps [simp]:
  "now env0 = 0" "fault env0 c = False" "push_enabled env0 = False"
  "localFormat env0 l t = ''197001010000''" "ed_verify env0 = (\<lambda>_ _ _. True)"
  "mem_used env0 = Some 10" "ram_threshold env0 = None" "json_fields env0 s = None"
  "globals env0 = default_globals" "play_enabled env0 = False" "integrity_enabled env0 = False"
  by (simp_all add: env0_def)

end
