(* ===== verification/Contracts.thy ===== *)
theory Contracts
  imports Relay_Prelude
begin

text \<open>
  The interfaces between the key-value client and the handlers, as locales: a gate that
  reopens after a cooldown, a counter limited per window, and a mailbox. Each law speaks of
  one call made in an environment \<open>'e\<close> of its own (so at its own time and with its own
  outages); the lemmas proved here once are about whole sequences of calls. The
  interpretations on the operations of the code are in the component theories.
\<close>

section \<open>Sequences of calls\<close>

fun gate_run :: "('e \<Rightarrow> 'k \<Rightarrow> 'a \<Rightarrow> 's \<Rightarrow> bool \<times> 's) \<Rightarrow> ('e \<times> 'k \<times> 'a) list \<Rightarrow> 's \<Rightarrow> bool list \<times> 's" where
  "gate_run g [] s = ([], s)"
| "gate_run g ((e, k, d) # calls) s =
     (let (b, s') = g e k d s; (bs, s'') = gate_run g calls s' in (b # bs, s''))"

lemma length_gate_run [simp]: "length (fst (gate_run g calls s)) = length calls"
  by (induction g calls s rule: gate_run.induct) (auto simp: Let_def split: prod.splits)

lemma gate_run_Cons:
  "fst (gate_run g ((e, k, d) # calls) s) = fst (g e k d s) # fst (gate_run g calls (snd (g e k d s)))"
  by (simp add: gate_run.simps(2) Let_def split: prod.splits)

declare gate_run.simps(2) [simp del]

text \<open>Deposits for several recipients, one after the other.\<close>

fun put_run :: "('e \<Rightarrow> 'u \<Rightarrow> 'm \<Rightarrow> int \<Rightarrow> 's \<Rightarrow> 's) \<Rightarrow> ('e \<times> 'u \<times> 'm \<times> int) list \<Rightarrow> 's \<Rightarrow> 's" where
  "put_run p [] s = s"
| "put_run p ((e, u, m, ttl) # ds) s = put_run p ds (p e u m ttl s)"

text \<open>An answer of the code counts as granted when it is \<open>(true, nil)\<close>.\<close>

definition granted :: "bool result \<times> 's \<Rightarrow> bool \<times> 's" where
  "granted p = (fst p = Inr True, snd p)"

lemma granted_simps [simp]:
  "fst (granted p) = (fst p = Inr True)" "snd (granted p) = snd p"
  by (simp_all add: granted_def)

section \<open>A gate with a cooldown\<close>

text \<open>
  What spaces the granted calls: a running deadline closes the gate and survives every call, and a
  grant arms it.
\<close>

locale spaced_gate =
  fixes gate :: "'e \<Rightarrow> 'k \<Rightarrow> 'a \<Rightarrow> 's \<Rightarrow> bool \<times> 's"
    and clock :: "'e \<Rightarrow> int"
    and span :: "'e \<Rightarrow> 'k \<Rightarrow> 'a \<Rightarrow> int"
    and deadline :: "'k \<Rightarrow> 's \<Rightarrow> int option"
  assumes closed: "deadline k s = Some x \<Longrightarrow> clock e < x \<Longrightarrow> \<not> fst (gate e k d s)"
    and stays: "deadline k s = Some x \<Longrightarrow> clock e < x \<Longrightarrow> deadline k (snd (gate e k' d s)) = Some x"
    and armed: "fst (gate e k d s) \<Longrightarrow> deadline k (snd (gate e k d s)) = Some (clock e + span e k d)"
begin

lemma closed_until_deadline:
  assumes "deadline k s = Some x" "j < length calls" "calls ! j = (e, k, d)"
    and "sorted (map (clock \<circ> fst) calls)" "fst (gate_run gate calls s) ! j"
  shows "x \<le> clock e"
  using assms
proof (induction calls arbitrary: s j)
  case (Cons c calls)
  obtain e' k' d' where c: "c = (e', k', d')" by (cases c) auto
  show ?case
  proof (cases j)
    case 0
    with Cons.prems c have "fst (gate e k d s)" by (simp add: gate_run_Cons)
    with closed [OF Cons.prems(1)] show ?thesis by (meson not_less)
  next
    case (Suc i)
    have later: "clock e' \<le> clock e"
      using Cons.prems Suc c nth_mem [of i calls] by fastforce
    show ?thesis
    proof (cases "clock e' < x")
      case True
      then have "deadline k (snd (gate e' k' d' s)) = Some x" using stays [OF Cons.prems(1)] by blast
      then show ?thesis
        using Cons.IH [of "snd (gate e' k' d' s)" i] Cons.prems Suc c by (simp add: gate_run_Cons)
    qed (use later in simp)
  qed
qed simp

text \<open>Two granted calls on one key are at least the span the first one armed apart.\<close>

lemma spacing:
  assumes "sorted (map (clock \<circ> fst) calls)" "i < j" "j < length calls"
    and "calls ! i = (e1, k, d1)" "calls ! j = (e2, k, d2)"
    and "fst (gate_run gate calls s) ! i" "fst (gate_run gate calls s) ! j"
  shows "clock e1 + span e1 k d1 \<le> clock e2"
  using assms
proof (induction calls arbitrary: s i j)
  case (Cons c calls)
  obtain e' k' d' where c: "c = (e', k', d')" by (cases c) auto
  let ?s' = "snd (gate e' k' d' s)"
  from Cons.prems(2) obtain j' where j: "j = Suc j'" by (cases j) auto
  show ?case
  proof (cases i)
    case 0
    with Cons.prems c have "fst (gate e1 k d1 s)" "e' = e1" "k' = k" "d' = d1"
      by (simp_all add: gate_run_Cons)
    then have "deadline k ?s' = Some (clock e1 + span e1 k d1)" using armed by simp
    then show ?thesis
      using closed_until_deadline [of k ?s' "clock e1 + span e1 k d1" j' calls e2 d2] Cons.prems c j
      by (simp add: gate_run_Cons comp_def)
  next
    case (Suc i')
    then show ?thesis using Cons.IH [of i' j' ?s'] Cons.prems c j by (simp add: gate_run_Cons)
  qed
qed simp

end

text \<open>The stronger contract of the gates in memory: a refused call changes nothing.\<close>

locale cooldown_gate =
  fixes gate :: "'e \<Rightarrow> 'k \<Rightarrow> 'a \<Rightarrow> 's \<Rightarrow> bool \<times> 's"
    and clock :: "'e \<Rightarrow> int"
    and span :: "'e \<Rightarrow> 'k \<Rightarrow> 'a \<Rightarrow> int"
    and deadline :: "'k \<Rightarrow> 's \<Rightarrow> int option"
  assumes closed: "deadline k s = Some x \<Longrightarrow> clock e < x \<Longrightarrow> \<not> fst (gate e k d s)"
    and refused: "\<not> fst (gate e k d s) \<Longrightarrow> snd (gate e k d s) = s"
    and armed: "fst (gate e k d s) \<Longrightarrow> deadline k (snd (gate e k d s)) = Some (clock e + span e k d)"
    and frame: "k' \<noteq> k \<Longrightarrow> deadline k' (snd (gate e k d s)) = deadline k' s"

sublocale cooldown_gate \<subseteq> spaced: spaced_gate gate clock span deadline
proof (unfold_locales, goal_cases)
  case (2 k s x e k' d)
  then show ?case by (cases "k' = k") (metis closed refused, simp add: frame)
qed (fact closed, fact armed)

text \<open>A gate that also opens: with the store up, a call past the deadline is granted.\<close>

locale live_gate = cooldown_gate +
  fixes up :: "'e \<Rightarrow> 'k \<Rightarrow> 'a \<Rightarrow> bool"
  assumes opens: "up e k d \<Longrightarrow> (\<And>x. deadline k s = Some x \<Longrightarrow> x \<le> clock e) \<Longrightarrow> fst (gate e k d s)"
begin

lemma reopens:
  assumes "fst (gate e1 k d s)" "clock e1 + span e1 k d \<le> clock e2" "up e2 k d'"
  shows "fst (gate e2 k d' (snd (gate e1 k d s)))"
  using assms armed opens by fastforce

lemma granted_iff:
  "up e k d \<Longrightarrow> fst (gate e k d s) \<longleftrightarrow> (\<forall>x. deadline k s = Some x \<longrightarrow> x \<le> clock e)"
  using closed opens by (meson not_less)

end

section \<open>A counter limited per window\<close>

locale window_limit =
  fixes hit :: "'e \<Rightarrow> 'k \<Rightarrow> int \<Rightarrow> 's \<Rightarrow> bool \<times> 's"
    and window :: "'e \<Rightarrow> 'w"
    and good :: "'w \<Rightarrow> bool"
    and cnt :: "'w \<Rightarrow> 'k \<Rightarrow> 's \<Rightarrow> int"
  assumes counts: "good (window e) \<Longrightarrow> fst (hit e k n s) \<Longrightarrow>
      cnt (window e) k (snd (hit e k n s)) = cnt (window e) k s + 1 \<and> cnt (window e) k s < n"
    and keeps: "good (window e) \<Longrightarrow> cnt (window e) k' s \<le> cnt (window e) k' (snd (hit e k n s))"
begin

lemma limited:
  assumes "good w" "\<forall>c \<in> set calls. window (fst c) = w \<and> snd (snd c) = n"
  shows "int (length (filter (\<lambda>(c, b). b \<and> fst (snd c) = k) (zip calls (fst (gate_run hit calls s)))))
           \<le> max 0 (n - cnt w k s)"
  using assms(2)
proof (induction calls arbitrary: s)
  case (Cons c calls)
  obtain e k' d where c: "c = (e, k', d)" by (cases c) auto
  with Cons.prems have w: "window e = w" "d = n" by simp_all
  let ?s' = "snd (hit e k' n s)"
  have IH: "int (length (filter (\<lambda>(c, b). b \<and> fst (snd c) = k) (zip calls (fst (gate_run hit calls ?s')))))
              \<le> max 0 (n - cnt w k ?s')"
    using Cons.IH Cons.prems by simp
  have mono: "cnt w k s \<le> cnt w k ?s'" using keeps [of e k s k' n] w assms(1) by simp
  show ?case
  proof (cases "fst (hit e k' n s) \<and> k' = k")
    case True
    then have "cnt w k ?s' = cnt w k s + 1" "cnt w k s < n"
      using counts [of e k n s] w assms(1) by auto
    with IH True c w show ?thesis by (simp add: gate_run_Cons)
  next
    case False
    with IH mono c w show ?thesis by (auto simp: gate_run_Cons)
  qed
qed simp

end

section \<open>A mailbox\<close>

definition lastn :: "nat \<Rightarrow> 'a list \<Rightarrow> 'a list" where
  "lastn n xs = drop (length xs - n) xs"

lemma lastn_short [simp]: "length xs \<le> n \<Longrightarrow> lastn n xs = xs"
  by (simp add: lastn_def)

lemma length_lastn [simp]: "length (lastn n xs) = min n (length xs)"
  by (auto simp: lastn_def)

lemma lastn_snoc: "0 < n \<Longrightarrow> \<exists>ys. lastn n (xs @ [x]) = ys @ [x]"
  by (cases "length xs + 1 \<le> n") (auto simp: lastn_def)

locale mailbox =
  fixes put :: "'e \<Rightarrow> 'u \<Rightarrow> 'm \<Rightarrow> int \<Rightarrow> 's \<Rightarrow> 's"
    and fetch :: "'e \<Rightarrow> 'u \<Rightarrow> 's \<Rightarrow> 'm list \<times> 's"
    and clock :: "'e \<Rightarrow> int"
    and up :: "'e \<Rightarrow> 'u \<Rightarrow> bool"
    and stored :: "'u \<Rightarrow> 's \<Rightarrow> ('m \<times> int) list"
    and cap :: nat
  assumes put_stored: "up e u \<Longrightarrow> stored u (put e u m ttl s) =
      lastn cap (filter (\<lambda>(_, x). clock e < x) (stored u s @ [(m, clock e + ttl)]))"
    and put_frame: "u' \<noteq> u \<Longrightarrow> stored u' (put e u m ttl s) = stored u' s"
    and fetch_live: "up e u \<Longrightarrow> fst (fetch e u s) = map fst (filter (\<lambda>(_, x). clock e < x) (stored u s))"
    and fetch_clears: "up e u \<Longrightarrow> stored u (snd (fetch e u s)) = []"
    and fetch_frame: "u' \<noteq> u \<Longrightarrow> stored u' (snd (fetch e u s)) = stored u' s"
begin

lemma stored_put_run:
  assumes "\<forall>(e, u', m, ttl) \<in> set ds. up e u' \<and> clock e \<le> t \<and> t < clock e + ttl"
    and "length (stored u s) + length ds \<le> cap"
  shows "filter (\<lambda>(_, x). t < x) (stored u (put_run put ds s)) =
      filter (\<lambda>(_, x). t < x) (stored u s) @
      [(m, clock e + ttl). (e, u', m, ttl) \<leftarrow> ds, u' = u]"
  using assms
proof (induction ds arbitrary: s)
  case (Cons d ds)
  obtain e u' m ttl where d: "d = (e, u', m, ttl)" by (cases d) auto
  let ?s' = "put e u' m ttl s"
  from Cons.prems d have e: "up e u'" "clock e \<le> t" "t < clock e + ttl" by auto
  have st: "filter (\<lambda>(_, x). t < x) (stored u ?s') =
      filter (\<lambda>(_, x). t < x) (stored u s) @ (if u' = u then [(m, clock e + ttl)] else [])
      \<and> length (stored u ?s') \<le> length (stored u s) + 1"
  proof (cases "u' = u")
    case True
    let ?f = "filter (\<lambda>(_, x). clock e < x) (stored u s @ [(m, clock e + ttl)])"
    have "length ?f \<le> length (stored u s @ [(m, clock e + ttl)])" by (rule length_filter_le)
    then have len: "length ?f \<le> length (stored u s) + 1" by simp
    with Cons.prems have "length ?f \<le> cap" by simp
    then have "stored u ?s' = ?f" using True e put_stored [of e u m ttl s] by simp
    moreover have "filter (\<lambda>(_, x). t < x) ?f =
        filter (\<lambda>(_, x). t < x) (stored u s) @ [(m, clock e + ttl)]"
      using e by (auto simp: filter_filter intro!: filter_cong)
    ultimately show ?thesis using True len by simp
  next
    case False
    then show ?thesis using put_frame [of u u'] by simp
  qed
  then show ?case using Cons.IH [of ?s'] Cons.prems d by auto
qed simp

text \<open>Nothing is lost and the order is kept, as long as the mailbox has room.\<close>

lemma delivered_in_order:
  assumes "\<forall>(e, u', m, ttl) \<in> set ds. up e u' \<and> clock e \<le> clock e' \<and> clock e' < clock e + ttl"
    and "stored u s = []" "length ds \<le> cap" "up e' u"
  shows "fst (fetch e' u (put_run put ds s)) = [m. (e, u', m, ttl) \<leftarrow> ds, u' = u]"
proof -
  have "fst (fetch e' u (put_run put ds s)) = map fst [(m, clock e + ttl). (e, u', m, ttl) \<leftarrow> ds, u' = u]"
    using stored_put_run [of ds "clock e'" u s] assms fetch_live by simp
  also have "\<dots> = [m. (e, u', m, ttl) \<leftarrow> ds, u' = u]"
    by (induction ds) auto
  finally show ?thesis .
qed

lemma fetch_once:
  "up e u \<Longrightarrow> up e' u \<Longrightarrow> fst (fetch e' u (snd (fetch e u s))) = []"
  by (simp add: fetch_live fetch_clears)

end

section \<open>A bounded outbox per receiver\<close>

locale outbox =
  fixes send :: "'p \<Rightarrow> 'm \<Rightarrow> 's \<Rightarrow> 's"
    and pending :: "'p \<Rightarrow> 's \<Rightarrow> 'm list"
    and open_for :: "'p \<Rightarrow> 's \<Rightarrow> bool"
    and room :: nat
  assumes send_open: "open_for p s \<Longrightarrow> length (pending p s) < room \<Longrightarrow>
      pending p (send p m s) = pending p s @ [m] \<and> open_for p (send p m s)"
    and send_closed: "\<not> open_for p s \<Longrightarrow> send p m s = s"
    and send_other: "q \<noteq> p \<Longrightarrow> pending q (send p m s) = pending q s \<and> open_for q (send p m s) = open_for q s"
begin

definition send_all :: "'p \<Rightarrow> 'm list \<Rightarrow> 's \<Rightarrow> 's" where
  "send_all p ms s = fold (send p) ms s"

lemma send_all_in_order:
  assumes "open_for p s" "length (pending p s) + length ms \<le> room"
  shows "pending p (send_all p ms s) = pending p s @ ms \<and> open_for p (send_all p ms s)"
  using assms
proof (induction ms arbitrary: s)
  case (Cons m ms)
  then have "pending p (send p m s) = pending p s @ [m]" "open_for p (send p m s)"
    using send_open [of p s m] by auto
  with Cons.IH [of "send p m s"] Cons.prems show ?case by (simp add: send_all_def)
qed (simp add: send_all_def)

lemma send_all_closed: "\<not> open_for p s \<Longrightarrow> send_all p ms s = s"
  by (induction ms) (simp_all add: send_all_def send_closed)

lemma send_all_other: "q \<noteq> p \<Longrightarrow> pending q (send_all p ms s) = pending q s"
  by (induction ms arbitrary: s) (simp_all add: send_all_def send_other)

end

end
