(* ===== verification/Redis_Client.thy ===== *)
theory Redis_Client
  imports Relay_Env Contracts
begin

text \<open>
  The key-value client of redis.go in its in-memory form (\<open>isMemory\<close>), the implementation
  that the repository itself holds: the record \<open>RedisClient\<close> has its maps and every
  definition is the memory branch of the method of that name. The commands of the real
  Redis server are not modelled; that such a server can be unreachable is: an operation on
  which the environment reports an outage returns an error and changes nothing, which is
  what the other branch of the method does when a command fails.

  The three maps whose size the code tests (issuance, strikes, cooldowns) are association
  lists, the others partial functions.
\<close>

section \<open>State\<close>

record memoryZ =
  z_senderID :: string
  z_envelope :: string
  z_contentType :: string
  z_expires :: int

record powChallenge =
  pow_difficulty :: nat
  pow_expires :: int

record ipFail =
  fail_count :: int
  fail_expires :: int

record memoryPairing =
  pair_data :: string
  pair_expires :: int

record RedisClient =
  memoryQueue :: "string \<rightharpoonup> memoryZ list"
  memoryBlocks :: "string \<rightharpoonup> int"
  memoryPoW :: "string \<rightharpoonup> powChallenge"
  memoryNonces :: "string \<rightharpoonup> int"
  memoryBans :: "string \<rightharpoonup> int"
  memoryFails :: "string \<rightharpoonup> ipFail"
  memoryRate :: "string \<rightharpoonup> int"
  memoryPairings :: "string \<rightharpoonup> memoryPairing"
  memoryTunnels :: "string \<rightharpoonup> string"
  memoryTunnelBytes :: "string \<rightharpoonup> int"
  memoryNukes :: "string \<rightharpoonup> ipFail"
  memoryPushTokens :: "string \<rightharpoonup> string"
  memoryEntitlements :: "string \<rightharpoonup> string"
  memoryIssuance :: "(string \<times> int) list"
  memoryChStrikes :: "(string \<times> int) list"
  memoryChCooldown :: "(string \<times> int) list"

definition NewRedisClient :: RedisClient where
  "NewRedisClient =
     \<lparr> memoryQueue = Map.empty, memoryBlocks = Map.empty, memoryPoW = Map.empty,
       memoryNonces = Map.empty, memoryBans = Map.empty, memoryFails = Map.empty,
       memoryRate = Map.empty, memoryPairings = Map.empty, memoryTunnels = Map.empty,
       memoryTunnelBytes = Map.empty, memoryNukes = Map.empty, memoryPushTokens = Map.empty,
       memoryEntitlements = Map.empty, memoryIssuance = [], memoryChStrikes = [],
       memoryChCooldown = [] \<rparr>"

text \<open>\<open>FlushAll\<close>: every map is replaced except \<open>memoryNukes\<close>.\<close>

definition FlushAll :: "RedisClient \<Rightarrow> RedisClient" where
  "FlushAll r =
     r\<lparr> memoryQueue := Map.empty, memoryBlocks := Map.empty, memoryPoW := Map.empty,
        memoryNonces := Map.empty, memoryBans := Map.empty, memoryFails := Map.empty,
        memoryRate := Map.empty, memoryPairings := Map.empty, memoryTunnels := Map.empty,
        memoryTunnelBytes := Map.empty, memoryPushTokens := Map.empty,
        memoryEntitlements := Map.empty, memoryIssuance := [], memoryChStrikes := [],
        memoryChCooldown := [] \<rparr>"

definition redis_error :: go_error where
  "redis_error = ''redis: connection refused''"

section \<open>Offline queues\<close>

definition maxQueueLen :: nat where "maxQueueLen = 1000"

definition AddMessageToQueue ::
  "env \<Rightarrow> string \<Rightarrow> string \<Rightarrow> string \<Rightarrow> string \<Rightarrow> int \<Rightarrow> RedisClient \<Rightarrow> unit result \<times> RedisClient" where
  "AddMessageToQueue e recipientID senderID env contentType ttl r =
     (if fault e (Rdb OpAddMessageToQueue recipientID) then (Inl redis_error, r)
      else
        let q = (case memoryQueue r recipientID of None \<Rightarrow> [] | Some q \<Rightarrow> q)
                @ [\<lparr>z_senderID = senderID, z_envelope = env, z_contentType = contentType,
                    z_expires = now e + ttl\<rparr>];
            pruned = filter (\<lambda>item. now e < z_expires item) q;
            pruned' = (if length pruned > maxQueueLen
                       then drop (length pruned - maxQueueLen) pruned else pruned)
        in (Inr (), r\<lparr>memoryQueue := (memoryQueue r)(recipientID \<mapsto> pruned')\<rparr>))"

text \<open>A fetched entry: \<open>sender_id\<close>, \<open>envelope\<close>, \<open>content_type\<close>.\<close>

type_synonym queue_entry = "string \<times> string \<times> string"

definition entry_of :: "memoryZ \<Rightarrow> queue_entry" where
  "entry_of item = (z_senderID item, z_envelope item, z_contentType item)"

definition FetchAndClearQueue ::
  "env \<Rightarrow> string \<Rightarrow> RedisClient \<Rightarrow> queue_entry list result \<times> RedisClient" where
  "FetchAndClearQueue e recipientID r =
     (if fault e (Rdb OpFetchAndClearQueue recipientID) then (Inl redis_error, r)
      else (case memoryQueue r recipientID of
              None \<Rightarrow> (Inr [], r)
            | Some q \<Rightarrow>
                (Inr (map entry_of (filter (\<lambda>item. now e < z_expires item) q)),
                 r\<lparr>memoryQueue := (memoryQueue r)(recipientID := None)\<rparr>)))"

definition GetActiveQueueCount :: "env \<Rightarrow> string \<Rightarrow> RedisClient \<Rightarrow> nat result" where
  "GetActiveQueueCount e recipientID r =
     (case memoryQueue r recipientID of
        None \<Rightarrow> Inr 0
      | Some q \<Rightarrow> Inr (length (filter (\<lambda>item. now e < z_expires item) q)))"

definition notifiableContentTypes :: "string list" where
  "notifiableContentTypes = [''text'', ''image'', ''voice'', ''group_message'', ''emergency_chat'']"

definition isNotifiable :: "string \<Rightarrow> bool" where
  "isNotifiable contentType = (contentType = '''' \<or> contentType \<in> set notifiableContentTypes)"

definition GetNotifiableQueueCount :: "env \<Rightarrow> string \<Rightarrow> RedisClient \<Rightarrow> nat result" where
  "GetNotifiableQueueCount e recipientID r =
     (if fault e (Rdb OpGetNotifiableQueueCount recipientID) then Inl redis_error
      else (case memoryQueue r recipientID of
              None \<Rightarrow> Inr 0
            | Some q \<Rightarrow>
                Inr (length (filter (\<lambda>item. now e < z_expires item \<and> isNotifiable (z_contentType item)) q))))"

section \<open>Nuke blocks\<close>

definition nukeBlockTTL :: int where "nukeBlockTTL = 24 * Hour"

definition BlockQueue :: "env \<Rightarrow> string \<Rightarrow> RedisClient \<Rightarrow> unit result \<times> RedisClient" where
  "BlockQueue e userID r =
     (if fault e (Rdb OpBlockQueue userID) then (Inl redis_error, r)
      else (Inr (), r\<lparr>memoryBlocks := (memoryBlocks r)(userID \<mapsto> now e + nukeBlockTTL)\<rparr>))"

definition UnblockQueue :: "env \<Rightarrow> string \<Rightarrow> RedisClient \<Rightarrow> unit result \<times> RedisClient" where
  "UnblockQueue e userID r =
     (if fault e (Rdb OpUnblockQueue userID) then (Inl redis_error, r)
      else (Inr (), r\<lparr>memoryBlocks := (memoryBlocks r)(userID := None)\<rparr>))"

definition IsQueueBlocked :: "env \<Rightarrow> string \<Rightarrow> RedisClient \<Rightarrow> bool result" where
  "IsQueueBlocked e userID r =
     (if fault e (Rdb OpIsQueueBlocked userID) then Inl redis_error
      else (case memoryBlocks r userID of
              None \<Rightarrow> Inr False
            | Some expiry \<Rightarrow> if expiry < now e then Inr False else Inr True))"

section \<open>Push tokens\<close>

definition SetPushToken :: "env \<Rightarrow> string \<Rightarrow> string \<Rightarrow> RedisClient \<Rightarrow> unit result \<times> RedisClient" where
  "SetPushToken e userID token r =
     (if fault e (Rdb OpSetPushToken userID) then (Inl redis_error, r)
      else (Inr (), r\<lparr>memoryPushTokens := (memoryPushTokens r)(userID \<mapsto> token)\<rparr>))"

definition GetPushToken :: "env \<Rightarrow> string \<Rightarrow> RedisClient \<Rightarrow> string result" where
  "GetPushToken e userID r =
     (if fault e (Rdb OpGetPushToken userID) then Inl redis_error
      else Inr (getstr (memoryPushTokens r userID)))"

definition DeletePushToken :: "env \<Rightarrow> string \<Rightarrow> RedisClient \<Rightarrow> unit result \<times> RedisClient" where
  "DeletePushToken e userID r =
     (if fault e (Rdb OpDeletePushToken userID) then (Inl redis_error, r)
      else (Inr (), r\<lparr>memoryPushTokens := (memoryPushTokens r)(userID := None)\<rparr>))"

section \<open>Proof-of-work challenges, nonces, vouchers\<close>

definition StorePoWChallenge ::
  "env \<Rightarrow> string \<Rightarrow> nat \<Rightarrow> RedisClient \<Rightarrow> unit result \<times> RedisClient" where
  "StorePoWChallenge e challenge difficulty r =
     (if fault e (Rdb OpStorePoWChallenge challenge) then (Inl redis_error, r)
      else (Inr (), r\<lparr>memoryPoW := (memoryPoW r)(challenge \<mapsto>
              \<lparr>pow_difficulty = difficulty, pow_expires = now e + 5 * Minute\<rparr>)\<rparr>))"

definition GetPoWChallengeDifficulty ::
  "env \<Rightarrow> string \<Rightarrow> RedisClient \<Rightarrow> nat result \<times> RedisClient" where
  "GetPoWChallengeDifficulty e challenge r =
     (if fault e (Rdb OpGetPoWChallengeDifficulty challenge) then (Inl redis_error, r)
      else (case memoryPoW r challenge of
              None \<Rightarrow> (Inl ''challenge expired or invalid'', r)
            | Some val \<Rightarrow>
                if pow_expires val < now e then (Inl ''challenge expired or invalid'', r)
                else (Inr (pow_difficulty val),
                      r\<lparr>memoryPoW := (memoryPoW r)(challenge := None)\<rparr>)))"

definition IsNonceUnique :: "env \<Rightarrow> string \<Rightarrow> RedisClient \<Rightarrow> bool result \<times> RedisClient" where
  "IsNonceUnique e nonce r =
     (if fault e (Rdb OpIsNonceUnique nonce) then (Inl redis_error, r)
      else if (case memoryNonces r nonce of None \<Rightarrow> False | Some expiry \<Rightarrow> now e < expiry)
           then (Inr False, r)
           else (Inr True, r\<lparr>memoryNonces := (memoryNonces r)(nonce \<mapsto> now e + 10 * Minute)\<rparr>))"

definition ConsumeVoucher :: "env \<Rightarrow> string \<Rightarrow> int \<Rightarrow> RedisClient \<Rightarrow> bool result \<times> RedisClient" where
  "ConsumeVoucher e sig expiryUnix r =
     (let ttl = time_Until (now e) (time_Unix expiryUnix) in
      if ttl \<le> 0 then (Inr False, r)
      else if fault e (Rdb OpConsumeVoucher sig) then (Inl redis_error, r)
      else let key = ''voucher:'' @ sig in
           if (case memoryNonces r key of None \<Rightarrow> False | Some until \<Rightarrow> now e < until)
           then (Inr False, r)
           else (Inr True, r\<lparr>memoryNonces := (memoryNonces r)(key \<mapsto> now e + ttl)\<rparr>))"

section \<open>Rate gates\<close>

definition AllowNuke :: "env \<Rightarrow> string \<Rightarrow> int \<Rightarrow> RedisClient \<Rightarrow> bool result \<times> RedisClient" where
  "AllowNuke e senderID limit r =
     (if fault e (Rdb OpAllowNuke senderID) then (Inl redis_error, r)
      else
        let fresh = (Inr True, r\<lparr>memoryNukes := (memoryNukes r)(senderID \<mapsto>
                       \<lparr>fail_count = 1, fail_expires = now e + Hour\<rparr>)\<rparr>)
        in (case memoryNukes r senderID of
              None \<Rightarrow> fresh
            | Some v \<Rightarrow>
                if fail_expires v < now e then fresh
                else if limit \<le> fail_count v then (Inr False, r)
                else (Inr True, r\<lparr>memoryNukes := (memoryNukes r)(senderID \<mapsto>
                        v\<lparr>fail_count := fail_count v + 1\<rparr>)\<rparr>)))"

definition AllowLargeUpload ::
  "env \<Rightarrow> string \<Rightarrow> int \<Rightarrow> RedisClient \<Rightarrow> bool result \<times> RedisClient" where
  "AllowLargeUpload e senderID cooldown r =
     (if fault e (Rdb OpAllowLargeUpload senderID) then (Inl redis_error, r)
      else
        let key = ''largeup:'' @ senderID in
        if (case memoryBlocks r key of None \<Rightarrow> False | Some until \<Rightarrow> now e < until) then (Inr False, r)
        else (Inr True, r\<lparr>memoryBlocks := (memoryBlocks r)(key \<mapsto> now e + cooldown)\<rparr>))"

definition AllowAction ::
  "env \<Rightarrow> string \<Rightarrow> int \<Rightarrow> RedisClient \<Rightarrow> bool result \<times> RedisClient" where
  "AllowAction e key cooldown r =
     (if fault e (Rdb OpAllowAction key) then (Inl redis_error, r)
      else
        if (case memoryBlocks r key of None \<Rightarrow> False | Some until \<Rightarrow> now e < until) then (Inr False, r)
        else (Inr True, r\<lparr>memoryBlocks := (memoryBlocks r)(key \<mapsto> now e + cooldown)\<rparr>))"

section \<open>Bans, failures and the request rate of an IP\<close>

definition CheckIPBan :: "env \<Rightarrow> string \<Rightarrow> RedisClient \<Rightarrow> bool result" where
  "CheckIPBan e ip r =
     (if fault e (Rdb OpCheckIPBan ip) then Inl redis_error
      else (case memoryBans r ip of
              None \<Rightarrow> Inr False
            | Some expiry \<Rightarrow> if expiry < now e then Inr False else Inr True))"

definition BanIP :: "env \<Rightarrow> string \<Rightarrow> int \<Rightarrow> RedisClient \<Rightarrow> unit result \<times> RedisClient" where
  "BanIP e ip duration r =
     (if fault e (Rdb OpBanIP ip) then (Inl redis_error, r)
      else (Inr (), r\<lparr>memoryBans := (memoryBans r)(ip \<mapsto> now e + duration)\<rparr>))"

definition IncrementIPFailure :: "env \<Rightarrow> string \<Rightarrow> RedisClient \<Rightarrow> int result \<times> RedisClient" where
  "IncrementIPFailure e ip r =
     (if fault e (Rdb OpIncrementIPFailure ip) then (Inl redis_error, r)
      else
        let fresh = (Inr 1, r\<lparr>memoryFails := (memoryFails r)(ip \<mapsto>
                       \<lparr>fail_count = 1, fail_expires = now e + 1 * Hour\<rparr>)\<rparr>)
        in (case memoryFails r ip of
              None \<Rightarrow> fresh
            | Some val \<Rightarrow>
                if fail_expires val < now e then fresh
                else (Inr (fail_count val + 1), r\<lparr>memoryFails := (memoryFails r)(ip \<mapsto>
                        val\<lparr>fail_count := fail_count val + 1\<rparr>)\<rparr>)))"

definition rate_key :: "string \<Rightarrow> string \<Rightarrow> string" where
  "rate_key ip minute = ''rate:'' @ ip @ '':'' @ minute"

definition CheckIPRateLimit ::
  "env \<Rightarrow> string \<Rightarrow> int \<Rightarrow> RedisClient \<Rightarrow> bool result \<times> RedisClient" where
  "CheckIPRateLimit e ip limit r =
     (if fault e (Rdb OpCheckIPRateLimit ip) then (Inl redis_error, r)
      else
        let minute = localFormat e ''200601021504'' (now e);
            key = rate_key ip minute;
            count = get0 (memoryRate r key) + 1;
            rate = (memoryRate r)(key \<mapsto> count);
            kept = (\<lambda>k. if length k > 12 \<and> drop (length k - 12) k \<noteq> minute then None else rate k)
        in (Inr (count \<le> limit), r\<lparr>memoryRate := kept\<rparr>))"

section \<open>Device-token issuance and human-challenge counters\<close>

definition issuance_key :: "string \<Rightarrow> string \<Rightarrow> string" where
  "issuance_key ip day = ''issuance:'' @ ip @ '':'' @ day"

text \<open>Go's \<open>m[key]++\<close> followed by the trim of stale keys above 4096 entries.\<close>

definition bump_trim :: "string \<Rightarrow> string \<Rightarrow> (string \<times> int) list \<Rightarrow> (string \<times> int) list" where
  "bump_trim key suffix m =
     (let m' = AList.update key (get0 (map_of m key) + 1) m
      in if length m' > 4096 then filter (\<lambda>(k, _). HasSuffix k ('':'' @ suffix)) m' else m')"

definition AllowIssuance ::
  "env \<Rightarrow> string \<Rightarrow> int \<Rightarrow> RedisClient \<Rightarrow> bool result \<times> RedisClient" where
  "AllowIssuance e ip maxPerDay r =
     (if fault e (Rdb OpAllowIssuance ip) then (Inl redis_error, r)
      else
        let day = localFormat e ''20060102'' (now e);
            key = issuance_key ip day;
            m = bump_trim key day (memoryIssuance r)
        in (Inr (get0 (map_of m key) \<le> maxPerDay), r\<lparr>memoryIssuance := m\<rparr>))"

definition IssuanceCountToday :: "env \<Rightarrow> string \<Rightarrow> RedisClient \<Rightarrow> int result" where
  "IssuanceCountToday e ip r =
     (if fault e (Rdb OpIssuanceCountToday ip) then Inl redis_error
      else Inr (get0 (map_of (memoryIssuance r) (issuance_key ip (localFormat e ''20060102'' (now e))))))"

definition RegisterChallengeStrike :: "env \<Rightarrow> string \<Rightarrow> RedisClient \<Rightarrow> int result \<times> RedisClient" where
  "RegisterChallengeStrike e ip r =
     (if fault e (Rdb OpRegisterChallengeStrike ip) then (Inl redis_error, r)
      else
        let hour = localFormat e ''2006010215'' (now e);
            key = ''chstrike:'' @ ip @ '':'' @ hour;
            m = bump_trim key hour (memoryChStrikes r)
        in (Inr (get0 (map_of m key)), r\<lparr>memoryChStrikes := m\<rparr>))"

definition CheckChallengeCooldown :: "env \<Rightarrow> string \<Rightarrow> RedisClient \<Rightarrow> bool result \<times> RedisClient" where
  "CheckChallengeCooldown e ip r =
     (if fault e (Rdb OpCheckChallengeCooldown ip) then (Inl redis_error, r)
      else
        let m = filter (\<lambda>(k, until). \<not> until < now e) (memoryChCooldown r)
        in (Inr (case map_of m ip of None \<Rightarrow> False | Some until \<Rightarrow> now e < until),
            r\<lparr>memoryChCooldown := m\<rparr>))"

definition SetChallengeCooldown ::
  "env \<Rightarrow> string \<Rightarrow> int \<Rightarrow> RedisClient \<Rightarrow> unit result \<times> RedisClient" where
  "SetChallengeCooldown e ip duration r =
     (if fault e (Rdb OpSetChallengeCooldown ip) then (Inl redis_error, r)
      else
        let m = (if length (memoryChCooldown r) > 4096
                 then filter (\<lambda>(k, until). \<not> until < now e) (memoryChCooldown r)
                 else memoryChCooldown r)
        in (Inr (), r\<lparr>memoryChCooldown := AList.update ip (now e + duration) m\<rparr>))"

section \<open>Pairings and tunnels\<close>

definition StorePairing :: "env \<Rightarrow> string \<Rightarrow> string \<Rightarrow> int \<Rightarrow> RedisClient \<Rightarrow> unit result \<times> RedisClient" where
  "StorePairing e pin data ttl r =
     (if fault e (Rdb OpPairing pin) then (Inl redis_error, r)
      else (Inr (), r\<lparr>memoryPairings := (memoryPairings r)(pin \<mapsto>
              \<lparr>pair_data = data, pair_expires = now e + ttl\<rparr>)\<rparr>))"

definition GetPairing :: "env \<Rightarrow> string \<Rightarrow> RedisClient \<Rightarrow> string result" where
  "GetPairing e pin r =
     (if fault e (Rdb OpPairing pin) then Inl redis_error
      else (case memoryPairings r pin of
              None \<Rightarrow> Inl ''pairing expired or invalid''
            | Some p \<Rightarrow> if pair_expires p < now e then Inl ''pairing expired or invalid''
                        else Inr (pair_data p)))"

definition DeletePairing :: "env \<Rightarrow> string \<Rightarrow> RedisClient \<Rightarrow> unit result \<times> RedisClient" where
  "DeletePairing e pin r =
     (if fault e (Rdb OpPairing pin) then (Inl redis_error, r)
      else (Inr (), r\<lparr>memoryPairings := (memoryPairings r)(pin := None)\<rparr>))"

text \<open>The in-memory tunnels ignore their time to live.\<close>

definition CreateTunnel :: "env \<Rightarrow> string \<Rightarrow> string \<Rightarrow> int \<Rightarrow> RedisClient \<Rightarrow> unit result \<times> RedisClient" where
  "CreateTunnel e pubkeyA pubkeyB ttl r =
     (if fault e (Rdb OpTunnel pubkeyA) then (Inl redis_error, r)
      else (Inr (), r\<lparr>memoryTunnels := (memoryTunnels r)(pubkeyA \<mapsto> pubkeyB, pubkeyB \<mapsto> pubkeyA)\<rparr>))"

definition GetTunnelPartner :: "env \<Rightarrow> string \<Rightarrow> RedisClient \<Rightarrow> string result" where
  "GetTunnelPartner e pubkey r =
     (if fault e (Rdb OpTunnel pubkey) then Inl redis_error
      else (case memoryTunnels r pubkey of
              None \<Rightarrow> Inl ''tunnel not found''
            | Some partner \<Rightarrow> Inr partner))"

definition IncrementTunnelBytes :: "env \<Rightarrow> string \<Rightarrow> int \<Rightarrow> RedisClient \<Rightarrow> int result \<times> RedisClient" where
  "IncrementTunnelBytes e tunnelID n r =
     (if fault e (Rdb OpTunnel tunnelID) then (Inl redis_error, r)
      else let total = wrap64 (get0 (memoryTunnelBytes r tunnelID) + n)
           in (Inr total, r\<lparr>memoryTunnelBytes := (memoryTunnelBytes r)(tunnelID \<mapsto> total)\<rparr>))"

definition DeleteTunnel :: "env \<Rightarrow> string \<Rightarrow> string \<Rightarrow> RedisClient \<Rightarrow> unit result \<times> RedisClient" where
  "DeleteTunnel e pubkeyA pubkeyB r =
     (if fault e (Rdb OpTunnel pubkeyA) then (Inl redis_error, r)
      else (Inr (),
            r\<lparr>memoryTunnels := (memoryTunnels r)(pubkeyA := None, pubkeyB := None),
              memoryTunnelBytes := (memoryTunnelBytes r)
                (pubkeyA @ '':'' @ pubkeyB := None, pubkeyB @ '':'' @ pubkeyA := None)\<rparr>))"

section \<open>Download tokens\<close>

definition fileTokenTTL :: int where "fileTokenTTL = 10 * Minute"

definition StoreFileToken ::
  "env \<Rightarrow> string \<Rightarrow> string \<Rightarrow> string \<Rightarrow> RedisClient \<Rightarrow> unit result \<times> RedisClient" where
  "StoreFileToken e token messageID userID r =
     (let val = messageID @ '':'' @ userID in
      if fault e (Rdb OpFileToken token) then (Inl redis_error, r)
      else (Inr (),
            r\<lparr>memoryTunnels := (memoryTunnels r)(''filetok:'' @ token \<mapsto> val),
              memoryBlocks := (memoryBlocks r)(''filetok:'' @ token \<mapsto> now e + fileTokenTTL)\<rparr>))"

definition GetFileToken :: "env \<Rightarrow> string \<Rightarrow> RedisClient \<Rightarrow> (string \<times> string) result" where
  "GetFileToken e token r =
     (if fault e (Rdb OpFileToken token) then Inl redis_error
      else
        let val = getstr (memoryTunnels r (''filetok:'' @ token)) in
        (case memoryBlocks r (''filetok:'' @ token) of
           None \<Rightarrow> Inr ('''', '''')
         | Some until \<Rightarrow>
             if until < now e then Inr ('''', '''')
             else (case LastIndex val (CHR '':'') of
                     None \<Rightarrow> Inr ('''', '''')
                   | Some idx \<Rightarrow> Inr (take idx val, drop (idx + 1) val))))"

section \<open>Cached entitlements and integrity nonces\<close>

definition rdb_StoreEntitlement ::
  "env \<Rightarrow> string \<Rightarrow> string \<Rightarrow> int \<Rightarrow> RedisClient \<Rightarrow> unit result \<times> RedisClient" where
  "rdb_StoreEntitlement e userID hash ttl r =
     (if fault e (Rdb OpEntitlement userID) then (Inl redis_error, r)
      else (Inr (),
            r\<lparr>memoryEntitlements := (memoryEntitlements r)(userID \<mapsto> hash),
              memoryBlocks := (memoryBlocks r)(''entitlement:'' @ userID \<mapsto> now e + ttl)\<rparr>))"

definition GetEntitlementHash :: "env \<Rightarrow> string \<Rightarrow> RedisClient \<Rightarrow> string result" where
  "GetEntitlementHash e userID r =
     (if fault e (Rdb OpEntitlement userID) then Inl redis_error
      else (case memoryBlocks r (''entitlement:'' @ userID) of
              None \<Rightarrow> Inr ''''
            | Some expiry \<Rightarrow> if expiry < now e then Inr ''''
                             else Inr (getstr (memoryEntitlements r userID))))"

definition StoreIntegrityNonce ::
  "env \<Rightarrow> string \<Rightarrow> string \<Rightarrow> int \<Rightarrow> RedisClient \<Rightarrow> unit result \<times> RedisClient" where
  "StoreIntegrityNonce e keyHash nonce ttl r =
     (if fault e (Rdb OpIntegrityNonce keyHash) then (Inl redis_error, r)
      else (Inr (),
            r\<lparr>memoryEntitlements := (memoryEntitlements r)(''integrity_nonce:'' @ keyHash \<mapsto> nonce),
              memoryBlocks := (memoryBlocks r)(''integrity_nonce:'' @ keyHash \<mapsto> now e + ttl)\<rparr>))"

definition GetIntegrityNonce :: "env \<Rightarrow> string \<Rightarrow> RedisClient \<Rightarrow> string result" where
  "GetIntegrityNonce e keyHash r =
     (if fault e (Rdb OpIntegrityNonce keyHash) then Inl redis_error
      else (case memoryBlocks r (''integrity_nonce:'' @ keyHash) of
              None \<Rightarrow> Inr ''''
            | Some expiry \<Rightarrow> if expiry < now e then Inr ''''
                             else Inr (getstr (memoryEntitlements r (''integrity_nonce:'' @ keyHash)))))"

definition DeleteIntegrityNonce :: "env \<Rightarrow> string \<Rightarrow> RedisClient \<Rightarrow> unit result \<times> RedisClient" where
  "DeleteIntegrityNonce e keyHash r =
     (if fault e (Rdb OpIntegrityNonce keyHash) then (Inl redis_error, r)
      else (Inr (),
            r\<lparr>memoryEntitlements := (memoryEntitlements r)(''integrity_nonce:'' @ keyHash := None),
              memoryBlocks := (memoryBlocks r)(''integrity_nonce:'' @ keyHash := None)\<rparr>))"

lemma NewRedisClient_simps [simp]:
  "memoryQueue NewRedisClient u = None" "memoryBlocks NewRedisClient u = None"
  "memoryPoW NewRedisClient u = None" "memoryNonces NewRedisClient u = None"
  "memoryBans NewRedisClient u = None" "memoryFails NewRedisClient u = None"
  "memoryRate NewRedisClient u = None" "memoryTunnels NewRedisClient u = None"
  "memoryNukes NewRedisClient u = None" "memoryPushTokens NewRedisClient u = None"
  "memoryEntitlements NewRedisClient u = None" "memoryIssuance NewRedisClient = []"
  "memoryChStrikes NewRedisClient = []" "memoryChCooldown NewRedisClient = []"
  by (simp_all add: NewRedisClient_def)

section \<open>Unfolding bundles\<close>

lemmas rdb_gate_defs =
  AllowAction_def AllowLargeUpload_def IsNonceUnique_def ConsumeVoucher_def

section \<open>The gates of the code are cooldown gates\<close>

interpretation AllowAction_gate: live_gate
  "\<lambda>e k d r. granted (AllowAction e k d r)" now "\<lambda>e k d. d" "\<lambda>k r. memoryBlocks r k"
  "\<lambda>e k d. \<not> fault e (Rdb OpAllowAction k)"
  by unfold_locales (auto simp: AllowAction_def split: if_splits option.splits)

interpretation AllowLargeUpload_gate: live_gate
  "\<lambda>e k d r. granted (AllowLargeUpload e k d r)" now "\<lambda>e k d. d"
  "\<lambda>k r. memoryBlocks r (''largeup:'' @ k)" "\<lambda>e k d. \<not> fault e (Rdb OpAllowLargeUpload k)"
  by unfold_locales (auto simp: AllowLargeUpload_def Let_def split: if_splits option.splits)

text \<open>
  Nonces and vouchers share the map \<open>memoryNonces\<close>. They are one gate on the sum of the two
  key spaces: a decimal nonce never starts like the key of a voucher.
\<close>

definition seen_key :: "int + string \<Rightarrow> string" where
  "seen_key k = (case k of Inl nonce \<Rightarrow> FormatInt nonce | Inr sig \<Rightarrow> ''voucher:'' @ sig)"

definition seen_gate :: "env \<Rightarrow> int + string \<Rightarrow> int \<Rightarrow> RedisClient \<Rightarrow> bool result \<times> RedisClient" where
  "seen_gate e k expiryUnix r =
     (case k of Inl nonce \<Rightarrow> IsNonceUnique e (FormatInt nonce) r
              | Inr sig \<Rightarrow> ConsumeVoucher e sig expiryUnix r)"

definition seen_span :: "env \<Rightarrow> int + string \<Rightarrow> int \<Rightarrow> int" where
  "seen_span e k expiryUnix =
     (case k of Inl _ \<Rightarrow> 10 * Minute | Inr _ \<Rightarrow> time_Until (now e) (time_Unix expiryUnix))"

lemma FormatInt_not_voucher: "FormatInt n \<noteq> ''voucher:'' @ sig"
proof
  assume "FormatInt n = ''voucher:'' @ sig"
  then have "hd (FormatInt n) = CHR ''v''" by simp
  then show False
    using FormatNat_hd_digit [of "nat n"] by (auto simp: FormatInt_def dest: is_digit_not_sign split: if_splits)
qed

lemma seen_key_inj: "seen_key k = seen_key k' \<Longrightarrow> k = k'"
  by (cases k; cases k'; simp only: seen_key_def sum.case)
    (metis FormatInt_inj FormatInt_not_voucher same_append_eq)+

interpretation seen_once: cooldown_gate
  "\<lambda>e k x r. granted (seen_gate e k x r)" now seen_span "\<lambda>k r. memoryNonces r (seen_key k)"
proof
  fix k :: "int + string" and s :: RedisClient and x and e :: env and d
  assume "memoryNonces s (seen_key k) = Some x" "now e < x"
  then show "\<not> fst (granted (seen_gate e k d s))"
    by (auto simp: seen_gate_def seen_key_def rdb_gate_defs Let_def split: sum.splits)
next
  fix e :: env and k d and s :: RedisClient
  assume "\<not> fst (granted (seen_gate e k d s))"
  then show "snd (granted (seen_gate e k d s)) = s"
    by (auto simp: seen_gate_def rdb_gate_defs Let_def split: sum.splits if_splits)
next
  fix e :: env and k d and s :: RedisClient
  assume "fst (granted (seen_gate e k d s))"
  then show "memoryNonces (snd (granted (seen_gate e k d s))) (seen_key k) = Some (now e + seen_span e k d)"
    by (auto simp: seen_gate_def seen_key_def seen_span_def rdb_gate_defs Let_def split: sum.splits if_splits)
next
  fix k k' :: "int + string" and e :: env and d and s :: RedisClient
  assume "k' \<noteq> k"
  then have "seen_key k' \<noteq> seen_key k" using seen_key_inj by blast
  then show "memoryNonces (snd (granted (seen_gate e k d s))) (seen_key k') = memoryNonces s (seen_key k')"
    by (auto simp: seen_gate_def seen_key_def rdb_gate_defs Let_def split: sum.splits if_splits)
qed

lemma ConsumeVoucher_granted:
  "fst (ConsumeVoucher e sig x r) = Inr True \<Longrightarrow> now e < time_Unix x"
  using time_Until_pos [of "now e" "time_Unix x"]
  by (auto simp: ConsumeVoucher_def Let_def split: if_splits)

section \<open>The counters of the code are limited per window\<close>

lemma rate_key_inj: "rate_key ip m = rate_key ip' m \<Longrightarrow> ip = ip'"
  by (simp add: rate_key_def)

lemma rate_key_suffix:
  "length m = 12 \<Longrightarrow> 12 < length (rate_key ip m) \<and> drop (length (rate_key ip m) - 12) (rate_key ip m) = m"
proof -
  assume "length m = 12"
  moreover have "rate_key ip m = (''rate:'' @ ip @ '':'') @ m" by (simp add: rate_key_def)
  ultimately show ?thesis by (metis One_nat_def add_diff_cancel_right' append_eq_conv_conj
      length_append less_add_same_cancel2 length_greater_0_conv append_is_Nil_conv list.discI)
qed

interpretation CheckIPRateLimit_limit: window_limit
  "\<lambda>e ip n r. granted (CheckIPRateLimit e ip n r)" "\<lambda>e. localFormat e ''200601021504'' (now e)"
  "\<lambda>m. length m = 12" "\<lambda>m ip r. get0 (memoryRate r (rate_key ip m))"
proof (unfold_locales, goal_cases)
  case (1 e k n s)
  then show ?case using rate_key_suffix [OF 1(1), of k]
    by (auto simp: CheckIPRateLimit_def Let_def split: if_splits)
next
  case (2 e k' s k n)
  then show ?case using rate_key_suffix [OF 2, of k']
    by (auto simp: CheckIPRateLimit_def Let_def dest: rate_key_inj)
qed

lemma map_of_filter_key: "map_of (filter (\<lambda>(k, _). P k) m) k = (if P k then map_of m k else None)"
  by (induction m) auto

lemma issuance_key_suffix: "HasSuffix (issuance_key ip day) (CHR '':'' # day)"
  by (auto simp: HasSuffix_iff issuance_key_def)

lemma map_of_bump_trim:
  "HasSuffix k (CHR '':'' # sfx) \<Longrightarrow>
    map_of (bump_trim key sfx m) k = (if k = key then Some (get0 (map_of m key) + 1) else map_of m k)"
  by (auto simp: bump_trim_def Let_def map_of_filter_key)

interpretation AllowIssuance_limit: window_limit
  "\<lambda>e ip n r. granted (AllowIssuance e ip n r)" "\<lambda>e. localFormat e ''20060102'' (now e)"
  "\<lambda>_. True" "\<lambda>day ip r. get0 (map_of (memoryIssuance r) (issuance_key ip day))"
proof (unfold_locales, goal_cases)
  case (1 e k n s)
  then show ?case
    by (auto simp: AllowIssuance_def Let_def map_of_bump_trim issuance_key_suffix split: if_splits)
next
  case (2 e k' s k n)
  then show ?case
    by (auto simp: AllowIssuance_def Let_def map_of_bump_trim issuance_key_suffix)
qed

section \<open>The offline queue is a mailbox\<close>

definition stored_entries :: "string \<Rightarrow> RedisClient \<Rightarrow> (queue_entry \<times> int) list" where
  "stored_entries u r =
     (case memoryQueue r u of None \<Rightarrow> [] | Some q \<Rightarrow> map (\<lambda>z. (entry_of z, z_expires z)) q)"

definition queue_put :: "env \<Rightarrow> string \<Rightarrow> queue_entry \<Rightarrow> int \<Rightarrow> RedisClient \<Rightarrow> RedisClient" where
  "queue_put e u m ttl r = (case m of (s, env, ct) \<Rightarrow> snd (AddMessageToQueue e u s env ct ttl r))"

definition queue_fetch :: "env \<Rightarrow> string \<Rightarrow> RedisClient \<Rightarrow> queue_entry list \<times> RedisClient" where
  "queue_fetch e u r =
     (case FetchAndClearQueue e u r of (Inl _, r') \<Rightarrow> ([], r') | (Inr ms, r') \<Rightarrow> (ms, r'))"

definition queue_up :: "env \<Rightarrow> string \<Rightarrow> bool" where
  "queue_up e u = (\<not> fault e (Rdb OpAddMessageToQueue u) \<and> \<not> fault e (Rdb OpFetchAndClearQueue u))"

lemma lastn_if: "(if n < length xs then drop (length xs - n) xs else xs) = lastn n xs"
  by (simp add: lastn_def)

lemma map_lastn: "map f (lastn n xs) = lastn n (map f xs)"
  by (simp add: lastn_def drop_map)

lemma AddMessageToQueue_up:
  "\<not> fault e (Rdb OpAddMessageToQueue u) \<Longrightarrow>
   AddMessageToQueue e u s env ct ttl r =
     (Inr (), r\<lparr>memoryQueue := (memoryQueue r)(u \<mapsto>
        lastn maxQueueLen (filter (\<lambda>z. now e < z_expires z)
          ((case memoryQueue r u of None \<Rightarrow> [] | Some q \<Rightarrow> q) @
           [\<lparr>z_senderID = s, z_envelope = env, z_contentType = ct, z_expires = now e + ttl\<rparr>])))\<rparr>)"
  by (simp only: AddMessageToQueue_def Let_def if_False lastn_if)

interpretation offline_queue: mailbox
  queue_put queue_fetch now queue_up stored_entries maxQueueLen
proof (unfold_locales, goal_cases)
  case (1 e u m ttl s)
  obtain sd env ct where m: "m = (sd, env, ct)" by (cases m) auto
  from 1 have "\<not> fault e (Rdb OpAddMessageToQueue u)" by (simp add: queue_up_def)
  then show ?case
    by (cases "memoryQueue s u")
      (simp_all add: queue_put_def m AddMessageToQueue_up stored_entries_def map_lastn filter_map
        comp_def entry_of_def)
next
  case (2 u' u e m ttl s)
  then show ?case
    by (cases m) (auto simp: queue_put_def AddMessageToQueue_def stored_entries_def Let_def)
next
  case (3 e u s)
  then show ?case
    by (cases "memoryQueue s u")
      (auto simp: queue_fetch_def queue_up_def FetchAndClearQueue_def stored_entries_def filter_map comp_def)
next
  case (4 e u s)
  then show ?case
    by (cases "memoryQueue s u")
      (auto simp: queue_fetch_def queue_up_def FetchAndClearQueue_def stored_entries_def)
next
  case (5 u' u e s)
  then show ?case
    by (auto simp: queue_fetch_def FetchAndClearQueue_def stored_entries_def split: option.splits)
qed

section \<open>Properties\<close>

text \<open>
  C8. A voucher posts once. In any sequence of nonce and voucher redemptions at nondecreasing
  times, each under its own outages, \<open>ConsumeVoucher\<close> grants a given signature with a given
  expiry at most once, provided the expiry is less than 292 years (\<open>2 ^ 63\<close> ns, where Go's
  \<open>Duration\<close> saturates) after the first redemption.
\<close>

theorem voucher_single_use:
  assumes "sorted (map (now \<circ> fst) calls)" "i < j" "j < length calls"
    and "calls ! i = (e1, Inr sig, x)" "calls ! j = (e2, Inr sig, x)"
    and "time_Unix x - now e1 < 2 ^ 63"
    and "fst (gate_run (\<lambda>e k x r. granted (seen_gate e k x r)) calls r) ! i"
  shows "\<not> fst (gate_run (\<lambda>e k x r. granted (seen_gate e k x r)) calls r) ! j"
proof
  assume j: "fst (gate_run (\<lambda>e k x r. granted (seen_gate e k x r)) calls r) ! j"
  have at: "fst (gate_run (\<lambda>e k x r. granted (seen_gate e k x r)) calls r) ! n \<Longrightarrow> n < length calls \<Longrightarrow>
      calls ! n = (e, Inr sig, x) \<Longrightarrow> now e < time_Unix x" for n e calls r
  proof (induction calls arbitrary: n r)
    case (Cons c calls)
    then show ?case
      by (cases c; cases n) (auto simp: gate_run_Cons seen_gate_def dest: ConsumeVoucher_granted)
  qed simp
  from at [OF assms(7) _ assms(4)] assms(2,3) have "now e1 < time_Unix x" by simp
  moreover have "now e1 + seen_span e1 (Inr sig) x \<le> now e2"
    by (rule seen_once.spaced.spacing [OF assms(1-5,7) j])
  moreover from at [OF j assms(3,5)] have "now e2 < time_Unix x" .
  ultimately show False
    using assms(6) by (simp add: seen_span_def time_Until_def time_Sub_def)
qed

theorem voucher_single_use_witness:
  "\<not> fst (gate_run (\<lambda>e k x r. granted (seen_gate e k x r))
       [(env0, Inr ''s'', 60), (env0, Inr ''s'', 60)] NewRedisClient) ! 1"
proof -
  have "time_Unix 60 = 60 * Second" by (rule time_Unix_small) simp_all
  then have "fst (gate_run (\<lambda>e k x r. granted (seen_gate e k x r))
       [(env0, Inr ''s'', 60), (env0, Inr ''s'', 60)] NewRedisClient) ! 0"
    by (simp add: gate_run_Cons seen_gate_def ConsumeVoucher_def Let_def NewRedisClient_def
        time_Until_def time_Sub_def Second_def)
  with \<open>time_Unix 60 = 60 * Second\<close> show ?thesis
    using voucher_single_use [of "[(env0, Inr ''s'', 60), (env0, Inr ''s'', 60)]" 0 1 env0 "''s''" 60 env0
        NewRedisClient]
    by (simp add: Second_def)
qed

text \<open>
  Large uploads are spaced. Whatever other senders do in between and however often the
  client reconnects, two calls of \<open>AllowLargeUpload\<close> granted to one sender are at least the
  cooldown of the first apart.
\<close>

theorem large_upload_spacing:
  assumes "sorted (map (now \<circ> fst) calls)" "i < j" "j < length calls"
    and "calls ! i = (e1, sender, d1)" "calls ! j = (e2, sender, d2)"
    and "fst (gate_run (\<lambda>e k d r. granted (AllowLargeUpload e k d r)) calls r) ! i"
    and "fst (gate_run (\<lambda>e k d r. granted (AllowLargeUpload e k d r)) calls r) ! j"
  shows "now e1 + d1 \<le> now e2"
  using AllowLargeUpload_gate.spaced.spacing [OF assms] .

theorem large_upload_spacing_witness:
  "now env0 + 15 * Second \<le> now (env0\<lparr>now := 15 * Second\<rparr>)"
proof (rule large_upload_spacing)
  let ?calls = "[(env0, ''a'', 15 * Second), (env0\<lparr>now := 15 * Second\<rparr>, ''a'', 15 * Second)]"
  show "sorted (map (now \<circ> fst) ?calls)" by (simp add: Second_def)
  show "(0::nat) < 1" "1 < length ?calls" by simp_all
  show "?calls ! 0 = (env0, ''a'', 15 * Second)"
    "?calls ! 1 = (env0\<lparr>now := 15 * Second\<rparr>, ''a'', 15 * Second)" by simp_all
  show "fst (gate_run (\<lambda>e k d r. granted (AllowLargeUpload e k d r)) ?calls NewRedisClient) ! 0"
    "fst (gate_run (\<lambda>e k d r. granted (AllowLargeUpload e k d r)) ?calls NewRedisClient) ! 1"
    by (simp_all add: gate_run_Cons AllowLargeUpload_def Let_def NewRedisClient_def)
qed

text \<open>
  The per-minute request limit. Among any calls of \<open>CheckIPRateLimit\<close> whose clock renders
  the same 12-character minute, for any mix of addresses, at most \<open>limit\<close> are allowed to one
  address, less what it already used; the sweep of old keys never resets a live counter.
\<close>

theorem rate_limit_per_minute:
  assumes "length m = 12"
    and "\<forall>c \<in> set calls. localFormat (fst c) ''200601021504'' (now (fst c)) = m \<and> snd (snd c) = limit"
  shows "int (length (filter (\<lambda>(c, b). b \<and> fst (snd c) = ip)
            (zip calls (fst (gate_run (\<lambda>e ip n r. granted (CheckIPRateLimit e ip n r)) calls r)))))
          \<le> max 0 (limit - get0 (memoryRate r (rate_key ip m)))"
  using CheckIPRateLimit_limit.limited [OF assms] .

theorem rate_limit_per_minute_witness:
  "int (length (filter (\<lambda>(c, b). b \<and> fst (snd c) = ''ip'')
      (zip (replicate 3 (env0, ''ip'', 2::int)) (fst (gate_run
         (\<lambda>e ip n r. granted (CheckIPRateLimit e ip n r)) (replicate 3 (env0, ''ip'', 2)) NewRedisClient)))))
    \<le> 2"
  using rate_limit_per_minute [of "''197001010000''" "replicate 3 (env0, ''ip'', 2)" 2 "''ip''" NewRedisClient]
  by simp

text \<open>
  C19. The daily issuance cap. Among any calls of \<open>AllowIssuance\<close> on one rendered day, at most
  \<open>maxPerDay\<close> less the day's counter are allowed to one address, also when the map is trimmed.
\<close>

theorem issuance_daily_cap:
  assumes "\<forall>c \<in> set calls. localFormat (fst c) ''20060102'' (now (fst c)) = day \<and> snd (snd c) = maxPerDay"
  shows "int (length (filter (\<lambda>(c, b). b \<and> fst (snd c) = ip)
            (zip calls (fst (gate_run (\<lambda>e ip n r. granted (AllowIssuance e ip n r)) calls r)))))
          \<le> max 0 (maxPerDay - get0 (map_of (memoryIssuance r) (issuance_key ip day)))"
  using AllowIssuance_limit.limited [OF TrueI assms] .

theorem issuance_daily_cap_witness:
  "int (length (filter (\<lambda>(c, b). b \<and> fst (snd c) = ''ip'')
      (zip (replicate 3 (env0, ''ip'', 2::int)) (fst (gate_run
         (\<lambda>e ip n r. granted (AllowIssuance e ip n r)) (replicate 3 (env0, ''ip'', 2)) NewRedisClient)))))
    \<le> 2"
  using issuance_daily_cap [of "replicate 3 (env0, ''ip'', 2)" "''197001010000''" 2 "''ip''" NewRedisClient]
  by simp

text \<open>
  C11. Offline delivery. For messages queued to any recipients, at most 1000 of them and each
  still within its time to live, \<open>FetchAndClearQueue\<close> hands a recipient exactly its own messages,
  in the order they were queued, and a second fetch hands out nothing.
\<close>

theorem queue_delivery:
  assumes "\<forall>(e, u', m, ttl) \<in> set ds. queue_up e u' \<and> now e \<le> now e' \<and> now e' < now e + ttl"
    and "memoryQueue r u = None" "length ds \<le> maxQueueLen" "queue_up e' u" "queue_up e'' u"
  shows "fst (queue_fetch e' u (put_run queue_put ds r)) = [m. (e, u', m, ttl) \<leftarrow> ds, u' = u] \<and>
    fst (queue_fetch e'' u (snd (queue_fetch e' u (put_run queue_put ds r)))) = []"
  using offline_queue.delivered_in_order [OF assms(1) _ assms(3,4)] assms(2)
    offline_queue.fetch_once [OF assms(4,5)]
  by (simp_all add: stored_entries_def)

theorem queue_delivery_witness:
  "fst (queue_fetch env0 ''bob'' (put_run queue_put
      [(env0, ''bob'', (''al'', ''x'', ''text''), Hour), (env0, ''eve'', (''al'', ''y'', ''text''), Hour),
       (env0, ''bob'', (''al'', ''z'', ''text''), Hour)] NewRedisClient))
    = [(''al'', ''x'', ''text''), (''al'', ''z'', ''text'')]"
  using queue_delivery [of "[(env0, ''bob'', (''al'', ''x'', ''text''), Hour),
      (env0, ''eve'', (''al'', ''y'', ''text''), Hour), (env0, ''bob'', (''al'', ''z'', ''text''), Hour)]"
      env0 NewRedisClient "''bob''" env0]
  by (simp add: queue_up_def maxQueueLen_def)

lemma AddMessageToQueue_bounded_aux:
  assumes "AddMessageToQueue e u sd env ct ttl r = (Inr (), r')"
  shows "\<exists>q. memoryQueue r' u = Some q \<and> length q \<le> 1000 \<and> (\<forall>z \<in> set q. now e < z_expires z) \<and>
      (0 < ttl \<longrightarrow> q \<noteq> [] \<and> entry_of (last q) = (sd, env, ct)) \<and>
      r' = r\<lparr>memoryQueue := (memoryQueue r)(u \<mapsto> q)\<rparr>"
proof -
  let ?z = "\<lparr>z_senderID = sd, z_envelope = env, z_contentType = ct, z_expires = now e + ttl\<rparr>"
  let ?q = "filter (\<lambda>z. now e < z_expires z) ((case memoryQueue r u of None \<Rightarrow> [] | Some q \<Rightarrow> q) @ [?z])"
  from assms have up: "\<not> fault e (Rdb OpAddMessageToQueue u)"
    by (auto simp: AddMessageToQueue_def split: if_splits)
  have r': "r' = r\<lparr>memoryQueue := (memoryQueue r)(u \<mapsto> lastn maxQueueLen ?q)\<rparr>"
    using assms by (simp only: AddMessageToQueue_up [OF up] prod.inject simp_thms)
  have live: "\<forall>z \<in> set (lastn maxQueueLen ?q). now e < z_expires z"
    by (auto simp: lastn_def dest!: in_set_dropD)
  have "0 < ttl \<longrightarrow> lastn maxQueueLen ?q \<noteq> [] \<and> entry_of (last (lastn maxQueueLen ?q)) = (sd, env, ct)"
  proof
    assume "0 < ttl"
    then obtain p where "?q = p @ [?z]" by auto
    then obtain ys where "lastn maxQueueLen ?q = ys @ [?z]"
      using lastn_snoc [of maxQueueLen p ?z] by (auto simp: maxQueueLen_def)
    then show "lastn maxQueueLen ?q \<noteq> [] \<and> entry_of (last (lastn maxQueueLen ?q)) = (sd, env, ct)"
      by (simp add: entry_of_def)
  qed
  moreover have "length (lastn maxQueueLen ?q) \<le> 1000"
    unfolding length_lastn maxQueueLen_def by (rule min.cobounded1)
  moreover have "memoryQueue r' u = Some (lastn maxQueueLen ?q)" by (simp add: r' del: filter_append)
  ultimately show ?thesis using r' live by blast
qed

text \<open>
  A full queue keeps the newest. \<open>AddMessageToQueue\<close> leaves at most 1000 entries in the
  recipient's queue, all unexpired, with the new message last whenever its time to live is
  positive, and touches no other queue and no other map.
\<close>

theorem AddMessageToQueue_bounded:
  assumes "AddMessageToQueue e u sd env ct ttl r = (Inr (), r')"
  shows "\<exists>q. memoryQueue r' u = Some q \<and> length q \<le> 1000 \<and> (\<forall>z \<in> set q. now e < z_expires z) \<and>
      (0 < ttl \<longrightarrow> q \<noteq> [] \<and> entry_of (last q) = (sd, env, ct)) \<and>
      r' = r\<lparr>memoryQueue := (memoryQueue r)(u \<mapsto> q)\<rparr>"
  by (rule AddMessageToQueue_bounded_aux [OF assms])

theorem AddMessageToQueue_bounded_witness:
  "\<exists>q. memoryQueue (snd (AddMessageToQueue env0 ''bob'' ''al'' ''x'' ''text'' Hour NewRedisClient)) ''bob'' = Some q \<and>
     length q \<le> 1000 \<and> q \<noteq> [] \<and> entry_of (last q) = (''al'', ''x'', ''text'')"
proof -
  let ?r' = "snd (AddMessageToQueue env0 ''bob'' ''al'' ''x'' ''text'' Hour NewRedisClient)"
  have "AddMessageToQueue env0 ''bob'' ''al'' ''x'' ''text'' Hour NewRedisClient = (Inr (), ?r')"
    by (simp add: AddMessageToQueue_def Let_def)
  from AddMessageToQueue_bounded [OF this] show ?thesis using Hour_pos by blast
qed

text \<open>
  Download tokens. A token stored for a message and a user whose id has no colon resolves
  to exactly that pair for ten minutes and to nothing afterwards, whatever the message id is.
\<close>

theorem file_token_roundtrip:
  assumes "CHR '':'' \<notin> set userID"
    and "StoreFileToken e token messageID userID r = (Inr (), r')" "\<not> fault e' (Rdb OpFileToken token)"
  shows "GetFileToken e' token r' =
    (if now e' \<le> now e + 10 * Minute then Inr (messageID, userID) else Inr ([], []))"
proof -
  have "LastIndex (messageID @ CHR '':'' # userID) (CHR '':'') = Some (length messageID)"
    by (rule LastIndex_append [OF assms(1)])
  then show ?thesis
    using assms(2,3)
    by (auto simp: StoreFileToken_def GetFileToken_def Let_def fileTokenTTL_def split: if_splits)
qed

theorem file_token_roundtrip_witness:
  "GetFileToken env0 ''t'' (snd (StoreFileToken env0 ''t'' ''m:1'' ''ab'' NewRedisClient))
     = Inr (''m:1'', ''ab'')"
  using file_token_roundtrip [of "''ab''" env0 "''t''" "''m:1''" NewRedisClient
      "snd (StoreFileToken env0 ''t'' ''m:1'' ''ab'' NewRedisClient)" env0]
  by (simp add: StoreFileToken_def less_imp_le [OF Minute_pos])

text \<open>
  A proof-of-work challenge is consumed by its first retrieval: a second retrieval, at any
  time and from the state the first one left, is an error, and the first one succeeds only
  within five minutes of a challenge having been stored.
\<close>

theorem pow_challenge_single_use:
  assumes "GetPoWChallengeDifficulty e c r = (Inr d, r')"
  shows "(\<exists>v. memoryPoW r c = Some v \<and> pow_difficulty v = d \<and> now e \<le> pow_expires v) \<and>
    (\<exists>err. GetPoWChallengeDifficulty e' c r' = (Inl err, r'))"
  using assms
  by (auto simp: GetPoWChallengeDifficulty_def split: if_splits option.splits)

theorem pow_challenge_single_use_witness:
  "\<exists>err. GetPoWChallengeDifficulty env0 ''c''
      (snd (GetPoWChallengeDifficulty env0 ''c'' (snd (StorePoWChallenge env0 ''c'' 5 NewRedisClient))))
    = (Inl err, snd (GetPoWChallengeDifficulty env0 ''c'' (snd (StorePoWChallenge env0 ''c'' 5 NewRedisClient))))"
  using pow_challenge_single_use [of env0 "''c''" "snd (StorePoWChallenge env0 ''c'' 5 NewRedisClient)" 5 _ env0]
  by (simp add: GetPoWChallengeDifficulty_def StorePoWChallenge_def Minute_def Second_def)

definition nuke_burst :: "(env \<times> string \<times> int) list" where
  "nuke_burst = (env0, ''s'', 10) # replicate 9 (env0\<lparr>now := Hour\<rparr>, ''s'', 10)
     @ replicate 10 (env0\<lparr>now := Hour + 1\<rparr>, ''s'', 10)"

text \<open>
  The nuke limit is a fixed window, not the sliding hour of its comment: the window opens
  with the first nuke, and with the limit of ten a sender is granted nineteen nukes within one
  nanosecond around the end of the window.
\<close>

theorem nuke_limit_not_sliding:
  "length (filter id (drop 1 (fst (gate_run (\<lambda>e k n r. granted (AllowNuke e k n r))
      nuke_burst NewRedisClient)))) = 19
   \<and> list_all (\<lambda>c. Hour \<le> now (fst c) \<and> now (fst c) \<le> Hour + 1) (drop 1 nuke_burst)"
  by (simp add: nuke_burst_def eval_nat_numeral gate_run_Cons AllowNuke_def Let_def NewRedisClient_def
      Hour_def Minute_def Second_def)

end
