(* ===== verification/Postgres_Client.thy ===== *)
theory Postgres_Client
  imports Relay_Env
begin

text \<open>
  The Postgres store of db.go: one record for the database, a list of rows or a map by
  primary key for each table of \<open>runMigrations\<close>, and one definition per method, which
  translates its SQL statements to operations on the tables. \<open>NOW()\<close> is the clock of the
  environment. A statement the database refuses or cannot run (an outage, a value its column
  rejects) is a \<open>fault\<close> of the environment: the method returns its error there.
\<close>

section \<open>Tables\<close>

record PGMessage =
  pm_ID :: string
  pm_RecipientID :: string
  pm_SenderID :: string
  pm_Envelope :: "string option"
  pm_BucketURL :: "string option"
  pm_ContentType :: string
  pm_ExpiresAt :: int
  pm_SizeBytes :: int
  pm_OfferMeta :: string
  pm_CreatedAt :: int

record PGEntitlement =
  ent_UserID :: string
  ent_VerificationKeyHash :: string
  ent_ExpiresAt :: int

record PGClientAttestation =
  att_UserID :: string
  att_ClientType :: string
  att_IssuedAt :: int
  att_ExpiresAt :: int
  att_CertSig :: string
  att_RelayPubkey :: string

record PGStory =
  st_ID :: string
  st_SenderID :: string
  st_StoryType :: string
  st_CiphertextB64 :: string
  st_BucketURL :: "string option"
  st_MediaMeta :: string
  st_CreatedAt :: int
  st_ExpiresAt :: int
  st_BytesUsed :: int

record PGStoryReaction =
  re_ID :: string
  re_StoryID :: string
  re_ReactorID :: string
  re_Emoji :: string
  re_CreatedAt :: int

record PGSocialBudget =
  sb_UserID :: string
  sb_BytesUsed :: int
  sb_WeekStart :: int
  sb_UpdatedAt :: int

record device_token_row =
  dt_token_hash :: string
  dt_prev_token_hash :: string
  dt_token_expires_at :: int
  dt_prev_expires_at :: int
  dt_created_at :: int
  dt_last_seen_at :: int
  dt_revoked_at :: "int option"

record PostgresClient =
  messages :: "PGMessage list"
  entitlements :: "string \<rightharpoonup> PGEntitlement"
  client_attestations :: "string \<rightharpoonup> PGClientAttestation"
  stories :: "PGStory list"
  story_reactions :: "PGStoryReaction list"
  social_budgets :: "string \<rightharpoonup> PGSocialBudget"
  device_tokens :: "string \<rightharpoonup> device_token_row"

text \<open>The tables as \<open>runMigrations\<close> creates them.\<close>

definition pg_empty :: PostgresClient where
  "pg_empty = \<lparr> messages = [], entitlements = Map.empty, client_attestations = Map.empty,
     stories = [], story_reactions = [], social_budgets = Map.empty, device_tokens = Map.empty \<rparr>"

lemma pg_empty_simps [simp]:
  "messages pg_empty = []" "entitlements pg_empty u = None" "client_attestations pg_empty u = None"
  "stories pg_empty = []" "story_reactions pg_empty = []" "social_budgets pg_empty u = None"
  "device_tokens pg_empty u = None"
  by (simp_all add: pg_empty_def)

definition pg_error :: go_error where "pg_error = ''pq: statement failed''"

section \<open>Messages\<close>

text \<open>The fresh \<open>uuid.New()\<close> is the argument \<open>mid\<close>; a duplicate primary key is refused.\<close>

definition StoreMessageSized ::
  "env \<Rightarrow> string \<Rightarrow> string \<Rightarrow> string \<Rightarrow> string option \<Rightarrow> string option \<Rightarrow> string \<Rightarrow> int \<Rightarrow> int \<Rightarrow> string
     \<Rightarrow> PostgresClient \<Rightarrow> string result \<times> PostgresClient" where
  "StoreMessageSized e mid recipientID senderID env bucketURL contentType ttl sz offerMeta p =
     (let expiresAt = now e + ttl in
      if fault e (Pg OpStoreMessage recipientID) \<or> mid \<in> pm_ID ` set (messages p)
      then (Inl pg_error, p)
      else (Inr mid,
            p\<lparr>messages := messages p @
                [\<lparr>pm_ID = mid, pm_RecipientID = recipientID, pm_SenderID = senderID,
                  pm_Envelope = env, pm_BucketURL = bucketURL, pm_ContentType = contentType,
                  pm_ExpiresAt = expiresAt, pm_SizeBytes = sz, pm_OfferMeta = offerMeta,
                  pm_CreatedAt = now e\<rparr>]\<rparr>))"

definition StoreMessage ::
  "env \<Rightarrow> string \<Rightarrow> string \<Rightarrow> string \<Rightarrow> string option \<Rightarrow> string option \<Rightarrow> string \<Rightarrow> int
     \<Rightarrow> PostgresClient \<Rightarrow> string result \<times> PostgresClient" where
  "StoreMessage e mid recipientID senderID env bucketURL contentType ttl p =
     StoreMessageSized e mid recipientID senderID env bucketURL contentType ttl 0 '''' p"

definition GetFileMessage :: "env \<Rightarrow> string \<Rightarrow> string \<Rightarrow> PostgresClient \<Rightarrow> PGMessage option result" where
  "GetFileMessage e mid recipientID p =
     (if fault e (Pg OpGetFileMessage mid) then Inl pg_error
      else Inr (find (\<lambda>m. pm_ID m = mid \<and> pm_RecipientID m = recipientID \<and>
                          pm_BucketURL m \<noteq> None \<and> now e < pm_ExpiresAt m) (messages p)))"

definition GetPendingMessages :: "env \<Rightarrow> string \<Rightarrow> PostgresClient \<Rightarrow> PGMessage list result" where
  "GetPendingMessages e recipientID p =
     (if fault e (Pg OpGetPendingMessages recipientID) then Inl pg_error
      else Inr (sort_key pm_CreatedAt
                 (filter (\<lambda>m. pm_RecipientID m = recipientID \<and> now e < pm_ExpiresAt m) (messages p))))"

definition DeleteMessage :: "env \<Rightarrow> string \<Rightarrow> PostgresClient \<Rightarrow> unit result \<times> PostgresClient" where
  "DeleteMessage e mid p =
     (if fault e (Pg OpDeleteMessage mid) then (Inl pg_error, p)
      else (Inr (), p\<lparr>messages := filter (\<lambda>m. pm_ID m \<noteq> mid) (messages p)\<rparr>))"

definition CountMessagesByBucket :: "env \<Rightarrow> string \<Rightarrow> PostgresClient \<Rightarrow> nat result" where
  "CountMessagesByBucket e bucketURL p =
     (if fault e (Pg OpCountMessagesByBucket bucketURL) then Inl pg_error
      else Inr (length (filter (\<lambda>m. pm_BucketURL m = Some bucketURL) (messages p))))"

definition DeleteInlineMessages :: "env \<Rightarrow> string \<Rightarrow> PostgresClient \<Rightarrow> unit result \<times> PostgresClient" where
  "DeleteInlineMessages e recipientID p =
     (if fault e (Pg OpDeleteInlineMessages recipientID) then (Inl pg_error, p)
      else (Inr (), p\<lparr>messages :=
              filter (\<lambda>m. \<not> (pm_RecipientID m = recipientID \<and> pm_Envelope m \<noteq> None)) (messages p)\<rparr>))"

text \<open>
  \<open>PruneExpiredMessages\<close>: the distinct bucket URLs of the expired rows, then the expired rows
  deleted, then the URLs that no surviving row references.
\<close>

definition expired_bucket_urls :: "env \<Rightarrow> PGMessage list \<Rightarrow> string list" where
  "expired_bucket_urls e ms =
     remdups [u. m \<leftarrow> ms, pm_ExpiresAt m \<le> now e, u \<leftarrow> (case pm_BucketURL m of None \<Rightarrow> [] | Some u \<Rightarrow> [u])]"

definition PruneExpiredMessages :: "env \<Rightarrow> PostgresClient \<Rightarrow> string list result \<times> PostgresClient" where
  "PruneExpiredMessages e p =
     (if fault e (Pg OpPruneSelect '''') then (Inl pg_error, p)
      else
        let candidates = expired_bucket_urls e (messages p) in
        if fault e (Pg OpPruneDelete '''') then (Inl pg_error, p)
        else
          let live = filter (\<lambda>m. \<not> pm_ExpiresAt m \<le> now e) (messages p);
              urls = filter (\<lambda>url. \<not> fault e (Pg OpPruneCount url) \<and>
                         length (filter (\<lambda>m. pm_BucketURL m = Some url) live) = 0) candidates
          in (Inr urls, p\<lparr>messages := live\<rparr>))"

section \<open>Entitlements and attestations\<close>

definition pg_StoreEntitlement ::
  "env \<Rightarrow> string \<Rightarrow> string \<Rightarrow> int \<Rightarrow> PostgresClient \<Rightarrow> unit result \<times> PostgresClient" where
  "pg_StoreEntitlement e userID verificationKeyHash expiresAt p =
     (if fault e (Pg OpStoreEntitlement userID) then (Inl pg_error, p)
      else (Inr (), p\<lparr>entitlements := (entitlements p)(userID \<mapsto>
              \<lparr>ent_UserID = userID, ent_VerificationKeyHash = verificationKeyHash,
               ent_ExpiresAt = expiresAt\<rparr>)\<rparr>))"

definition GetEntitlement :: "env \<Rightarrow> string \<Rightarrow> PostgresClient \<Rightarrow> PGEntitlement option result" where
  "GetEntitlement e userID p =
     (if fault e (Pg OpGetEntitlement userID) then Inl pg_error
      else Inr (case entitlements p userID of
                  None \<Rightarrow> None
                | Some ent \<Rightarrow> if now e < ent_ExpiresAt ent then Some ent else None))"

definition StoreClientAttestation ::
  "env \<Rightarrow> string \<Rightarrow> string \<Rightarrow> int \<Rightarrow> int \<Rightarrow> string \<Rightarrow> string \<Rightarrow> PostgresClient \<Rightarrow> unit result \<times> PostgresClient" where
  "StoreClientAttestation e userID clientType issuedAt expiresAt certSig relayPubkey p =
     (if fault e (Pg OpStoreClientAttestation userID) then (Inl pg_error, p)
      else (Inr (), p\<lparr>client_attestations := (client_attestations p)(userID \<mapsto>
              \<lparr>att_UserID = userID, att_ClientType = clientType, att_IssuedAt = issuedAt,
               att_ExpiresAt = expiresAt, att_CertSig = certSig, att_RelayPubkey = relayPubkey\<rparr>)\<rparr>))"

definition GetClientAttestation :: "env \<Rightarrow> string \<Rightarrow> PostgresClient \<Rightarrow> PGClientAttestation option result" where
  "GetClientAttestation e userID p =
     (if fault e (Pg OpGetClientAttestation userID) then Inl pg_error
      else Inr (case client_attestations p userID of
                  None \<Rightarrow> None
                | Some att \<Rightarrow> if now e < att_ExpiresAt att then Some att else None))"

section \<open>Weekly social budgets\<close>

definition GetOrCreateSocialBudget ::
  "env \<Rightarrow> string \<Rightarrow> PostgresClient \<Rightarrow> PGSocialBudget result \<times> PostgresClient" where
  "GetOrCreateSocialBudget e userID p =
     (if fault e (Pg OpSelectBudget userID) then (Inl pg_error, p)
      else (case social_budgets p userID of
              None \<Rightarrow>
                let b = \<lparr>sb_UserID = userID, sb_BytesUsed = 0, sb_WeekStart = now e, sb_UpdatedAt = now e\<rparr>
                in if fault e (Pg OpInsertBudget userID) then (Inl pg_error, p)
                   else (Inr b, p\<lparr>social_budgets := (social_budgets p)(userID \<mapsto> b)\<rparr>)
            | Some b \<Rightarrow>
                if time_Sub (now e) (sb_WeekStart b) \<ge> 7 * 24 * Hour then
                  let b' = b\<lparr>sb_BytesUsed := 0, sb_WeekStart := now e, sb_UpdatedAt := now e\<rparr>
                  in if fault e (Pg OpResetBudget userID) then (Inl pg_error, p)
                     else (Inr b', p\<lparr>social_budgets := (social_budgets p)(userID \<mapsto> b')\<rparr>)
                else (Inr b, p)))"

definition freeBudget :: int where "freeBudget = 10 * 1024 * 1024"
definition plusBudget :: int where "plusBudget = 100 * 1024 * 1024"

text \<open>The result: allowed, bytes used, maximum.\<close>

definition ConsumeSocialBudget ::
  "env \<Rightarrow> string \<Rightarrow> int \<Rightarrow> bool \<Rightarrow> PostgresClient \<Rightarrow> (bool \<times> int \<times> int) result \<times> PostgresClient" where
  "ConsumeSocialBudget e userID bytes isPlus p =
     (case GetOrCreateSocialBudget e userID p of
        (Inl err, p1) \<Rightarrow> (Inl err, p1)
      | (Inr _, p1) \<Rightarrow>
          let maxBudget = (if isPlus then plusBudget else freeBudget) in
          if fault e (Pg OpConsumeBudget userID) then (Inl pg_error, p1)
          else (case social_budgets p1 userID of
                  None \<Rightarrow> (Inr (False, 0, maxBudget), p1)
                | Some b \<Rightarrow>
                    if sb_BytesUsed b + bytes \<le> maxBudget then
                      (Inr (True, sb_BytesUsed b + bytes, maxBudget),
                       p1\<lparr>social_budgets := (social_budgets p1)(userID \<mapsto>
                          b\<lparr>sb_BytesUsed := sb_BytesUsed b + bytes, sb_UpdatedAt := now e\<rparr>)\<rparr>)
                    else (Inr (False, sb_BytesUsed b, maxBudget), p1)))"

section \<open>Stories and reactions\<close>

definition PostStory ::
  "env \<Rightarrow> string \<Rightarrow> string \<Rightarrow> string \<Rightarrow> string \<Rightarrow> string option \<Rightarrow> string \<Rightarrow> int \<Rightarrow> int
     \<Rightarrow> PostgresClient \<Rightarrow> string result \<times> PostgresClient" where
  "PostStory e sid senderID storyType ciphertextB64 bucketURL mediaMeta bytesUsed ttl p =
     (let expiresAt = now e + ttl in
      if fault e (Pg OpPostStory senderID) \<or> sid \<in> st_ID ` set (stories p) then (Inl pg_error, p)
      else (Inr sid,
            p\<lparr>stories := stories p @
                [\<lparr>st_ID = sid, st_SenderID = senderID, st_StoryType = storyType,
                  st_CiphertextB64 = ciphertextB64, st_BucketURL = bucketURL,
                  st_MediaMeta = mediaMeta, st_CreatedAt = now e, st_ExpiresAt = expiresAt,
                  st_BytesUsed = bytesUsed\<rparr>]\<rparr>))"

definition GetStoriesFeed :: "env \<Rightarrow> string list \<Rightarrow> PostgresClient \<Rightarrow> PGStory list result" where
  "GetStoriesFeed e senders p =
     (if senders = [] then Inr []
      else if fault e (Pg OpGetStoriesFeed (hd senders)) then Inl pg_error
      else Inr (take 500 (sort_key st_CreatedAt
                  (filter (\<lambda>s. st_SenderID s \<in> set senders \<and> now e < st_ExpiresAt s) (stories p)))))"

definition GetStory :: "env \<Rightarrow> string \<Rightarrow> PostgresClient \<Rightarrow> PGStory option result" where
  "GetStory e sid p =
     (if fault e (Pg OpGetStory sid) then Inl pg_error
      else Inr (find (\<lambda>s. st_ID s = sid \<and> now e < st_ExpiresAt s) (stories p)))"

text \<open>Deleting stories deletes their reactions (\<open>ON DELETE CASCADE\<close>).\<close>

definition delete_stories :: "(PGStory \<Rightarrow> bool) \<Rightarrow> PostgresClient \<Rightarrow> PostgresClient" where
  "delete_stories gone p =
     p\<lparr>stories := filter (\<lambda>s. \<not> gone s) (stories p),
       story_reactions := filter (\<lambda>r. \<forall>s \<in> set (stories p). gone s \<longrightarrow> st_ID s \<noteq> re_StoryID r)
         (story_reactions p)\<rparr>"

definition DeleteStory :: "env \<Rightarrow> string \<Rightarrow> string \<Rightarrow> PostgresClient \<Rightarrow> unit result \<times> PostgresClient" where
  "DeleteStory e sid userID p =
     (if fault e (Pg OpDeleteStory sid) then (Inl pg_error, p)
      else (Inr (), delete_stories (\<lambda>s. st_ID s = sid \<and> st_SenderID s = userID) p))"

text \<open>The upsert keeps one row per story and reactor; the foreign key refuses an unknown story.\<close>

definition AddOrUpdateStoryReaction ::
  "env \<Rightarrow> string \<Rightarrow> string \<Rightarrow> string \<Rightarrow> string \<Rightarrow> PostgresClient \<Rightarrow> unit result \<times> PostgresClient" where
  "AddOrUpdateStoryReaction e rid storyID reactorID emoji p =
     (if fault e (Pg OpStoryReaction storyID) \<or> storyID \<notin> st_ID ` set (stories p) then (Inl pg_error, p)
      else if (\<exists>r \<in> set (story_reactions p). re_StoryID r = storyID \<and> re_ReactorID r = reactorID) then
        (Inr (), p\<lparr>story_reactions :=
            map (\<lambda>r. if re_StoryID r = storyID \<and> re_ReactorID r = reactorID
                     then r\<lparr>re_Emoji := emoji, re_CreatedAt := now e\<rparr> else r) (story_reactions p)\<rparr>)
      else
        (Inr (), p\<lparr>story_reactions := story_reactions p @
            [\<lparr>re_ID = rid, re_StoryID = storyID, re_ReactorID = reactorID, re_Emoji = emoji,
              re_CreatedAt = now e\<rparr>]\<rparr>))"

definition GetStoryReactions :: "env \<Rightarrow> string \<Rightarrow> PostgresClient \<Rightarrow> PGStoryReaction list result" where
  "GetStoryReactions e storyID p =
     (if fault e (Pg OpGetStoryReactions storyID) then Inl pg_error
      else Inr (sort_key re_CreatedAt (filter (\<lambda>r. re_StoryID r = storyID) (story_reactions p))))"

definition bucket_urls :: "PGStory list \<Rightarrow> string list" where
  "bucket_urls ss = [u. s \<leftarrow> ss, u \<leftarrow> (case st_BucketURL s of None \<Rightarrow> [] | Some u \<Rightarrow> [u]), u \<noteq> []]"

text \<open>Three statements; a failed one is skipped, and the error of none of them is returned.\<close>

definition WipeUserSocialData :: "env \<Rightarrow> string \<Rightarrow> PostgresClient \<Rightarrow> string list result \<times> PostgresClient" where
  "WipeUserSocialData e userID p =
     (let mine = (\<lambda>s. st_SenderID s = userID);
          (deletedURLs, p1) =
            (if fault e (Pg OpWipeStories userID) then ([], p)
             else (bucket_urls (filter mine (stories p)), delete_stories mine p));
          p2 = (if fault e (Pg OpWipeReactions userID) then p1
                else p1\<lparr>story_reactions := filter (\<lambda>r. re_ReactorID r \<noteq> userID) (story_reactions p1)\<rparr>);
          p3 = (if fault e (Pg OpWipeBudget userID) then p2
                else p2\<lparr>social_budgets := (social_budgets p2)(userID := None)\<rparr>)
      in (Inr deletedURLs, p3))"

definition PruneExpiredStories :: "env \<Rightarrow> PostgresClient \<Rightarrow> string list result \<times> PostgresClient" where
  "PruneExpiredStories e p =
     (if fault e (Pg OpPruneExpiredStories '''') then (Inl pg_error, p)
      else (Inr (bucket_urls (filter (\<lambda>s. st_ExpiresAt s \<le> now e) (stories p))),
            delete_stories (\<lambda>s. st_ExpiresAt s \<le> now e) p))"

section \<open>Device tokens\<close>

definition deviceTokenTTL :: int where "deviceTokenTTL = 60 * 24 * Hour"
definition deviceTokenRefreshWindow :: int where "deviceTokenRefreshWindow = 7 * 24 * Hour"
definition deviceTokenOverlap :: int where "deviceTokenOverlap = 24 * Hour"

definition tokenHash :: "string \<Rightarrow> string" where
  "tokenHash token = hexEncode (sha256 (bytes_of token))"

definition MintDeviceToken :: "env \<Rightarrow> string \<Rightarrow> string \<Rightarrow> PostgresClient \<Rightarrow> int result \<times> PostgresClient" where
  "MintDeviceToken e userID token p =
     (let expiresAt = now e + deviceTokenTTL in
      if fault e (Pg OpMintDeviceToken userID) then (Inl pg_error, p)
      else (Inr expiresAt, p\<lparr>device_tokens := (device_tokens p)(userID \<mapsto>
        (case device_tokens p userID of
           None \<Rightarrow>
             \<lparr>dt_token_hash = tokenHash token, dt_prev_token_hash = '''',
              dt_token_expires_at = expiresAt, dt_prev_expires_at = now e,
              dt_created_at = now e, dt_last_seen_at = now e, dt_revoked_at = None\<rparr>
         | Some d \<Rightarrow>
             d\<lparr>dt_prev_token_hash := dt_token_hash d,
               dt_prev_expires_at := min (now e + 24 * Hour) (max (dt_token_expires_at d) (now e)),
               dt_token_hash := tokenHash token,
               dt_token_expires_at := expiresAt,
               dt_last_seen_at := now e,
               dt_revoked_at := None\<rparr>))\<rparr>))"

text \<open>The result: valid, and whether the server should mint a fresh token.\<close>

definition VerifyDeviceToken :: "env \<Rightarrow> string \<Rightarrow> string \<Rightarrow> PostgresClient \<Rightarrow> (bool \<times> bool) result" where
  "VerifyDeviceToken e userID token p =
     (if fault e (Pg OpVerifyDeviceToken userID) then Inl pg_error
      else (case device_tokens p userID of
              None \<Rightarrow> Inr (False, False)
            | Some d \<Rightarrow>
                if dt_revoked_at d \<noteq> None then Inr (False, False)
                else if dt_token_hash d = tokenHash token then
                  (if now e < dt_token_expires_at d
                   then Inr (True, time_Sub (dt_token_expires_at d) (now e) < deviceTokenRefreshWindow)
                   else Inr (False, False))
                else if dt_prev_token_hash d \<noteq> '''' \<and> dt_prev_token_hash d = tokenHash token \<and>
                        now e < dt_prev_expires_at d then
                  Inr (True, time_Sub (dt_prev_expires_at d) (now e) < deviceTokenOverlap div 2)
                else Inr (False, False)))"

definition TouchDeviceToken :: "env \<Rightarrow> string \<Rightarrow> PostgresClient \<Rightarrow> PostgresClient" where
  "TouchDeviceToken e userID p =
     (if fault e (Pg OpTouchDeviceToken userID) then p
      else (case device_tokens p userID of
              None \<Rightarrow> p
            | Some d \<Rightarrow> p\<lparr>device_tokens := (device_tokens p)(userID \<mapsto> d\<lparr>dt_last_seen_at := now e\<rparr>)\<rparr>))"

definition RevokeDeviceToken :: "env \<Rightarrow> string \<Rightarrow> PostgresClient \<Rightarrow> unit result \<times> PostgresClient" where
  "RevokeDeviceToken e userID p =
     (if fault e (Pg OpRevokeDeviceToken userID) then (Inl pg_error, p)
      else (Inr (),
            (case device_tokens p userID of
               None \<Rightarrow> p
             | Some d \<Rightarrow> p\<lparr>device_tokens := (device_tokens p)(userID \<mapsto> d\<lparr>dt_revoked_at := Some (now e)\<rparr>)\<rparr>)))"

end
