(* ===== verification/Object_Storage.thy ===== *)
theory Object_Storage
  imports Relay_Env
begin

text \<open>
  The object stores of storage.go: the S3 client and the local directory, as a map from keys
  to contents, with the URL that \<open>Upload\<close> returns and the function of main.go that reads the
  key back from it. The keys are the UUIDs of the relay, so \<open>filepath.Join\<close> of the directory
  and a key is one file per key.
\<close>

datatype storage_client =
    S3StorageClient (s3_bucketName: string) (s3_endpoint: string) (s3_useSSL: bool)
  | LocalStorageClient (local_dir: string)

record object_store =
  client_kind :: storage_client
  objects :: "string \<rightharpoonup> string"

definition storage_error :: go_error where "storage_error = ''object storage error''"

section \<open>Upload, download, delete\<close>

text \<open>
  \<open>PutObject\<close> stores the object or fails without one; a local \<open>io.Copy\<close> that fails leaves the
  part it wrote.
\<close>

definition S3_Upload ::
  "env \<Rightarrow> string \<Rightarrow> string \<Rightarrow> object_store \<Rightarrow> string result \<times> object_store" where
  "S3_Upload e key body st =
     (if fault e (Store OpCreate key) then (Inl storage_error, st)
      else
        let protocol = (if s3_useSSL (client_kind st) then ''https'' else ''http'')
        in (Inr (protocol @ ''://'' @ s3_endpoint (client_kind st) @ ''/'' @
                 s3_bucketName (client_kind st) @ ''/'' @ key),
            st\<lparr>objects := (objects st)(key \<mapsto> body)\<rparr>))"

definition Local_Upload ::
  "env \<Rightarrow> string \<Rightarrow> string \<Rightarrow> object_store \<Rightarrow> string result \<times> object_store" where
  "Local_Upload e key body st =
     (if fault e (Store OpCreate key) then (Inl storage_error, st)
      else if fault e (Store OpCopy key) then
        (Inl storage_error, st\<lparr>objects := (objects st)(key \<mapsto> take (copied e key) body)\<rparr>)
      else (Inr (''local://'' @ key), st\<lparr>objects := (objects st)(key \<mapsto> body)\<rparr>))"

definition Upload ::
  "env \<Rightarrow> string \<Rightarrow> string \<Rightarrow> object_store \<Rightarrow> string result \<times> object_store" where
  "Upload e key body st =
     (case client_kind st of
        S3StorageClient _ _ _ \<Rightarrow> S3_Upload e key body st
      | LocalStorageClient _ \<Rightarrow> Local_Upload e key body st)"

text \<open>
  Opening a missing local file is an error at once; the reader of a missing S3 object is
  returned and fails when it is read (\<open>Inr None\<close>).
\<close>

definition S3_Download :: "env \<Rightarrow> string \<Rightarrow> object_store \<Rightarrow> string option result" where
  [simp]: "S3_Download e key st = Inr (if fault e (Store OpDownload key) then None else objects st key)"

definition Local_Download :: "env \<Rightarrow> string \<Rightarrow> object_store \<Rightarrow> string option result" where
  [simp]: "Local_Download e key st =
     (if fault e (Store OpDownload key) \<or> objects st key = None then Inl storage_error
      else Inr (objects st key))"

definition Download :: "env \<Rightarrow> string \<Rightarrow> object_store \<Rightarrow> string option result" where
  "Download e key st =
     (case client_kind st of
        S3StorageClient _ _ _ \<Rightarrow> S3_Download e key st
      | LocalStorageClient _ \<Rightarrow> Local_Download e key st)"

text \<open>Removing a missing local file is an error, removing a missing S3 object is not.\<close>

definition S3_Delete :: "env \<Rightarrow> string \<Rightarrow> object_store \<Rightarrow> unit result \<times> object_store" where
  [simp]: "S3_Delete e key st =
     (if fault e (Store OpDelete key) then (Inl storage_error, st)
      else (Inr (), st\<lparr>objects := (objects st)(key := None)\<rparr>))"

definition Local_Delete :: "env \<Rightarrow> string \<Rightarrow> object_store \<Rightarrow> unit result \<times> object_store" where
  [simp]: "Local_Delete e key st =
     (if fault e (Store OpDelete key) \<or> objects st key = None then (Inl storage_error, st)
      else (Inr (), st\<lparr>objects := (objects st)(key := None)\<rparr>))"

definition Storage_Delete :: "env \<Rightarrow> string \<Rightarrow> object_store \<Rightarrow> unit result \<times> object_store" where
  "Storage_Delete e key st =
     (case client_kind st of
        S3StorageClient _ _ _ \<Rightarrow> S3_Delete e key st
      | LocalStorageClient _ \<Rightarrow> Local_Delete e key st)"

definition storageKeyFromURL :: "string \<Rightarrow> string" where
  "storageKeyFromURL rawURL =
     (if HasPrefix rawURL ''local://'' then TrimPrefix rawURL ''local://''
      else let parts = Split rawURL (CHR ''/'')
           in if length parts = 0 then '''' else last parts)"

section \<open>What the operations do to the map\<close>

lemma Upload_ok:
  "Upload e key body st = (Inr url, st') \<Longrightarrow> st' = st\<lparr>objects := (objects st)(key \<mapsto> body)\<rparr>"
  by (auto simp: Upload_def S3_Upload_def Local_Upload_def Let_def split: storage_client.splits if_splits)

lemma Upload_frame [relay_frame]:
  "client_kind (snd (Upload e key body st)) = client_kind st"
  "k \<noteq> key \<Longrightarrow> objects (snd (Upload e key body st)) k = objects st k"
  by (auto simp: Upload_def S3_Upload_def Local_Upload_def Let_def split: storage_client.splits)

lemma Storage_Delete_objects:
  "objects (snd (Storage_Delete e key st)) =
     (if fault e (Store OpDelete key) then objects st else (objects st)(key := None))"
  by (auto simp: Storage_Delete_def split: storage_client.splits)

lemma Storage_Delete_kind [relay_frame]: "client_kind (snd (Storage_Delete e key st)) = client_kind st"
  by (auto simp: Storage_Delete_def split: storage_client.splits)

lemma http_not_local: "HasPrefix (''http'' @ s) ''local://'' = False"
  by (simp add: HasPrefix_def)

lemma storageKeyFromURL_http:
  "CHR ''/'' \<notin> set key \<Longrightarrow> storageKeyFromURL (''http'' @ s @ CHR ''/'' # key) = key"
  using http_not_local [of "s @ CHR ''/'' # key"] last_Split_append [of "CHR ''/''" key "''http'' @ s"]
  unfolding storageKeyFromURL_def Let_def by (simp only: append_assoc if_False length_0_conv Split_not_Nil not_False_eq_True simp_thms)

lemma Upload_key:
  assumes "CHR ''/'' \<notin> set key" "Upload e key body st = (Inr url, st')"
  shows "storageKeyFromURL url = key"
proof (cases "client_kind st")
  case (S3StorageClient b ep ssl)
  have url: "url = ''http'' @ ((if ssl then ''s'' else []) @ ''://'' @ ep @ ''/'' @ b) @ CHR ''/'' # key"
    using assms(2) S3StorageClient by (auto simp: Upload_def S3_Upload_def Let_def split: if_splits)
  show ?thesis unfolding url by (rule storageKeyFromURL_http [OF assms(1)])
next
  case (LocalStorageClient d)
  then have "url = ''local://'' @ key"
    using assms(2) by (auto simp: Upload_def Local_Upload_def split: if_splits)
  then show ?thesis by (simp add: storageKeyFromURL_def HasPrefix_def TrimPrefix_def)
qed

text \<open>
  C18. Storage keys. For a key without a slash (every key is a UUID), the URL that either
  store returns from a successful \<open>Upload\<close> reads back to that key with \<open>storageKeyFromURL\<close>, so
  a download by URL finds the uploaded body and a delete by URL removes that object and no other.
\<close>

theorem storage_roundtrip:
  assumes "CHR ''/'' \<notin> set key" "Upload e key body st = (Inr url, st')"
    and "\<not> fault e' (Store OpDownload key)" "\<not> fault e' (Store OpDelete key)"
  shows "Download e' (storageKeyFromURL url) st' = Inr (Some body) \<and>
    Storage_Delete e' (storageKeyFromURL url) st' = (Inr (), st\<lparr>objects := (objects st)(key := None)\<rparr>)"
  using assms Upload_ok [OF assms(2)] Upload_key [OF assms(1,2)]
  by (auto simp: Download_def Storage_Delete_def split: storage_client.splits)

theorem storage_roundtrip_witness:
  "storageKeyFromURL ''https://minio:9000/files/k1'' = ''k1'' \<and>
   (\<exists>st'. Upload env0 ''k1'' ''body''
      \<lparr>client_kind = S3StorageClient ''files'' ''minio:9000'' True, objects = Map.empty\<rparr>
        = (Inr ''https://minio:9000/files/k1'', st')
      \<and> Download env0 (storageKeyFromURL ''https://minio:9000/files/k1'') st' = Inr (Some ''body''))"
proof -
  let ?st = "\<lparr>client_kind = S3StorageClient ''files'' ''minio:9000'' True, objects = Map.empty\<rparr>"
  have up: "Upload env0 ''k1'' ''body'' ?st
      = (Inr ''https://minio:9000/files/k1'', ?st\<lparr>objects := [''k1'' \<mapsto> ''body'']\<rparr>)"
    by (simp add: Upload_def S3_Upload_def Let_def)
  moreover have "storageKeyFromURL ''https://minio:9000/files/k1'' = ''k1''"
    by (simp add: storageKeyFromURL_def HasPrefix_def Let_def)
  ultimately show ?thesis using storage_roundtrip [OF _ up, of env0] by simp
qed

end
