(* ===== verification/Base64.thy ===== *)
theory Base64
  imports Crypto_Ops
begin

text \<open>
  Package \<open>encoding/base64\<close> as the relay uses it: both alphabets, with padding, and a decoder that
  returns the bytes before an error. Facts: decoding inverts encoding in either alphabet, and
  what the standard decoder makes of URL-safe text.
\<close>

section \<open>Encoder and decoder\<close>

definition b64_alphabet :: string where
  "b64_alphabet = ''ABCDEFGHIJKLMNOPQRSTUVWXYZabcdefghijklmnopqrstuvwxyz0123456789''"

definition b64_std :: string where "b64_std = b64_alphabet @ ''+/''"
definition b64_url :: string where "b64_url = b64_alphabet @ ''-_''"

definition b64_char :: "string \<Rightarrow> nat \<Rightarrow> char" where
  "b64_char tab n = tab ! (n mod 64)"

text \<open>\<open>EncodeToString\<close> with padding: three bytes make four characters.\<close>

fun b64_encode :: "string \<Rightarrow> bytes \<Rightarrow> string" where
  "b64_encode tab [] = []"
| "b64_encode tab [a] =
     (let v = unat a * 65536
      in [b64_char tab (v div 262144), b64_char tab (v div 4096), CHR ''='', CHR ''=''])"
| "b64_encode tab [a, b] =
     (let v = unat a * 65536 + unat b * 256
      in [b64_char tab (v div 262144), b64_char tab (v div 4096), b64_char tab (v div 64), CHR ''=''])"
| "b64_encode tab (a # b # c # r) =
     (let v = unat a * 65536 + unat b * 256 + unat c
      in [b64_char tab (v div 262144), b64_char tab (v div 4096), b64_char tab (v div 64), b64_char tab v]
         @ b64_encode tab r)"

text \<open>The raw variant leaves the padding out.\<close>

definition b64_raw :: "string \<Rightarrow> bytes \<Rightarrow> string" where
  "b64_raw tab bs = filter (\<lambda>c. c \<noteq> CHR ''='') (b64_encode tab bs)"

fun index_of :: "string \<Rightarrow> char \<Rightarrow> nat option" where
  "index_of [] c = None"
| "index_of (x # xs) c = (if x = c then Some 0 else map_option Suc (index_of xs c))"

text \<open>
  The bytes that \<open>DecodeString\<close> returns beside its error: whole groups of four before the first
  malformed one, and what follows padding is an error that keeps the bytes before it.
\<close>

fun b64_groups :: "string \<Rightarrow> string \<Rightarrow> bytes" where
  "b64_groups tab (w # x # y # z # r) =
     (case (index_of tab w, index_of tab x) of
        (Some a, Some b) \<Rightarrow>
          (case (index_of tab y, index_of tab z) of
             (Some c, Some d) \<Rightarrow>
               (let v = a * 262144 + b * 4096 + c * 64 + d
                in of_nat (v div 65536) # of_nat (v div 256) # of_nat v # b64_groups tab r)
           | (Some c, None) \<Rightarrow>
               if z = CHR ''='' then
                 (let v = a * 262144 + b * 4096 + c * 64 in [of_nat (v div 65536), of_nat (v div 256)])
               else []
           | (None, _) \<Rightarrow>
               if y = CHR ''='' \<and> z = CHR ''='' then
                 (let v = a * 262144 + b * 4096 in [of_nat (v div 65536)])
               else [])
      | _ \<Rightarrow> [])"
| "b64_groups tab _ = []"

definition b64_decode :: "string \<Rightarrow> string \<Rightarrow> bytes" where
  "b64_decode tab s = b64_groups tab (filter (\<lambda>c. c \<noteq> CHR 0x0A \<and> c \<noteq> CHR 0x0D) s)"

section \<open>Decoding inverts encoding\<close>

lemma index_of_nth: "distinct xs \<Longrightarrow> i < length xs \<Longrightarrow> index_of xs (xs ! i) = Some i"
proof (induction xs arbitrary: i)
  case (Cons x xs)
  then show ?case by (cases i) auto
qed simp

lemma index_of_None: "index_of xs c = None \<longleftrightarrow> c \<notin> set xs"
  by (induction xs) auto

text \<open>What the two alphabets have in common.\<close>

definition b64_table :: "string \<Rightarrow> bool" where
  "b64_table tab = (distinct tab \<and> length tab = 64 \<and> set tab \<inter> {CHR ''='', CHR 0x0A, CHR 0x0D} = {})"

lemma b64_tables [simp]: "b64_table b64_std" "b64_table b64_url"
  by (simp_all add: b64_table_def b64_std_def b64_url_def b64_alphabet_def)

lemma b64_char_facts:
  assumes "b64_table tab"
  shows "index_of tab (b64_char tab n) = Some (n mod 64)" "index_of tab (CHR ''='') = None"
    "b64_char tab n \<noteq> CHR 0x0A" "b64_char tab n \<noteq> CHR 0x0D"
proof -
  have "b64_char tab n \<in> set tab" using assms by (simp add: b64_char_def b64_table_def)
  with assms show "b64_char tab n \<noteq> CHR 0x0A" "b64_char tab n \<noteq> CHR 0x0D"
    by (auto simp: b64_table_def)
  show "index_of tab (b64_char tab n) = Some (n mod 64)"
    using assms index_of_nth [of tab "n mod 64"] by (simp add: b64_char_def b64_table_def)
  show "index_of tab (CHR ''='') = None"
    using assms by (auto simp: index_of_None b64_table_def)
qed

lemma b64_digits:
  fixes v :: nat
  assumes "v < 16777216"
  shows "v div 262144 mod 64 * 262144 + v div 4096 mod 64 * 4096 + v div 64 mod 64 * 64 + v mod 64 = v"
proof -
  define x y z where "x = v div 64" and "y = x div 64" and "z = y div 64"
  have d: "v div 4096 = y" "v div 262144 = z"
    unfolding x_def y_def z_def by (simp_all add: div_mult2_eq [symmetric])
  have "z < 64" using assms unfolding d(2) [symmetric] by (simp add: less_mult_imp_div_less)
  moreover have "v = 64 * x + v mod 64" "x = 64 * y + x mod 64" "y = 64 * z + y mod 64"
    unfolding x_def y_def z_def by simp_all
  ultimately show ?thesis unfolding d x_def [symmetric] by simp
qed

lemma u8_of_nat: "of_nat (unat (a::u8) + 256 * k) = a"
proof -
  have "(of_nat (256 * k) :: u8) = 0" unfolding word_of_nat_eq_0_iff by (simp add: dvd_def)
  then show ?thesis by simp
qed

lemma b64_bytes:
  fixes a b c :: u8
  defines "v \<equiv> unat a * 65536 + unat b * 256 + unat c"
  shows "v < 16777216" "(of_nat (v div 65536) :: u8) = a" "(of_nat (v div 256) :: u8) = b" "(of_nat v :: u8) = c"
proof -
  have l: "unat a < 256" "unat b < 256" "unat c < 256" by (rule u8_lt)+
  show "v < 16777216" unfolding v_def using l by simp
  have "v div 65536 = unat a" unfolding v_def using l by simp
  then show "(of_nat (v div 65536) :: u8) = a" by simp
  have "v div 256 = unat b + 256 * unat a" unfolding v_def using l by simp
  then show "(of_nat (v div 256) :: u8) = b" by (simp only: u8_of_nat)
  have "v = unat c + 256 * (unat b + 256 * unat a)" unfolding v_def by simp
  then show "(of_nat v :: u8) = c" by (simp only: u8_of_nat)
qed

lemma b64_groups_encode: "b64_table tab \<Longrightarrow> b64_groups tab (b64_encode tab bs) = bs"
proof (induction tab bs rule: b64_encode.induct)
  case (2 tab a)
  then show ?case using b64_digits [of "unat a * 65536"] b64_bytes [of a 0 0]
    by (simp add: Let_def b64_char_facts)
next
  case (3 tab a b)
  then show ?case using b64_digits [of "unat a * 65536 + unat b * 256"] b64_bytes [of a b 0]
    by (simp add: Let_def b64_char_facts)
next
  case (4 tab a b c r)
  then show ?case using b64_digits [of "unat a * 65536 + unat b * 256 + unat c"] b64_bytes [of a b c]
    by (simp add: Let_def b64_char_facts)
qed simp

lemma b64_encode_no_newline:
  "b64_table tab \<Longrightarrow> filter (\<lambda>c. c \<noteq> CHR 0x0A \<and> c \<noteq> CHR 0x0D) (b64_encode tab bs) = b64_encode tab bs"
  by (induction tab bs rule: b64_encode.induct) (simp_all add: Let_def b64_char_facts)

lemma b64_decode_encode: "b64_table tab \<Longrightarrow> b64_decode tab (b64_encode tab bs) = bs"
  by (simp add: b64_decode_def b64_encode_no_newline b64_groups_encode)
section \<open>URL-safe text in the standard decoder\<close>

lemma b64_url_vs_std:
  "index_of b64_std (b64_char b64_url n) = (if n mod 64 < 62 then Some (n mod 64) else None)"
  "b64_char b64_url n = b64_char b64_std n \<longleftrightarrow> n mod 64 < 62"
proof -
  have "n mod 64 < 64" by simp
  then have cases: "n mod 64 < 62 \<or> n mod 64 = 62 \<or> n mod 64 = 63" by linarith
  have len: "length b64_alphabet = 62" by (simp add: b64_alphabet_def)
  have dist: "CHR ''-'' \<notin> set b64_std" "CHR ''_'' \<notin> set b64_std"
    by (simp_all add: b64_std_def b64_alphabet_def)
  have same: "n mod 64 < 62 \<Longrightarrow> b64_url ! (n mod 64) = b64_std ! (n mod 64)"
    by (simp add: b64_url_def b64_std_def len nth_append)
  have last: "b64_url ! 62 = CHR ''-''" "b64_url ! 63 = CHR ''_''" "b64_std ! 62 = CHR ''+''" "b64_std ! 63 = CHR ''/''"
    by (simp_all add: b64_url_def b64_std_def len nth_append)
  show "index_of b64_std (b64_char b64_url n) = (if n mod 64 < 62 then Some (n mod 64) else None)"
    using cases same last dist b64_char_facts(1) [of b64_std n]
    by (auto simp: b64_char_def index_of_None)
  show "b64_char b64_url n = b64_char b64_std n \<longleftrightarrow> n mod 64 < 62"
    using cases same last by (auto simp: b64_char_def)
qed

lemma b64_std_not_pad [simp]: "index_of b64_std (CHR ''='') = None" "b64_char b64_url n \<noteq> CHR ''=''"
  using b64_char_facts(2) [of b64_std] b64_char_facts(1) [of b64_url n] b64_char_facts(2) [of b64_url] by auto

text \<open>One group of four of URL-safe characters in the standard decoder.\<close>

lemma b64_cross_group:
  "b64_groups b64_std (b64_char b64_url i # b64_char b64_url j # b64_char b64_url k # b64_char b64_url l # r) =
     (if i mod 64 < 62 \<and> j mod 64 < 62 \<and> k mod 64 < 62 \<and> l mod 64 < 62
      then b64_groups b64_std (b64_char b64_std i # b64_char b64_std j # b64_char b64_std k # b64_char b64_std l # r)
      else [])"
  by (simp add: b64_url_vs_std(1) b64_char_facts(1))

lemma b64_cross_group2:
  "b64_groups b64_std [b64_char b64_url i, b64_char b64_url j, CHR ''='', CHR ''=''] =
     (if i mod 64 < 62 \<and> j mod 64 < 62
      then b64_groups b64_std [b64_char b64_std i, b64_char b64_std j, CHR ''='', CHR ''='']
      else [])"
  "b64_groups b64_std [b64_char b64_url i, b64_char b64_url j, b64_char b64_url k, CHR ''=''] =
     (if i mod 64 < 62 \<and> j mod 64 < 62 \<and> k mod 64 < 62
      then b64_groups b64_std [b64_char b64_std i, b64_char b64_std j, b64_char b64_std k, CHR ''='']
      else [])"
  by (simp_all add: b64_url_vs_std(1) b64_char_facts(1))

lemma b64_cross_decode:
  "b64_groups b64_std (b64_encode b64_url bs) = bs \<longleftrightarrow> b64_encode b64_url bs = b64_encode b64_std bs"
proof (induction b64_url bs rule: b64_encode.induct)
  case (2 a)
  show ?case using b64_groups_encode [OF b64_tables(1), of "[a]"]
    by (simp only: b64_encode.simps Let_def b64_cross_group2 b64_url_vs_std(2) list.inject append.simps) auto
next
  case (3 a b)
  show ?case using b64_groups_encode [OF b64_tables(1), of "[a, b]"]
    by (simp only: b64_encode.simps Let_def b64_cross_group2 b64_url_vs_std(2) list.inject append.simps) auto
next
  case (4 a b c r)
  define v where "v = unat a * 65536 + unat b * 256 + unat c"
  have full: "b64_groups b64_std (b64_char b64_std (v div 262144) # b64_char b64_std (v div 4096) #
      b64_char b64_std (v div 64) # b64_char b64_std v # q) = a # b # c # b64_groups b64_std q" for q
    using b64_digits [of v] b64_bytes [of a b c, folded v_def]
    by (simp add: b64_char_facts(1) Let_def)
  show ?case using 4
    by (simp only: b64_encode.simps Let_def v_def [symmetric] b64_cross_group full b64_url_vs_std(2)
        list.inject append.simps) auto
qed simp

lemma b64_url_sign: "b64_char b64_url n = CHR ''-'' \<or> b64_char b64_url n = CHR ''_'' \<longleftrightarrow> 62 \<le> n mod 64"
proof -
  have len: "length b64_alphabet = 62" by (simp add: b64_alphabet_def)
  have "CHR ''-'' \<notin> set b64_alphabet \<and> CHR ''_'' \<notin> set b64_alphabet" by (simp add: b64_alphabet_def)
  moreover have "n mod 64 < 62 \<Longrightarrow> b64_alphabet ! (n mod 64) \<in> set b64_alphabet" by (simp add: len)
  ultimately have "n mod 64 < 62 \<Longrightarrow> b64_alphabet ! (n mod 64) \<notin> {CHR ''-'', CHR ''_''}" by (metis empty_iff insert_iff)
  then have small: "n mod 64 < 62 \<Longrightarrow> b64_url ! (n mod 64) \<notin> {CHR ''-'', CHR ''_''}"
    by (simp add: b64_url_def nth_append len)
  have "n mod 64 < 64" by simp
  then have "62 \<le> n mod 64 \<Longrightarrow> n mod 64 = 62 \<or> n mod 64 = 63" by linarith
  moreover have "b64_url ! 62 = CHR ''-''" "b64_url ! 63 = CHR ''_''"
    by (simp_all add: b64_url_def len nth_append)
  ultimately show ?thesis using small by (auto simp: b64_char_def not_le [symmetric])
qed

lemma b64_url_decode_Nil:
  assumes "3 \<le> length d"
  shows "b64_groups b64_std (b64_encode b64_url d) = [] \<longleftrightarrow>
    (\<exists>c \<in> set (take 4 (b64_encode b64_url d)). c = CHR ''-'' \<or> c = CHR ''_'')"
proof -
  obtain a b c r where d: "d = a # b # c # r"
    using assms by (metis Suc_le_length_iff numeral_3_eq_3)
  define v where "v = unat a * 65536 + unat b * 256 + unat c"
  have enc: "b64_encode b64_url d = b64_char b64_url (v div 262144) # b64_char b64_url (v div 4096) #
      b64_char b64_url (v div 64) # b64_char b64_url v # b64_encode b64_url r"
    unfolding d v_def by (simp only: b64_encode.simps Let_def append.simps)
  have some: "b64_groups b64_std (b64_char b64_std i # b64_char b64_std j # b64_char b64_std k # b64_char b64_std l # q) \<noteq> []"
    for i j k l q by (simp add: b64_char_facts(1) Let_def)
  have four: "take 4 (w # x # y # z # q) = [w, x, y, z]" for w x y z :: char and q by simp
  show ?thesis
    unfolding enc b64_cross_group four using some
    by (simp only: list.set bex_simps b64_url_sign not_le [symmetric] if_False if_True split: if_split) blast
qed

end
