(* ===== verification/Google_Apis.thy ===== *)
theory Google_Apis
  imports Relay_Env Base64
begin

text \<open>
  The relay's side of Google's services: access tokens with their cache (google_oauth.go, and
  the same code in fcm.go), purchase verification (play_billing.go), integrity verdicts and
  attestations (play_integrity.go), with the functions of \<open>strings\<close> and
  \<open>time\<close> they call. What Google answers is a parameter of the environment.
\<close>

section \<open>Package strings\<close>

definition Contains :: "string \<Rightarrow> string \<Rightarrow> bool" where
  "Contains s sub = list_ex (\<lambda>i. HasPrefix (drop i s) sub) [0..<length s + 1]"

section \<open>RFC 3339 timestamps\<close>

text \<open>
  \<open>time.Parse(time.RFC3339, s)\<close>: \<open>2006-01-02T15:04:05Z07:00\<close>, where the hour may be a single
  digit, a fraction of the second is accepted after a dot or a comma and cut at nine digits,
  and an offset goes up to 24 hours and 60 minutes. \<open>None\<close> is a parse error; \<open>Some\<close> the instant.
\<close>

definition num2 :: "string \<Rightarrow> (nat \<times> string) option" where
  "num2 s = (if 2 \<le> length s \<and> is_digit (s ! 0) \<and> is_digit (s ! 1)
             then Some (digits_value (take 2 s), drop 2 s) else None)"

text \<open>\<open>getnum(s, false)\<close>.\<close>

definition num12 :: "string \<Rightarrow> (nat \<times> string) option" where
  "num12 s = (if s = [] \<or> \<not> is_digit (s ! 0) then None
              else if length s = 1 \<or> \<not> is_digit (s ! 1) then Some (digits_value (take 1 s), drop 1 s)
              else Some (digits_value (take 2 s), drop 2 s))"

definition expect :: "char \<Rightarrow> string \<Rightarrow> string option" where
  "expect c s = (if s \<noteq> [] \<and> hd s = c then Some (tl s) else None)"

definition leap :: "nat \<Rightarrow> bool" where
  "leap y = (y mod 4 = 0 \<and> (y mod 100 \<noteq> 0 \<or> y mod 400 = 0))"

definition days_in :: "nat \<Rightarrow> nat \<Rightarrow> nat" where
  "days_in y m = (if m = 2 then (if leap y then 29 else 28) else if m \<in> {4, 6, 9, 11} then 30 else 31)"

text \<open>Days from 1 January of year 0 to the given date, in the proleptic Gregorian calendar.\<close>

definition days_before :: "nat \<Rightarrow> nat \<Rightarrow> nat \<Rightarrow> nat" where
  "days_before y m d =
     (if y = 0 then 0 else 365 * y + (y - 1) div 4 - (y - 1) div 100 + (y - 1) div 400 + 1)
     + sum_list (map (days_in y) [1..<m]) + d - 1"

definition frac_nanos :: "string \<Rightarrow> nat" where
  "frac_nanos ds = (let k = take 9 ds in digits_value k * 10 ^ (9 - length k))"

definition take_frac :: "string \<Rightarrow> nat \<times> string" where
  "take_frac s =
     (if 2 \<le> length s \<and> (s ! 0 = CHR ''.'' \<or> s ! 0 = CHR '','') \<and> is_digit (s ! 1)
      then (frac_nanos (takeWhile is_digit (tl s)), dropWhile is_digit (tl s)) else (0, s))"

text \<open>The offset in seconds; nothing may follow it.\<close>

definition zone_offset :: "string \<Rightarrow> int option" where
  "zone_offset s =
     (if s = ''Z'' then Some 0
      else if length s = 6 \<and> (s ! 0 = CHR ''+'' \<or> s ! 0 = CHR ''-'') \<and> s ! 3 = CHR '':'' then
        (case (num2 (drop 1 s), num2 (drop 4 s)) of
           (Some (hr, _), Some (mi, _)) \<Rightarrow>
             if hr \<le> 24 \<and> mi \<le> 60
             then Some ((if s ! 0 = CHR ''-'' then - 1 else 1) * (int hr * 3600 + int mi * 60)) else None
         | _ \<Rightarrow> None)
      else None)"

definition parse_RFC3339 :: "string \<Rightarrow> int option" where
  "parse_RFC3339 s =
     (if length s < 4 \<or> \<not> list_all is_digit (take 4 s) then None
      else let y = digits_value (take 4 s) in
      Option.bind (expect (CHR ''-'') (drop 4 s)) (\<lambda>r1.
      Option.bind (num2 r1) (\<lambda>(m, r2). if m < 1 \<or> 12 < m then None else
      Option.bind (expect (CHR ''-'') r2) (\<lambda>r3.
      Option.bind (num2 r3) (\<lambda>(d, r4).
      Option.bind (expect (CHR ''T'') r4) (\<lambda>r5.
      Option.bind (num12 r5) (\<lambda>(h, r6). if 24 \<le> h then None else
      Option.bind (expect (CHR '':'') r6) (\<lambda>r7.
      Option.bind (num2 r7) (\<lambda>(mi, r8). if 60 \<le> mi then None else
      Option.bind (expect (CHR '':'') r8) (\<lambda>r9.
      Option.bind (num2 r9) (\<lambda>(sec, r10). if 60 \<le> sec then None else
      let (ns, r11) = take_frac r10 in
      Option.bind (zone_offset r11) (\<lambda>z.
        if d < 1 \<or> days_in y m < d then None
        else Some (((int (days_before y m d) - 719528) * 86400
                     + int (h * 3600 + mi * 60 + sec) - z) * Second + int ns)))))))))))))"

section \<open>Access tokens\<close>

record token_cache =
  tc_token :: string
  tc_expiry :: int

definition no_token :: token_cache where
  "no_token = \<lparr>tc_token = [], tc_expiry = - 62135596800 * Second\<rparr>"

text \<open>
  \<open>time.Duration(n-60) * time.Second\<close> for the lifetime \<open>n\<close> that the token endpoint names: both
  operations wrap.
\<close>

definition token_lifetime :: "int \<Rightarrow> int" where
  "token_lifetime expiresIn = wrap64 (wrap64 (expiresIn - 60) * Second)"

text \<open>
  The verb \<open>%q\<close>: quotes around the text, escapes for quotes, backslashes and control characters
  (bytes from 128 on stand for printable runes and are kept).
\<close>

definition quote_char :: "char \<Rightarrow> string" where
  "quote_char c =
     (let n = of_char c :: nat; esc = CHR 0x5C in
      if n = 34 \<or> n = 92 then [esc, c]
      else if n = 7 then [esc, CHR ''a''] else if n = 8 then [esc, CHR ''b'']
      else if n = 12 then [esc, CHR ''f''] else if n = 10 then [esc, CHR ''n'']
      else if n = 13 then [esc, CHR ''r''] else if n = 9 then [esc, CHR ''t'']
      else if n = 11 then [esc, CHR ''v'']
      else if n < 32 \<or> n = 127 then [esc, CHR ''x''] @ hexEncode [of_nat n]
      else [c])"

definition quote :: "string \<Rightarrow> string" where
  "quote s = CHR 0x22 # concat (map quote_char s) @ [CHR 0x22]"

definition base64URL :: "string \<Rightarrow> string" where
  "base64URL s = b64_raw b64_url (bytes_of s)"

text \<open>The signed assertion of a token request; \<open>None\<close> if signing fails.\<close>

definition signing_input :: "env \<Rightarrow> string \<Rightarrow> string" where
  "signing_input e scope =
     (let sa = google_account e scope;
          header = base64URL ''{\"alg\":\"RS256\",\"typ\":\"JWT\"}'';
          claims = base64URL (''{\"iss\":'' @ quote (sa_ClientEmail sa) @ '',\"scope\":'' @ quote scope
            @ '',\"aud\":'' @ quote (sa_TokenURI sa) @ '',\"iat\":'' @ FormatInt (unix (now e))
            @ '',\"exp\":'' @ FormatInt (unix (now e + Hour)) @ ''}'')
      in header @ ''.'' @ claims)"

definition assertion :: "env \<Rightarrow> string \<Rightarrow> string option" where
  "assertion e scope =
     map_option (\<lambda>sig. signing_input e scope @ ''.'' @ b64_raw b64_url sig)
       (rsa_sign e scope (sha256 (bytes_of (signing_input e scope))))"

definition googleTokenSource_get :: "env \<Rightarrow> string \<Rightarrow> token_cache \<Rightarrow> string result \<times> token_cache" where
  "googleTokenSource_get e scope g =
     (if tc_token g \<noteq> [] \<and> now e < tc_expiry g then (Inr (tc_token g), g)
      else (case assertion e scope of
              None \<Rightarrow> (Inl ''sign jwt: signing failed'', g)
            | Some jwt \<Rightarrow>
                (case oauth_api e (sa_TokenURI (google_account e scope)) jwt of
                   NoReply \<Rightarrow> (Inl ''token request: no reply'', g)
                 | Reply status body decoded \<Rightarrow>
                     if status \<noteq> 200
                     then (Inl (''token endpoint status '' @ FormatNat status @ '': '' @ body), g)
                     else (case decoded of
                             None \<Rightarrow> (Inl ''decode token response: malformed'', g)
                           | Some (access_token, expires_in) \<Rightarrow>
                               if access_token = [] then (Inl ''empty access token'', g)
                               else (Inr access_token,
                                     \<lparr>tc_token = access_token,
                                      tc_expiry = now e + token_lifetime expires_in\<rparr>)))))"

section \<open>Purchase verification\<close>

definition playScope :: string where
  "playScope = ''https://www.googleapis.com/auth/androidpublisher''"

text \<open>\<open>errPlayNotEntitled\<close> and the other errors.\<close>

datatype play_error = NotEntitled | PlayFailed string

text \<open>The latest of the expiry times that can be parsed; \<open>zero_time\<close> is Go's zero \<open>Time\<close>.\<close>

definition zero_time :: int where "zero_time = - 62135596800 * Second"

fun latest_expiry :: "string list \<Rightarrow> int \<Rightarrow> int" where
  "latest_expiry [] latest = latest"
| "latest_expiry (t # ts) latest =
     (if t = [] then latest_expiry ts latest
      else (case parse_RFC3339 t of
              None \<Rightarrow> latest_expiry ts latest
            | Some x \<Rightarrow> latest_expiry ts (if latest < x then x else latest)))"

definition entitled_states :: "string list" where
  "entitled_states =
     [''SUBSCRIPTION_STATE_ACTIVE'', ''SUBSCRIPTION_STATE_IN_GRACE_PERIOD'', ''SUBSCRIPTION_STATE_CANCELED'']"

text \<open>What Verify makes of a decoded answer.\<close>

definition play_verdict :: "env \<Rightarrow> subscriptionV2 \<Rightarrow> play_error + int" where
  "play_verdict e sub =
     (if sv_SubscriptionState sub \<notin> set entitled_states then Inl NotEntitled
      else let latest = latest_expiry (sv_ExpiryTimes sub) zero_time in
           if latest = zero_time then Inl NotEntitled
           else if \<not> now e < latest then Inl NotEntitled
           else Inr latest)"

definition PlayVerifier_Verify ::
  "env \<Rightarrow> string \<Rightarrow> token_cache \<Rightarrow> (play_error + int) \<times> token_cache" where
  "PlayVerifier_Verify e purchaseToken g =
     (if \<not> play_enabled e then (Inl (PlayFailed ''play verification not configured''), g)
      else (case googleTokenSource_get e playScope g of
              (Inl err, g') \<Rightarrow> (Inl (PlayFailed (''play access token: '' @ err)), g')
            | (Inr accessToken, g') \<Rightarrow>
                (case play_api e accessToken (play_package e) purchaseToken of
                   NoReply \<Rightarrow> (Inl (PlayFailed ''play api request: no reply''), g')
                 | Reply status body decoded \<Rightarrow>
                     if status = 404 \<or> status = 410 then (Inl NotEntitled, g')
                     else if status \<noteq> 200
                     then (Inl (PlayFailed (''play api status '' @ FormatNat status @ '': '' @ body)), g')
                     else (case decoded of
                             None \<Rightarrow> (Inl (PlayFailed ''decode play response: malformed''), g')
                           | Some sub \<Rightarrow> (play_verdict e sub, g')))))"

section \<open>Integrity verdicts and attestations\<close>

definition integrityScope :: string where
  "integrityScope = ''https://www.googleapis.com/auth/playintegrity''"

definition kAttestationTTL :: int where "kAttestationTTL = 7 * 24 * Hour"
definition kChallengeTTL :: int where "kChallengeTTL = 5 * Minute"

definition ComputeIntegrityNonce :: "string \<Rightarrow> string \<Rightarrow> string" where
  "ComputeIntegrityNonce serverNonce keyHash =
     b64_encode b64_std (sha256 (bytes_of (serverNonce @ '':'' @ keyHash)))"

text \<open>Two nonces agree as texts, or as the bytes either base64 alphabet makes of them.\<close>

definition nonce_bytes :: "string \<Rightarrow> bytes" where
  "nonce_bytes s = (let b = b64_decode b64_std s in if b = [] then b64_decode b64_url s else b)"

definition nonce_matches :: "string \<Rightarrow> string \<Rightarrow> bool" where
  "nonce_matches actual expected =
     (actual = expected \<or>
      (nonce_bytes actual \<noteq> [] \<and> nonce_bytes expected \<noteq> [] \<and> nonce_bytes actual = nonce_bytes expected))"

definition accepted_device_verdicts :: "string list" where
  "accepted_device_verdicts = [''MEETS_DEVICE_INTEGRITY'', ''MEETS_STRONG_INTEGRITY'', ''MEETS_BASIC_INTEGRITY'']"

text \<open>A Go list printed with the verb \<open>%v\<close>.\<close>

fun join_space :: "string list \<Rightarrow> string" where
  "join_space [] = []"
| "join_space [x] = x"
| "join_space (x # xs) = x @ '' '' @ join_space xs"

definition integrity_verdict :: "env \<Rightarrow> string \<Rightarrow> PlayIntegrityTokenResponse \<Rightarrow> unit result" where
  "integrity_verdict e expectedNonce parsed =
     (case it_Error parsed of
        Some (msg, code) \<Rightarrow> Inl (''play integrity error: '' @ msg @ '' (code '' @ FormatInt code @ '')'')
      | None \<Rightarrow>
          if it_RequestPackageName parsed \<noteq> integrity_package e
          then Inl (''package name mismatch: got '' @ it_RequestPackageName parsed @ '', expected ''
                    @ integrity_package e)
          else if \<not> nonce_matches (it_Nonce parsed) expectedNonce
          then Inl (''nonce mismatch: got '' @ it_Nonce parsed @ '', expected '' @ expectedNonce)
          else if it_AppRecognitionVerdict parsed \<noteq> ''PLAY_RECOGNIZED''
          then Inl (''app recognition verdict is '' @ it_AppRecognitionVerdict parsed
                    @ '' (expected PLAY_RECOGNIZED)'')
          else if \<not> list_ex (\<lambda>dv. dv \<in> set accepted_device_verdicts) (it_DeviceRecognitionVerdict parsed)
          then Inl (''device integrity failed: verdicts=['' @ join_space (it_DeviceRecognitionVerdict parsed)
                    @ '']'')
          else Inr ())"

text \<open>\<open>(true, nil)\<close> is \<open>Inr ()\<close>; false comes with an error always.\<close>

definition VerifyIntegrityToken ::
  "env \<Rightarrow> string \<Rightarrow> string \<Rightarrow> token_cache \<Rightarrow> unit result \<times> token_cache" where
  "VerifyIntegrityToken e token expectedNonce g =
     (if \<not> integrity_enabled e then (Inl ''play integrity verifier is not enabled on this relay'', g)
      else (case googleTokenSource_get e integrityScope g of
              (Inl err, g') \<Rightarrow> (Inl (''failed to obtain Google access token: '' @ err), g')
            | (Inr accessToken, g') \<Rightarrow>
                (case integrity_api e accessToken (integrity_package e) token of
                   NoReply \<Rightarrow> (Inl ''call play integrity api: no reply'', g')
                 | Reply status body decoded \<Rightarrow>
                     if status \<noteq> 200
                     then (Inl (''google api returned status '' @ FormatNat status @ '': '' @ body), g')
                     else (case decoded of
                             None \<Rightarrow> (Inl ''unmarshal response: malformed'', g')
                           | Some parsed \<Rightarrow> (integrity_verdict e expectedNonce parsed, g')))))"

definition attestation_message :: "string \<Rightarrow> string \<Rightarrow> int \<Rightarrow> int \<Rightarrow> string" where
  "attestation_message userID clientType issuedAt expiresAt =
     ''WILTKEY_ATTESTATION:'' @ userID @ '':'' @ clientType @ '':'' @ FormatInt issuedAt @ '':''
     @ FormatInt expiresAt"

definition SignAttestation :: "env \<Rightarrow> string \<Rightarrow> string \<Rightarrow> int \<Rightarrow> int \<Rightarrow> string" where
  "SignAttestation e userID clientType issuedAt expiresAt =
     hexEncode (relay_sign e (bytes_of (attestation_message userID clientType issuedAt expiresAt)))"

definition PublicKeyHex :: "env \<Rightarrow> string" where
  "PublicKeyHex e = hexEncode (relay_pub e)"

section \<open>Wake-up messages\<close>

definition fcmScope :: string where
  "fcmScope = ''https://www.googleapis.com/auth/firebase.messaging''"

datatype fcm_answer = FcmSent | FcmUnregistered | FcmError

text \<open>What \<open>Send\<close> makes of Firebase's answer.\<close>

definition fcm_verdict :: "unit http_reply \<Rightarrow> fcm_answer" where
  "fcm_verdict r =
     (case r of
        NoReply \<Rightarrow> FcmError
      | Reply status body _ \<Rightarrow>
          if status = 200 then FcmSent
          else if status = 404 then FcmUnregistered
          else if Contains body ''UNREGISTERED'' then FcmUnregistered
          else FcmError)"

section \<open>Properties\<close>

text \<open>
  A nonce in the other alphabet. The comparison of nonces means to accept either base64
  alphabet, but falls back to the URL-safe one only if the standard decoder returned no bytes,
  and that decoder returns what precedes the first foreign character. So the right nonce in the
  URL-safe alphabet is accepted exactly if it has none of the two characters that differ, or has
  one of them among its first four.
\<close>

theorem urlsafe_nonce_accepted_iff:
  "nonce_matches (b64_encode b64_url (sha256 (bytes_of (n @ '':'' @ u)))) (ComputeIntegrityNonce n u) \<longleftrightarrow>
     b64_encode b64_url (sha256 (bytes_of (n @ '':'' @ u))) = ComputeIntegrityNonce n u \<or>
     list_ex (\<lambda>c. c = CHR ''-'' \<or> c = CHR ''_'') (take 4 (b64_encode b64_url (sha256 (bytes_of (n @ '':'' @ u)))))"
proof -
  define d where "d = sha256 (bytes_of (n @ '':'' @ u))"
  have len: "3 \<le> length d" by (simp add: d_def)
  have full: "b64_decode tab (b64_encode tab d) = d" if "b64_table tab" for tab
    using that by (rule b64_decode_encode)
  have cross: "b64_decode b64_std (b64_encode b64_url d) = b64_groups b64_std (b64_encode b64_url d)"
    by (simp add: b64_decode_def b64_encode_no_newline)
  show ?thesis
    unfolding ComputeIntegrityNonce_def d_def [symmetric] nonce_matches_def nonce_bytes_def Let_def
      list_ex_iff b64_url_decode_Nil [OF len, symmetric]
    using len full [of b64_std] full [of b64_url] b64_cross_decode [of d] cross by (auto split: if_splits)
qed
end
