(* ===== verification/Relay_State.thy ===== *)
theory Relay_State
  imports Redis_Client Postgres_Client Object_Storage Google_Apis
begin

text \<open>
  The state the handlers share: the clients of the three stores, the hub with its connected
  sockets, and the supplies of fresh values; with the frames of websocket.go and the
  operations of the hub (register, unregister, \<open>SendJSON\<close>, the flood guard).

  Go's pointers to \<open>Client\<close> values are natural numbers into \<open>conns\<close>; the hub's map holds
  pointers, so that two connections of one user are distinct.
\<close>

section \<open>Frames\<close>

text \<open>
  The struct \<open>WSMessage\<close>, without the five fields that no code of the relay reads or writes
  (\<open>HostID\<close>, \<open>SpokeID\<close>, \<open>Sequence\<close>, \<open>Envelopes\<close>, \<open>EphemeralPubkey\<close>).
\<close>

record WSMessage =
  m_Type :: string
  m_Challenge :: string
  m_Pubkey :: string
  m_Signature :: string
  m_UserID :: string
  m_RecipientID :: string
  m_SenderID :: string
  m_Envelope :: string
  m_ContentType :: string
  m_Status :: string
  m_Recipients :: "string list"
  m_Capabilities :: "string list"
  m_Message :: string
  m_NukeEnvelope :: string
  m_MessageID :: string
  m_Meta :: string
  m_Size :: int
  m_Token :: string
  m_ExpiresAt :: int
  m_StoryType :: string
  m_CiphertextB64 :: string
  m_MediaMeta :: string
  m_StoryID :: string
  m_BytesUsed :: int
  m_MaxBytes :: int
  m_Contacts :: "string list"
  m_Emoji :: string
  m_Stories :: "PGStory list"
  m_Reactions :: "PGStoryReaction list"
  m_DeviceToken :: string
  m_DeviceTokenExpiresAt :: int
  m_PowNonce :: int
  m_Difficulty :: int
  m_ClientCaps :: "string list"
  m_ChallengeID :: string
  m_PuzzleSeed :: string
  m_PuzzleKind :: string
  m_PuzzleStrips :: int
  m_PuzzleAnswer :: "int option"
  m_TTL :: int

text \<open>A frame of a type with every other field at its zero value.\<close>

definition frame :: "string \<Rightarrow> WSMessage" where
  "frame t =
     \<lparr> m_Type = t, m_Challenge = [], m_Pubkey = [], m_Signature = [], m_UserID = [],
       m_RecipientID = [], m_SenderID = [], m_Envelope = [], m_ContentType = [], m_Status = [],
       m_Recipients = [], m_Capabilities = [], m_Message = [], m_NukeEnvelope = [],
       m_MessageID = [], m_Meta = [], m_Size = 0, m_Token = [], m_ExpiresAt = 0,
       m_StoryType = [], m_CiphertextB64 = [], m_MediaMeta = [], m_StoryID = [],
       m_BytesUsed = 0, m_MaxBytes = 0, m_Contacts = [], m_Emoji = [], m_Stories = [],
       m_Reactions = [], m_DeviceToken = [], m_DeviceTokenExpiresAt = 0, m_PowNonce = 0,
       m_Difficulty = 0, m_ClientCaps = [], m_ChallengeID = [], m_PuzzleSeed = [],
       m_PuzzleKind = [], m_PuzzleStrips = 0, m_PuzzleAnswer = None, m_TTL = 0 \<rparr>"

definition ws_error :: "string \<Rightarrow> WSMessage" where
  "ws_error text = (frame ''ERROR'')\<lparr>m_Message := text\<rparr>"

lemma frame_type [simp]: "m_Type (frame t) = t" "m_Type (ws_error x) = ''ERROR''"
  "m_Message (ws_error x) = x"
  by (simp_all add: frame_def ws_error_def)

text \<open>The em dash of some messages, in UTF-8.\<close>

definition em_dash :: string where "em_dash = [CHR 0xE2, CHR 0x80, CHR 0x94]"

section \<open>Clients and the relay\<close>

text \<open>
  \<open>cl_send\<close> is the content of the channel \<open>send\<close> and \<open>cl_closed\<close> whether it has been closed;
  \<open>cl_conn_open\<close> is the socket and \<open>cl_wire\<close> the frames written to it. The token bucket is a
  rational number (a \<open>float64\<close> in the code).
\<close>

record Client =
  cl_id :: string
  cl_send :: "WSMessage list"
  cl_closed :: bool
  cl_conn_open :: bool
  cl_wire :: "WSMessage list"
  cl_tokens :: rat
  cl_lastRefill :: int

definition send_buffer :: nat where "send_buffer = 512"

definition wsBucketCapacity :: rat where "wsBucketCapacity = 200"
definition wsRefillPerSec :: rat where "wsRefillPerSec = 100"

text \<open>
  The globals \<open>rdb\<close>, \<open>pg\<close> (\<open>None\<close> is \<open>nil\<close>) and \<open>storage\<close>, the hub's map \<open>clients\<close>, the
  allocated clients, the wake-ups started with \<open>go\<close> and not yet run, the pushes handed to
  Firebase, the access tokens of the three Google clients, and the supplies of \<open>uuid.New\<close> and \<open>rand.Read\<close> (by draw and length).
\<close>

record relay =
  rdb :: RedisClient
  pg :: "PostgresClient option"
  storage :: object_store
  clients :: "string \<rightharpoonup> nat"
  conns :: "nat \<Rightarrow> Client"
  next_conn :: nat
  wakes :: "(string \<times> string \<times> string) list"
  pushed :: "(string \<times> string \<times> string) list"
  fcm_cache :: token_cache
  play_cache :: token_cache
  integrity_cache :: token_cache
  uuid_supply :: "nat \<Rightarrow> string"
  rand_supply :: "nat \<Rightarrow> nat \<Rightarrow> bytes option"
  drawn :: nat

definition no_client :: Client where
  "no_client = \<lparr> cl_id = [], cl_send = [], cl_closed = True, cl_conn_open = False, cl_wire = [],
                 cl_tokens = 0, cl_lastRefill = 0 \<rparr>"

text \<open>What the code relies on of \<open>uuid.New\<close>: no UUID comes twice, none is empty or has a slash.\<close>

definition uuids_ok :: "relay \<Rightarrow> bool" where
  "uuids_ok s = (inj (uuid_supply s) \<and> (\<forall>n. uuid_supply s n \<noteq> [] \<and> CHR ''/'' \<notin> set (uuid_supply s n)))"

definition uuid_New :: "relay \<Rightarrow> string \<times> relay" where
  "uuid_New s = (uuid_supply s (drawn s), s\<lparr>drawn := drawn s + 1\<rparr>)"

definition rand_Read :: "nat \<Rightarrow> relay \<Rightarrow> bytes option \<times> relay" where
  "rand_Read n s = (rand_supply s (drawn s) n, s\<lparr>drawn := drawn s + 1\<rparr>)"

text \<open>\<open>randomHex\<close> of puzzle.go; every other use of \<open>rand.Read\<close> hex-encodes its bytes too.\<close>

definition randomHex :: "nat \<Rightarrow> relay \<Rightarrow> string result \<times> relay" where
  "randomHex nBytes s =
     (case rand_Read nBytes s of
        (None, s') \<Rightarrow> (Inl ''crypto/rand: read failed'', s')
      | (Some b, s') \<Rightarrow> (Inr (hexEncode b), s'))"

text \<open>Calls on the three stores from the relay.\<close>

definition on_rdb :: "(RedisClient \<Rightarrow> 'a \<times> RedisClient) \<Rightarrow> relay \<Rightarrow> 'a \<times> relay" where
  "on_rdb f s = (let (a, r) = f (rdb s) in (a, s\<lparr>rdb := r\<rparr>))"

definition on_pg :: "(PostgresClient \<Rightarrow> 'a \<times> PostgresClient) \<Rightarrow> relay \<Rightarrow> 'a \<times> relay" where
  "on_pg f s = (let (a, p) = f (the (pg s)) in (a, s\<lparr>pg := Some p\<rparr>))"

definition on_storage :: "(object_store \<Rightarrow> 'a \<times> object_store) \<Rightarrow> relay \<Rightarrow> 'a \<times> relay" where
  "on_storage f s = (let (a, st) = f (storage s) in (a, s\<lparr>storage := st\<rparr>))"

lemma on_stores [relay_defs]:
  "on_rdb f s = (fst (f (rdb s)), s\<lparr>rdb := snd (f (rdb s))\<rparr>)"
  "on_pg g s = (fst (g (the (pg s))), s\<lparr>pg := Some (snd (g (the (pg s))))\<rparr>)"
  "on_storage h s = (fst (h (storage s)), s\<lparr>storage := snd (h (storage s))\<rparr>)"
  by (simp_all add: on_rdb_def on_pg_def on_storage_def Let_def split: prod.splits)

section \<open>The hub\<close>

definition getClient :: "string \<Rightarrow> relay \<Rightarrow> nat option" where
  "getClient i s = clients s i"

text \<open>The two cases of \<open>Hub.Run\<close>; registering also starts \<open>deliverOfflineQueue\<close>, a step of its own.\<close>

definition hub_register :: "nat \<Rightarrow> relay \<Rightarrow> relay" where
  "hub_register p s = s\<lparr>clients := (clients s)(cl_id (conns s p) \<mapsto> p)\<rparr>"

definition hub_unregister :: "nat \<Rightarrow> relay \<Rightarrow> relay" where
  "hub_unregister p s =
     (let client = conns s p in
      case clients s (cl_id client) of
        None \<Rightarrow> s
      | Some cur \<Rightarrow>
          if cur = p then
            s\<lparr>clients := (clients s)(cl_id client := None),
              conns := (conns s)(p := client\<lparr>cl_closed := True\<rparr>)\<rparr>
          else s)"

definition conn_Close :: "nat \<Rightarrow> relay \<Rightarrow> relay" where
  "conn_Close p s = s\<lparr>conns := (conns s)(p := (conns s p)\<lparr>cl_conn_open := False\<rparr>)\<rparr>"

text \<open>
  A send on the closed channel panics, which is recovered: the frame is dropped. A full
  channel that stays full for 100 ms evicts the client; one that drains in time is a
  \<open>writePump\<close> step before the send.
\<close>

definition SendJSON :: "nat \<Rightarrow> WSMessage \<Rightarrow> relay \<Rightarrow> relay" where
  "SendJSON p v s =
     (let c = conns s p in
      if cl_closed c then s
      else if length (cl_send c) < send_buffer then
        s\<lparr>conns := (conns s)(p := c\<lparr>cl_send := cl_send c @ [v]\<rparr>)\<rparr>
      else conn_Close p (hub_unregister p s))"

text \<open>One turn of \<open>writePump\<close>: a frame is written, or the closed channel is drained and the socket closed.\<close>

definition writePump :: "nat \<Rightarrow> relay \<Rightarrow> relay" where
  "writePump p s =
     (let c = conns s p in
      case cl_send c of
        [] \<Rightarrow> if cl_closed c then conn_Close p s else s
      | v # vs \<Rightarrow>
          if cl_conn_open c then
            s\<lparr>conns := (conns s)(p := c\<lparr>cl_send := vs, cl_wire := cl_wire c @ [v]\<rparr>)\<rparr>
          else s)"

text \<open>\<open>&Client{...}\<close> at the end of \<open>ServeWS\<close>.\<close>

definition new_Client :: "env \<Rightarrow> string \<Rightarrow> relay \<Rightarrow> nat \<times> relay" where
  "new_Client e userID s =
     (next_conn s,
      s\<lparr>next_conn := next_conn s + 1,
        conns := (conns s)(next_conn s :=
          \<lparr>cl_id = userID, cl_send = [], cl_closed = False, cl_conn_open = True, cl_wire = [],
           cl_tokens = wsBucketCapacity, cl_lastRefill = now e\<rparr>)\<rparr>)"

text \<open>The exit of \<open>readPump\<close>.\<close>

definition readPump_exit :: "nat \<Rightarrow> relay \<Rightarrow> relay" where
  "readPump_exit p s = conn_Close p (hub_unregister p s)"

section \<open>The flood guard\<close>

text \<open>The bucket of a client: its tokens and the time of the last refill.\<close>

definition flood_refill :: "int \<Rightarrow> rat \<times> int \<Rightarrow> rat \<times> int" where
  "flood_refill t b =
     (min wsBucketCapacity (fst b + of_int (time_Sub t (snd b)) / of_int Second * wsRefillPerSec), t)"

definition flood_take :: "int \<Rightarrow> rat \<times> int \<Rightarrow> bool \<times> rat \<times> int" where
  "flood_take t b =
     (let (tokens, last) = flood_refill t b
      in if tokens < 1 then (False, tokens, last) else (True, tokens - 1, last))"

definition flood_guard :: "env \<Rightarrow> nat \<Rightarrow> relay \<Rightarrow> bool \<times> relay" where
  "flood_guard e p s =
     (let c = conns s p;
          (ok, tokens, last) = flood_take (now e) (cl_tokens c, cl_lastRefill c)
      in (ok, s\<lparr>conns := (conns s)(p := c\<lparr>cl_tokens := tokens, cl_lastRefill := last\<rparr>)\<rparr>))"

text \<open>The tokens a broadcast charges on top.\<close>

definition charge_tokens :: "nat \<Rightarrow> int \<Rightarrow> relay \<Rightarrow> relay" where
  "charge_tokens p n s =
     s\<lparr>conns := (conns s)(p := (conns s p)\<lparr>cl_tokens := cl_tokens (conns s p) - of_int n\<rparr>)\<rparr>"

section \<open>A freshly started relay\<close>

text \<open>
  The state after start-up with empty stores, local storage and two concrete supplies; the
  witnesses of the properties run in it.
\<close>

definition relay0 :: relay where
  "relay0 =
     \<lparr> rdb = NewRedisClient, pg = Some pg_empty,
       storage = \<lparr>client_kind = LocalStorageClient ''store'', objects = Map.empty\<rparr>,
       clients = Map.empty, conns = (\<lambda>_. no_client), next_conn = 0, wakes = [], pushed = [],
       fcm_cache = no_token, play_cache = no_token, integrity_cache = no_token,
       uuid_supply = (\<lambda>n. CHR ''u'' # FormatNat n), rand_supply = (\<lambda>n k. Some (replicate k (of_nat n))),
       drawn = 0 \<rparr>"

lemma relay0_simps [simp]:
  "rdb relay0 = NewRedisClient" "pg relay0 = Some pg_empty" "clients relay0 u = None"
  "conns relay0 p = no_client" "next_conn relay0 = 0" "wakes relay0 = []" "pushed relay0 = []"
  "drawn relay0 = 0" "uuid_supply relay0 n = CHR ''u'' # FormatNat n"
  "rand_supply relay0 n k = Some (replicate k (of_nat n))"
  "storage relay0 = \<lparr>client_kind = LocalStorageClient ''store'', objects = Map.empty\<rparr>"
  by (simp_all add: relay0_def)

lemma FormatNat_no_slash: "CHR ''/'' \<notin> set (FormatNat n)"
proof
  assume "CHR ''/'' \<in> set (FormatNat n)"
  with FormatNat_digits [of n] have "is_digit (CHR ''/'')" by (auto simp: list_all_iff)
  then show False by (simp add: is_digit_def)
qed

lemma uuids_ok_relay0: "uuids_ok relay0"
  by (auto simp: uuids_ok_def inj_def FormatNat_no_slash dest: arg_cong [where f = digits_value])

end
