(* ===== verification/Hub.thy ===== *)
theory Hub
  imports Relay_State
begin

text \<open>
  Facts about the hub: what \<open>SendJSON\<close> and the register and unregister cases leave unchanged,
  the invariant of the map of clients, the send channels as outboxes, and the flood guard.
\<close>

section \<open>Frame facts\<close>

lemmas hub_ops = SendJSON_def hub_unregister_def hub_register_def conn_Close_def writePump_def
  readPump_exit_def new_Client_def charge_tokens_def flood_guard_def

lemma hub_unregister_frame [simp]:
  "rdb (hub_unregister p s) = rdb s" "pg (hub_unregister p s) = pg s"
  "storage (hub_unregister p s) = storage s" "next_conn (hub_unregister p s) = next_conn s"
  "wakes (hub_unregister p s) = wakes s" "pushed (hub_unregister p s) = pushed s"
  "uuid_supply (hub_unregister p s) = uuid_supply s" "rand_supply (hub_unregister p s) = rand_supply s"
  "drawn (hub_unregister p s) = drawn s" "cl_id (conns (hub_unregister p s) q) = cl_id (conns s q)"
  "cl_send (conns (hub_unregister p s) q) = cl_send (conns s q)"
  by (auto simp: hub_unregister_def Let_def split: option.splits)

lemma conn_Close_frame [simp]:
  "rdb (conn_Close p s) = rdb s" "pg (conn_Close p s) = pg s"
  "storage (conn_Close p s) = storage s" "next_conn (conn_Close p s) = next_conn s"
  "wakes (conn_Close p s) = wakes s" "pushed (conn_Close p s) = pushed s"
  "uuid_supply (conn_Close p s) = uuid_supply s" "rand_supply (conn_Close p s) = rand_supply s"
  "drawn (conn_Close p s) = drawn s" "cl_id (conns (conn_Close p s) q) = cl_id (conns s q)"
  "clients (conn_Close p s) = clients s" "cl_closed (conns (conn_Close p s) q) = cl_closed (conns s q)"
  "cl_send (conns (conn_Close p s) q) = cl_send (conns s q)"
  by (simp_all add: conn_Close_def)

lemma SendJSON_frame [simp]:
  "rdb (SendJSON p v s) = rdb s" "pg (SendJSON p v s) = pg s"
  "storage (SendJSON p v s) = storage s" "next_conn (SendJSON p v s) = next_conn s"
  "wakes (SendJSON p v s) = wakes s" "pushed (SendJSON p v s) = pushed s"
  "uuid_supply (SendJSON p v s) = uuid_supply s" "rand_supply (SendJSON p v s) = rand_supply s"
  "drawn (SendJSON p v s) = drawn s" "cl_id (conns (SendJSON p v s) q) = cl_id (conns s q)"
  by (auto simp: SendJSON_def Let_def)

lemma uuid_New_frame [simp]:
  "fst (uuid_New s) = uuid_supply s (drawn s)" "snd (uuid_New s) = s\<lparr>drawn := drawn s + 1\<rparr>"
  by (simp_all add: uuid_New_def)

lemma uuids_ok_update [simp]:
  "uuids_ok (s\<lparr>rdb := r\<rparr>) = uuids_ok s" "uuids_ok (s\<lparr>pg := p\<rparr>) = uuids_ok s"
  "uuids_ok (s\<lparr>storage := st\<rparr>) = uuids_ok s" "uuids_ok (s\<lparr>drawn := n\<rparr>) = uuids_ok s"
  "uuids_ok (s\<lparr>wakes := w\<rparr>) = uuids_ok s" "uuids_ok (SendJSON q v s) = uuids_ok s"
  by (simp_all add: uuids_ok_def)

lemma uuids_okD:
  "uuids_ok s \<Longrightarrow> uuid_supply s n \<noteq> [] \<and> CHR ''/'' \<notin> set (uuid_supply s n)"
  by (simp add: uuids_ok_def)

section \<open>The invariant of the hub\<close>

text \<open>
  Every registered pointer is an allocated client of that user whose channel is open; a
  channel is never longer than its buffer.
\<close>

definition hub_ok :: "relay \<Rightarrow> bool" where
  "hub_ok s =
     ((\<forall>u p. clients s u = Some p \<longrightarrow>
         p < next_conn s \<and> cl_id (conns s p) = u \<and> \<not> cl_closed (conns s p)) \<and>
      (\<forall>p. length (cl_send (conns s p)) \<le> send_buffer))"

lemma hub_okI:
  "(\<And>u p. clients s u = Some p \<Longrightarrow> p < next_conn s \<and> cl_id (conns s p) = u \<and> \<not> cl_closed (conns s p)) \<Longrightarrow>
   (\<And>p. length (cl_send (conns s p)) \<le> send_buffer) \<Longrightarrow> hub_ok s"
  by (simp add: hub_ok_def)

lemma hub_okD:
  "hub_ok s \<Longrightarrow> clients s u = Some p \<Longrightarrow> p < next_conn s \<and> cl_id (conns s p) = u \<and> \<not> cl_closed (conns s p)"
  unfolding hub_ok_def by blast

lemma hub_ok_len: "hub_ok s \<Longrightarrow> length (cl_send (conns s p)) \<le> send_buffer"
  unfolding hub_ok_def by blast

text \<open>Only the clients and the map matter to the invariant.\<close>

lemma hub_ok_cong:
  "hub_ok s \<Longrightarrow> clients s' = clients s \<Longrightarrow> next_conn s \<le> next_conn s' \<Longrightarrow>
   (\<And>p. cl_id (conns s' p) = cl_id (conns s p) \<and> cl_closed (conns s' p) = cl_closed (conns s p)
        \<and> length (cl_send (conns s' p)) \<le> max (length (cl_send (conns s p))) send_buffer) \<Longrightarrow>
   hub_ok s'"
  by (rule hub_okI) (auto dest: hub_okD, metis hub_ok_len max_absorb2)

lemma hub_ok_unregister [simp]:
  assumes "hub_ok s" shows "hub_ok (hub_unregister p s)"
proof (rule hub_okI)
  fix u q assume "clients (hub_unregister p s) u = Some q"
  then have "clients s u = Some q" "q = p \<longrightarrow> clients s (cl_id (conns s p)) \<noteq> Some p \<or> u \<noteq> cl_id (conns s p)"
    by (auto simp: hub_unregister_def Let_def split: option.splits if_splits)
  then show "q < next_conn (hub_unregister p s) \<and> cl_id (conns (hub_unregister p s) q) = u \<and>
      \<not> cl_closed (conns (hub_unregister p s) q)"
    using hub_okD [OF assms, of u q]
    by (auto simp: hub_unregister_def Let_def split: option.splits)
qed (simp add: hub_ok_len [OF assms])

lemma hub_ok_conn_Close [simp]: "hub_ok s \<Longrightarrow> hub_ok (conn_Close p s)"
  by (erule hub_ok_cong) simp_all

lemma hub_ok_SendJSON [simp]:
  assumes "hub_ok s" shows "hub_ok (SendJSON p v s)"
proof (cases "cl_closed (conns s p) \<or> \<not> length (cl_send (conns s p)) < send_buffer")
  case True
  then show ?thesis using assms by (auto simp: SendJSON_def Let_def)
next
  case False
  then show ?thesis
    using hub_ok_len [OF assms]
    by (intro hub_ok_cong [OF assms]) (auto simp: SendJSON_def Let_def)
qed

lemma hub_ok_writePump [simp]: "hub_ok s \<Longrightarrow> hub_ok (writePump p s)"
  by (erule hub_ok_cong) (auto simp: writePump_def Let_def split: list.splits)

lemma hub_ok_readPump_exit [simp]: "hub_ok s \<Longrightarrow> hub_ok (readPump_exit p s)"
  by (simp add: readPump_exit_def)

lemma hub_ok_tokens [simp]:
  "hub_ok s \<Longrightarrow> hub_ok (charge_tokens p n s)" "hub_ok s \<Longrightarrow> hub_ok (snd (flood_guard e p s))"
  by (erule hub_ok_cong; auto simp: charge_tokens_def flood_guard_def Let_def split: prod.splits)+

lemma hub_ok_stores [simp]:
  "hub_ok (s\<lparr>rdb := r\<rparr>) = hub_ok s" "hub_ok (s\<lparr>pg := q\<rparr>) = hub_ok s"
  "hub_ok (s\<lparr>storage := st\<rparr>) = hub_ok s" "hub_ok (s\<lparr>drawn := n\<rparr>) = hub_ok s"
  "hub_ok (s\<lparr>wakes := w\<rparr>) = hub_ok s" "hub_ok (s\<lparr>pushed := w\<rparr>) = hub_ok s"
  by (simp_all add: hub_ok_def)

lemma hub_ok_admit:
  assumes "hub_ok s"
  shows "hub_ok (hub_register (fst (new_Client e u s)) (snd (new_Client e u s)))"
  by (rule hub_okI)
    (auto simp: new_Client_def hub_register_def hub_ok_len [OF assms] dest: hub_okD [OF assms] split: if_splits)

section \<open>The send channels are outboxes\<close>

interpretation sockets: outbox
  SendJSON "\<lambda>p s. cl_send (conns s p)" "\<lambda>p s. \<not> cl_closed (conns s p)" send_buffer
  by unfold_locales
    (auto simp: SendJSON_def hub_unregister_def conn_Close_def Let_def split: option.splits)

section \<open>Properties\<close>

text \<open>
  C14. A stale connection cannot evict its successor. After a user reconnects, the late exit
  of \<open>readPump\<close> of any other connection, or its eviction by a full channel, leaves the new
  connection registered with its channel open and its pending frames intact.
\<close>

theorem stale_unregister_harmless:
  assumes "clients s u = Some p" "q \<noteq> p" "\<not> cl_closed (conns s p)"
  shows "clients (readPump_exit q s) u = Some p \<and> \<not> cl_closed (conns (readPump_exit q s) p) \<and>
    conns (readPump_exit q s) p = conns s p \<and>
    clients (SendJSON q v s) u = Some p \<and> conns (SendJSON q v s) p = conns s p"
  using assms
  by (auto simp: readPump_exit_def SendJSON_def hub_unregister_def conn_Close_def Let_def
      split: option.splits)

theorem stale_unregister_harmless_witness:
  "let s1 = hub_register 0 (snd (new_Client env0 ''u'' relay0));
       s2 = hub_register 1 (snd (new_Client env0 ''u'' s1))
   in clients s2 ''u'' = Some 1 \<and> clients (readPump_exit 0 s2) ''u'' = Some 1"
  using stale_unregister_harmless [of "hub_register 1 (snd (new_Client env0 ''u''
      (hub_register 0 (snd (new_Client env0 ''u'' relay0)))))" "''u''" 1 0]
  by (simp add: Let_def hub_register_def new_Client_def)

text \<open>Frames arriving on one socket: the guard at each, and the tokens its handler charges.\<close>

fun flood_run :: "nat \<Rightarrow> (env \<times> nat) list \<Rightarrow> relay \<Rightarrow> nat" where
  "flood_run p [] s = 0"
| "flood_run p ((e, n) # fs) s =
     (let (ok, s') = flood_guard e p s
      in if ok then 1 + flood_run p fs (charge_tokens p (int n) s') else flood_run p fs s')"

definition flood_budget :: "int \<Rightarrow> nat \<Rightarrow> relay \<Rightarrow> rat" where
  "flood_budget t p s =
     max 0 (cl_tokens (conns s p) + of_int (t - cl_lastRefill (conns s p)) / of_int Second * wsRefillPerSec)"

lemma flood_step:
  assumes "cl_lastRefill (conns s p) \<le> now e" "now e \<le> t" "flood_guard e p s = (ok, s')"
  shows "flood_budget t p (if ok then charge_tokens p (int n) s' else s') + of_bool ok \<le> flood_budget t p s"
    and "cl_lastRefill (conns (if ok then charge_tokens p (int n) s' else s') p) = now e"
proof -
  let ?c = "conns s p"
  have sub: "time_Sub (now e) (cl_lastRefill ?c) \<le> now e - cl_lastRefill ?c"
    using assms(1) by (simp add: time_Sub_def)
  have "(of_int (time_Sub (now e) (cl_lastRefill ?c)) / of_int Second * wsRefillPerSec :: rat)
      + of_int (t - now e) / of_int Second * wsRefillPerSec
    \<le> of_int (t - cl_lastRefill ?c) / of_int Second * wsRefillPerSec"
  proof -
    have "rat_of_int (time_Sub (now e) (cl_lastRefill ?c) + (t - now e)) \<le> rat_of_int (t - cl_lastRefill ?c)"
      using sub by (simp only: of_int_le_iff)
    then have "rat_of_int (time_Sub (now e) (cl_lastRefill ?c) + (t - now e)) / of_int Second * wsRefillPerSec
        \<le> rat_of_int (t - cl_lastRefill ?c) / of_int Second * wsRefillPerSec"
      by (intro mult_right_mono divide_right_mono) (simp_all add: wsRefillPerSec_def Second_def)
    then show ?thesis by (simp add: add_divide_distrib distrib_right)
  qed
  moreover have "0 \<le> (of_int (t - now e) / of_int Second * wsRefillPerSec :: rat)"
    using assms(2) by (simp add: wsRefillPerSec_def Second_def)
  ultimately show "flood_budget t p (if ok then charge_tokens p (int n) s' else s') + of_bool ok \<le> flood_budget t p s"
    using assms(3)
    by (auto simp: flood_guard_def flood_take_def flood_refill_def flood_budget_def charge_tokens_def
        Let_def min_def max_def split: if_splits)
  show "cl_lastRefill (conns (if ok then charge_tokens p (int n) s' else s') p) = now e"
    using assms(3)
    by (auto simp: flood_guard_def flood_take_def flood_refill_def charge_tokens_def Let_def split: if_splits)
qed

lemma flood_run_bound:
  "sorted (map (now \<circ> fst) fs) \<Longrightarrow> \<forall>f \<in> set fs. cl_lastRefill (conns s p) \<le> now (fst f) \<and> now (fst f) \<le> t \<Longrightarrow>
   of_nat (flood_run p fs s) \<le> flood_budget t p s"
proof (induction p fs s rule: flood_run.induct)
  case (1 p s)
  then show ?case by (simp add: flood_budget_def)
next
  case (2 p e n fs s)
  obtain ok s' where g: "flood_guard e p s = (ok, s')" by fastforce
  let ?s'' = "if ok then charge_tokens p (int n) s' else s'"
  have le: "cl_lastRefill (conns s p) \<le> now e" "now e \<le> t" using 2(4) by auto
  have IH: "of_nat (flood_run p fs ?s'') \<le> flood_budget t p ?s''"
    using 2 flood_step(2) [OF le g] g by (cases ok) (auto simp: comp_def)
  with flood_step(1) [OF le g, of n] g show ?case by (cases ok) auto
qed

text \<open>
  C13. The flood guard bounds a socket. Over any sequence of frames on one connection at
  nondecreasing times up to \<open>t\<close>, whatever extra tokens broadcasts charge, the number of frames
  admitted is at most the tokens left plus 100 per second since the last refill; from a full
  bucket that is 200 plus 100 per second.
\<close>

theorem flood_admission_bound:
  assumes "sorted (map (now \<circ> fst) fs)"
    and "\<forall>f \<in> set fs. cl_lastRefill (conns s p) \<le> now (fst f) \<and> now (fst f) \<le> t"
    and "0 \<le> cl_tokens (conns s p)" "cl_lastRefill (conns s p) \<le> t"
  shows "of_nat (flood_run p fs s)
    \<le> cl_tokens (conns s p) + 100 * of_int (t - cl_lastRefill (conns s p)) / (1000000000 :: rat)"
  using flood_run_bound [OF assms(1,2)] assms(3,4)
  by (simp add: flood_budget_def wsRefillPerSec_def Second_def max_def mult.commute split: if_splits)

theorem flood_admission_bound_witness:
  "of_nat (flood_run 0 (replicate 3 (env0, 200)) (snd (new_Client env0 ''u'' relay0))) \<le> (200 :: rat)"
  using flood_admission_bound [of "replicate 3 (env0, 200)" "snd (new_Client env0 ''u'' relay0)" 0 0]
  by (simp add: new_Client_def wsBucketCapacity_def)

end
