(* ===== verification/Entitlements.thy ===== *)
theory Entitlements
  imports Hub
begin

text \<open>
  What the routing code asks about a user: the premium check with its read-through cache and
  the hold times (main.go), the memory-pressure test, and the wake-up push to an offline
  recipient (push.go).
\<close>

section \<open>Limits of main.go\<close>

definition freeMaxPayload :: int where "freeMaxPayload = 5 * 1024 * 1024"
definition plusMaxPayload :: int where "plusMaxPayload = 50 * 1024 * 1024"
definition largePayloadThreshold :: int where "largePayloadThreshold = 500 * 1024"
definition largeUploadCooldown :: int where "largeUploadCooldown = 15 * Second"
definition maxBroadcastRecipients :: nat where "maxBroadcastRecipients = 256"
definition freeHoldTTL :: int where "freeHoldTTL = 24 * Hour"
definition plusHoldTTL :: int where "plusHoldTTL = 72 * Hour"

section \<open>Premium subscriptions\<close>

definition checkPremiumSubscription :: "env \<Rightarrow> string \<Rightarrow> relay \<Rightarrow> bool result \<times> relay" where
  "checkPremiumSubscription e userID s =
     (let cached = (case GetEntitlementHash e userID (rdb s) of Inl _ \<Rightarrow> [] | Inr hash \<Rightarrow> hash) in
      if cached \<noteq> [] then (Inr True, s)
      else (case pg s of
              None \<Rightarrow> (Inr False, s)
            | Some p \<Rightarrow>
                (case GetEntitlement e userID p of
                   Inl err \<Rightarrow> (Inl err, s)
                 | Inr None \<Rightarrow> (Inr False, s)
                 | Inr (Some ent) \<Rightarrow>
                     if ent_VerificationKeyHash ent \<noteq> [] then
                       let ttl = time_Until (now e) (ent_ExpiresAt ent) in
                       (Inr True,
                        if 0 < ttl
                        then snd (on_rdb (rdb_StoreEntitlement e userID (ent_VerificationKeyHash ent) ttl) s)
                        else s)
                     else (Inr False, s))))"

definition holdTTLForRecipient :: "env \<Rightarrow> string \<Rightarrow> relay \<Rightarrow> int \<times> relay" where
  "holdTTLForRecipient e recipientID s =
     (case checkPremiumSubscription e recipientID s of
        (Inr True, s') \<Rightarrow> (plusHoldTTL, s')
      | (_, s') \<Rightarrow> (freeHoldTTL, s'))"

definition isHighRAMLoad :: "env \<Rightarrow> bool" where
  "isHighRAMLoad e =
     (let thresholdPercent = (case ram_threshold e of None \<Rightarrow> 80 | Some pct \<Rightarrow> pct) in
      case mem_used e of None \<Rightarrow> False | Some used \<Rightarrow> thresholdPercent \<le> used)"

section \<open>Wake-up pushes\<close>

definition pushWorthyContentType :: "string \<Rightarrow> bool" where
  "pushWorthyContentType ct =
     (if ct \<in> {'''', ''text'', ''image'', ''voice'', ''group_message'', ''emergency_chat''}
      then True else False)"

text \<open>
  \<open>PushSender.Send\<close>: \<open>pushed\<close> has the messages posted to Firebase, each a device token with the
  sender and the content type.
\<close>

text \<open>The sender has its own copy of the token code of google_oauth.go.\<close>

definition getAccessToken :: "env \<Rightarrow> token_cache \<Rightarrow> string result \<times> token_cache" where
  "getAccessToken e p =
     (if tc_token p \<noteq> [] \<and> now e < tc_expiry p then (Inr (tc_token p), p)
      else (case assertion e fcmScope of
              None \<Rightarrow> (Inl ''sign jwt: signing failed'', p)
            | Some jwt \<Rightarrow>
                (case oauth_api e (sa_TokenURI (google_account e fcmScope)) jwt of
                   NoReply \<Rightarrow> (Inl ''token request: no reply'', p)
                 | Reply status body decoded \<Rightarrow>
                     if status \<noteq> 200
                     then (Inl (''token endpoint status '' @ FormatNat status @ '': '' @ body), p)
                     else (case decoded of
                             None \<Rightarrow> (Inl ''decode token response: malformed'', p)
                           | Some (access_token, expires_in) \<Rightarrow>
                               if access_token = [] then (Inl ''empty access token'', p)
                               else (Inr access_token,
                                     \<lparr>tc_token = access_token,
                                      tc_expiry = now e + token_lifetime expires_in\<rparr>)))))"

lemma getAccessToken_eq: "getAccessToken e = googleTokenSource_get e fcmScope"
  by (simp add: getAccessToken_def googleTokenSource_get_def fun_eq_iff)

definition PushSender_Send :: "env \<Rightarrow> string \<Rightarrow> string \<Rightarrow> string \<Rightarrow> relay \<Rightarrow> fcm_answer \<times> relay" where
  "PushSender_Send e token senderID contentType s =
     (if \<not> push_enabled e then (FcmSent, s)
      else (case getAccessToken e (fcm_cache s) of
        (Inl _, g) \<Rightarrow> (FcmError, s\<lparr>fcm_cache := g\<rparr>)
      | (Inr accessToken, g) \<Rightarrow>
          (fcm_verdict (fcm_api e (sa_ProjectID (google_account e fcmScope)) accessToken token senderID contentType),
           s\<lparr>fcm_cache := g, pushed := pushed s @ [(token, senderID, contentType)]\<rparr>)))"

definition sendWakePush :: "env \<Rightarrow> string \<Rightarrow> string \<Rightarrow> string \<Rightarrow> relay \<Rightarrow> relay" where
  "sendWakePush e recipientID senderID contentType s =
     (if \<not> push_enabled e then s
      else if \<not> pushWorthyContentType contentType then s
      else (case GetPushToken e recipientID (rdb s) of
              Inl _ \<Rightarrow> s
            | Inr token \<Rightarrow>
                if token = [] then s
                else (case PushSender_Send e token senderID contentType s of
                        (FcmUnregistered, s1) \<Rightarrow> snd (on_rdb (DeletePushToken e recipientID) s1)
                      | (_, s1) \<Rightarrow> s1)))"

text \<open>\<open>go h.sendWakePush(...)\<close> starts a task; one of the started tasks runs later.\<close>

definition go_sendWakePush :: "string \<Rightarrow> string \<Rightarrow> string \<Rightarrow> relay \<Rightarrow> relay" where
  "go_sendWakePush recipientID senderID contentType s =
     s\<lparr>wakes := wakes s @ [(recipientID, senderID, contentType)]\<rparr>"

definition run_wake :: "env \<Rightarrow> relay \<Rightarrow> relay" where
  "run_wake e s =
     (case wakes s of
        [] \<Rightarrow> s
      | (r, sd, ct) # ws \<Rightarrow> sendWakePush e r sd ct (s\<lparr>wakes := ws\<rparr>))"

section \<open>Frame facts\<close>

text \<open>The premium check touches the cache only.\<close>

lemma checkPremium_rdb:
  "snd (checkPremiumSubscription e u s) = s \<or>
   (\<exists>h x. snd (checkPremiumSubscription e u s) = s\<lparr>rdb := (rdb s)
      \<lparr>memoryEntitlements := (memoryEntitlements (rdb s))(u \<mapsto> h),
       memoryBlocks := (memoryBlocks (rdb s))(''entitlement:'' @ u \<mapsto> x)\<rparr>\<rparr>)"
  by (auto simp: checkPremiumSubscription_def Let_def on_stores rdb_StoreEntitlement_def
      split: option.splits sum.splits)

lemma checkPremium_frame [simp]:
  "pg (snd (checkPremiumSubscription e u s)) = pg s"
  "storage (snd (checkPremiumSubscription e u s)) = storage s"
  "clients (snd (checkPremiumSubscription e u s)) = clients s"
  "conns (snd (checkPremiumSubscription e u s)) = conns s"
  "next_conn (snd (checkPremiumSubscription e u s)) = next_conn s"
  "drawn (snd (checkPremiumSubscription e u s)) = drawn s"
  "uuid_supply (snd (checkPremiumSubscription e u s)) = uuid_supply s"
  "rand_supply (snd (checkPremiumSubscription e u s)) = rand_supply s"
  "wakes (snd (checkPremiumSubscription e u s)) = wakes s"
  "pushed (snd (checkPremiumSubscription e u s)) = pushed s"
  "hub_ok (snd (checkPremiumSubscription e u s)) = hub_ok s"
  "uuids_ok (snd (checkPremiumSubscription e u s)) = uuids_ok s"
  "memoryQueue (rdb (snd (checkPremiumSubscription e u s))) = memoryQueue (rdb s)"
  by (rule disjE [OF checkPremium_rdb [of e u s]]; auto)+

lemma holdTTL_snd [simp]: "snd (holdTTLForRecipient e u s) = snd (checkPremiumSubscription e u s)"
  by (auto simp: holdTTLForRecipient_def split: prod.splits sum.splits bool.splits)

lemma holdTTL_cases: "fst (holdTTLForRecipient e u s) \<in> {freeHoldTTL, plusHoldTTL}"
  by (auto simp: holdTTLForRecipient_def split: prod.splits sum.splits bool.splits)

lemma holdTTL_ge: "24 * Hour \<le> fst (holdTTLForRecipient e u s)"
  using holdTTL_cases [of e u s] by (auto simp: freeHoldTTL_def plusHoldTTL_def time_units)

lemma holdTTL_le: "fst (holdTTLForRecipient e u s) \<le> 72 * Hour"
  using holdTTL_cases [of e u s] by (auto simp: freeHoldTTL_def plusHoldTTL_def time_units)

lemma go_wake_frame [simp]:
  "rdb (go_sendWakePush a b c s) = rdb s" "pg (go_sendWakePush a b c s) = pg s"
  "storage (go_sendWakePush a b c s) = storage s" "clients (go_sendWakePush a b c s) = clients s"
  "conns (go_sendWakePush a b c s) = conns s" "next_conn (go_sendWakePush a b c s) = next_conn s"
  "drawn (go_sendWakePush a b c s) = drawn s" "uuid_supply (go_sendWakePush a b c s) = uuid_supply s"
  "rand_supply (go_sendWakePush a b c s) = rand_supply s"
  "hub_ok (go_sendWakePush a b c s) = hub_ok s" "uuids_ok (go_sendWakePush a b c s) = uuids_ok s"
  by (simp_all add: go_sendWakePush_def)

lemma PushSender_Send_frame [simp]:
  "rdb (snd (PushSender_Send e t b c s)) = rdb s"
  "pg (snd (PushSender_Send e t b c s)) = pg s" "storage (snd (PushSender_Send e t b c s)) = storage s"
  "clients (snd (PushSender_Send e t b c s)) = clients s" "conns (snd (PushSender_Send e t b c s)) = conns s"
  "next_conn (snd (PushSender_Send e t b c s)) = next_conn s" "drawn (snd (PushSender_Send e t b c s)) = drawn s"
  "uuid_supply (snd (PushSender_Send e t b c s)) = uuid_supply s" "wakes (snd (PushSender_Send e t b c s)) = wakes s"
  by (simp_all add: PushSender_Send_def split: prod.splits sum.splits)

lemma sendWakePush_cases:
  "sendWakePush e a b c s = s \<or>
   (\<exists>t. push_enabled e \<and> pushWorthyContentType c \<and> GetPushToken e a (rdb s) = Inr t \<and> t \<noteq> [] \<and>
      sendWakePush e a b c s =
        (if fst (PushSender_Send e t b c s) = FcmUnregistered
         then snd (on_rdb (DeletePushToken e a) (snd (PushSender_Send e t b c s)))
         else snd (PushSender_Send e t b c s)))"
  by (auto simp: sendWakePush_def split: sum.splits prod.splits fcm_answer.splits)

lemma sendWakePush_frame [simp]:
  "pg (sendWakePush e a b c s) = pg s" "storage (sendWakePush e a b c s) = storage s"
  "clients (sendWakePush e a b c s) = clients s" "conns (sendWakePush e a b c s) = conns s"
  "next_conn (sendWakePush e a b c s) = next_conn s" "drawn (sendWakePush e a b c s) = drawn s"
  "uuid_supply (sendWakePush e a b c s) = uuid_supply s" "wakes (sendWakePush e a b c s) = wakes s"
  "memoryQueue (rdb (sendWakePush e a b c s)) = memoryQueue (rdb s)"
  by (rule disjE [OF sendWakePush_cases [of e a b c s]];
      auto simp: on_stores DeletePushToken_def)+

section \<open>Properties\<close>

definition relay_plus :: "string \<Rightarrow> int \<Rightarrow> relay" where
  "relay_plus u t = relay0\<lparr>pg := Some (pg_empty\<lparr>entitlements :=
     [u \<mapsto> \<lparr>ent_UserID = u, ent_VerificationKeyHash = ''h'', ent_ExpiresAt = t\<rparr>]\<rparr>)\<rparr>"

text \<open>
  Two lists that must agree do: the content types that raise a wake-up push are exactly
  those that the passive poll counts as a waiting message.
\<close>

theorem push_iff_notifiable: "pushWorthyContentType ct = isNotifiable ct"
  by (simp add: pushWorthyContentType_def isNotifiable_def notifiableContentTypes_def)

text \<open>
  C16. A push reaches the recipient's own device only, and never for a control frame: every
  push that \<open>sendWakePush\<close> hands to Firebase goes to the token registered for that recipient,
  carries a message-worthy content type, and a token that Firebase reports unregistered is
  removed, so the next wake-up for that user sends nothing.
\<close>

theorem wake_push_target:
  assumes "pushed (sendWakePush e r sd ct s) \<noteq> pushed s"
  shows "\<exists>token. memoryPushTokens (rdb s) r = Some token \<and> token \<noteq> [] \<and> isNotifiable ct \<and> push_enabled e \<and>
    pushed (sendWakePush e r sd ct s) = pushed s @ [(token, sd, ct)] \<and>
    (fst (PushSender_Send e token sd ct s) = FcmUnregistered \<longrightarrow> \<not> fault e (Rdb OpDeletePushToken r) \<longrightarrow>
       pushed (sendWakePush e' r sd' ct' (sendWakePush e r sd ct s)) = pushed (sendWakePush e r sd ct s))"
proof -
  from assms sendWakePush_cases [of e r sd ct s] obtain token where t: "push_enabled e"
      "pushWorthyContentType ct" "GetPushToken e r (rdb s) = Inr token" "token \<noteq> []"
    and w: "sendWakePush e r sd ct s =
        (if fst (PushSender_Send e token sd ct s) = FcmUnregistered
         then snd (on_rdb (DeletePushToken e r) (snd (PushSender_Send e token sd ct s)))
         else snd (PushSender_Send e token sd ct s))"
    by metis
  from t(3,4) have tok: "memoryPushTokens (rdb s) r = Some token"
    by (auto simp: GetPushToken_def getstr_def split: if_splits option.splits)
  have "pushed (snd (PushSender_Send e token sd ct s)) \<noteq> pushed s"
    using assms w by (auto simp: on_stores split: if_splits)
  then have p: "pushed (sendWakePush e r sd ct s) = pushed s @ [(token, sd, ct)]"
    using w by (auto simp: PushSender_Send_def on_stores split: prod.splits sum.splits if_splits)
  have "fst (PushSender_Send e token sd ct s) = FcmUnregistered \<Longrightarrow> \<not> fault e (Rdb OpDeletePushToken r) \<Longrightarrow>
      memoryPushTokens (rdb (sendWakePush e r sd ct s)) r = None"
    using w by (simp add: on_stores DeletePushToken_def)
  then have "fst (PushSender_Send e token sd ct s) = FcmUnregistered \<longrightarrow> \<not> fault e (Rdb OpDeletePushToken r) \<longrightarrow>
       pushed (sendWakePush e' r sd' ct' (sendWakePush e r sd ct s)) = pushed (sendWakePush e r sd ct s)"
    by (auto simp: sendWakePush_def [of e'] GetPushToken_def split: sum.splits)
  then show ?thesis using tok t p push_iff_notifiable by (intro exI [of _ token]) simp
qed

definition env_push :: env where
  "env_push = env0\<lparr>push_enabled := True, oauth_api := (\<lambda>_ _. Reply 200 [] (Some (''at'', 3600))),
                  fcm_api := (\<lambda>_ _ _ _ _. Reply 200 [] None)\<rparr>"

theorem wake_push_target_witness:
  "pushed (sendWakePush env_push ''bob'' ''al'' ''text''
     (relay0\<lparr>rdb := NewRedisClient\<lparr>memoryPushTokens := [''bob'' \<mapsto> ''tok'']\<rparr>\<rparr>)) = [(''tok'', ''al'', ''text'')]"
  (is "pushed ?s' = _")
proof -
  let ?s = "relay0\<lparr>rdb := NewRedisClient\<lparr>memoryPushTokens := [''bob'' \<mapsto> ''tok'']\<rparr>\<rparr>"
  have "pushed ?s' \<noteq> pushed ?s"
    by (simp add: env_push_def sendWakePush_def pushWorthyContentType_def GetPushToken_def PushSender_Send_def
        getAccessToken_def googleTokenSource_get_def assertion_def fcm_verdict_def relay0_def no_token_def env0_def Second_def)
  from wake_push_target [OF this, of env0 "''al''" "''text''"] show ?thesis by auto
qed

end
