(* ===== verification/Ws_Routing.thy ===== *)
theory Ws_Routing
  imports Entitlements
begin

text \<open>
  Message routing of handlers.go and websocket.go: single messages, group fan-out, typing,
  nuke and its acknowledgement, and the delivery of what was stored while a user was away.
  Each handler is a function of the environment, the pointer \<open>p\<close> of the calling client, the
  frame and the relay; \<open>cid s p\<close> is the caller's \<open>c.id\<close>.
\<close>

abbreviation cid :: "relay \<Rightarrow> nat \<Rightarrow> string" where
  "cid s p \<equiv> cl_id (conns s p)"

definition payload_size :: "string \<Rightarrow> int" where
  "payload_size envelope = int (length envelope)"

section \<open>Single messages\<close>

text \<open>
  \<open>buildOfferMeta\<close>: the envelope as a JSON object with its field \<open>d\<close> blanked, \<open>None\<close> when it
  is not an object with that field.
\<close>

definition buildOfferMeta :: "env \<Rightarrow> string \<Rightarrow> string option" where
  "buildOfferMeta e envelope =
     (case json_fields e envelope of
        None \<Rightarrow> None
      | Some fs \<Rightarrow>
          if fs ''d'' = None then None
          else json_marshal e (fs(''d'' \<mapsto> [CHR 0x22, CHR 0x22])))"

text \<open>The \<open>NEW_MESSAGE\<close> frame of the routing code.\<close>

definition new_message :: "string \<Rightarrow> string \<Rightarrow> string \<Rightarrow> string \<Rightarrow> WSMessage" where
  "new_message sender envelope contentType messageID =
     (frame ''NEW_MESSAGE'')
       \<lparr>m_SenderID := sender, m_Envelope := envelope, m_ContentType := contentType,
        m_MessageID := messageID\<rparr>"

definition routeSmallMessage ::
  "env \<Rightarrow> nat \<Rightarrow> string \<Rightarrow> string \<Rightarrow> string \<Rightarrow> int \<Rightarrow> relay \<Rightarrow> unit result \<times> relay" where
  "routeSmallMessage e p recipientID envelope contentType holdTTL s =
     (if pg s \<noteq> None \<and> isHighRAMLoad e then
        let (mid, s1) = uuid_New s;
            (stored, s2) = on_pg (StoreMessage e mid recipientID (cid s p) (Some envelope) None
                                    contentType holdTTL) s1
        in (case stored of
              Inl err \<Rightarrow> (Inl (''postgres inline store: '' @ err), s2)
            | Inr messageID \<Rightarrow>
                (case getClient recipientID s2 of
                   Some target \<Rightarrow>
                     (Inr (), snd (on_pg (DeleteMessage e messageID)
                        (SendJSON target (new_message (cid s p) envelope contentType []) s2)))
                 | None \<Rightarrow> (Inr (), go_sendWakePush recipientID (cid s p) contentType s2)))
      else (case getClient recipientID s of
              Some target \<Rightarrow> (Inr (), SendJSON target (new_message (cid s p) envelope contentType []) s)
            | None \<Rightarrow>
                (case on_rdb (AddMessageToQueue e recipientID (cid s p) envelope contentType holdTTL) s of
                   (Inl err, s1) \<Rightarrow> (Inl (''redis queue: '' @ err), s1)
                 | (Inr _, s1) \<Rightarrow> (Inr (), go_sendWakePush recipientID (cid s p) contentType s1))))"

text \<open>The three gates on the size of a payload; the text is the \<open>ERROR\<close> the sender gets.\<close>

definition sender_size_gates :: "env \<Rightarrow> nat \<Rightarrow> int \<Rightarrow> relay \<Rightarrow> string option \<times> relay" where
  "sender_size_gates e p payloadSize s =
     (if plusMaxPayload < payloadSize then (Some ''Payload exceeds the 50MB maximum'', s)
      else
        let (sub, s1) = (if freeMaxPayload \<le> payloadSize
                         then checkPremiumSubscription e (cid s p) s else (Inr True, s))
        in if sub \<noteq> Inr True
           then (Some ''Payload >= 5MB requires an active premium subscription'', s1)
           else if largePayloadThreshold \<le> payloadSize then
             (case on_rdb (AllowLargeUpload e (cid s p) largeUploadCooldown) s1 of
                (Inr False, s2) \<Rightarrow>
                  (Some (''Sending large files too quickly '' @ em_dash @ '' please wait a few seconds and try again''), s2)
              | (_, s2) \<Rightarrow> (None, s2))
           else (None, s1))"

definition file_offer :: "string \<Rightarrow> string \<Rightarrow> string \<Rightarrow> string \<Rightarrow> int \<Rightarrow> int \<Rightarrow> WSMessage" where
  "file_offer sender contentType messageID offerMeta sz expiresAt =
     (frame ''FILE_OFFER'')
       \<lparr>m_SenderID := sender, m_ContentType := contentType, m_MessageID := messageID,
        m_Meta := offerMeta, m_Size := sz, m_ExpiresAt := expiresAt\<rparr>"

text \<open>
  How a stored large file is announced to its recipient: inline when no offer can be made of
  it, as a \<open>FILE_OFFER\<close> otherwise, by a push when the recipient is offline.
\<close>

definition announce_file ::
  "env \<Rightarrow> string \<Rightarrow> string \<Rightarrow> string \<Rightarrow> string \<Rightarrow> string \<Rightarrow> string option \<Rightarrow> int \<Rightarrow> relay \<Rightarrow> relay" where
  "announce_file e rid sender envelope contentType messageID offerMeta holdTTL s =
     (case getClient rid s of
        None \<Rightarrow> go_sendWakePush rid sender contentType s
      | Some target \<Rightarrow>
          (case offerMeta of
             None \<Rightarrow> SendJSON target (new_message sender envelope contentType messageID) s
           | Some om \<Rightarrow>
               SendJSON target (file_offer sender contentType messageID om (payload_size envelope)
                                  (unix (now e + holdTTL))) s))"

definition send_large :: "env \<Rightarrow> nat \<Rightarrow> WSMessage \<Rightarrow> int \<Rightarrow> relay \<Rightarrow> relay" where
  "send_large e p msg holdTTL s =
     (if pg s = None then
        SendJSON p (ws_error ''Postgres and storage must be configured to process large payloads'') s
      else
        let (storageKey, s1) = uuid_New s;
            (up, s2) = on_storage (Upload e storageKey (m_Envelope msg)) s1
        in (case up of
              Inl _ \<Rightarrow> SendJSON p (ws_error ''Failed to upload large file to storage'') s2
            | Inr bucketURL \<Rightarrow>
                let offerMeta = buildOfferMeta e (m_Envelope msg);
                    (mid, s3) = uuid_New s2;
                    (stored, s4) = on_pg (StoreMessageSized e mid (m_RecipientID msg) (cid s p) None
                                      (Some bucketURL) (m_ContentType msg) holdTTL
                                      (payload_size (m_Envelope msg)) (case offerMeta of None \<Rightarrow> [] | Some om \<Rightarrow> om)) s3
                in (case stored of
                      Inl _ \<Rightarrow>
                        SendJSON p (ws_error ''Failed to store message metadata in database'')
                          (snd (on_storage (Storage_Delete e storageKey) s4))
                    | Inr messageID \<Rightarrow>
                        announce_file e (m_RecipientID msg) (cid s p) (m_Envelope msg)
                          (m_ContentType msg) messageID offerMeta holdTTL s4)))"

definition handleSendMessage :: "env \<Rightarrow> nat \<Rightarrow> WSMessage \<Rightarrow> relay \<Rightarrow> relay" where
  "handleSendMessage e p msg s =
     (if m_RecipientID msg = [] then SendJSON p (ws_error ''Missing recipient_id'') s
      else (case IsQueueBlocked e (m_RecipientID msg) (rdb s) of
              Inl _ \<Rightarrow> SendJSON p (ws_error ''Database error checking queue status'') s
            | Inr True \<Rightarrow>
                SendJSON p (ws_error ''Recipient queue is locked due to active Nuke command'') s
            | Inr False \<Rightarrow>
                (case sender_size_gates e p (payload_size (m_Envelope msg)) s of
                   (Some text, s1) \<Rightarrow> SendJSON p (ws_error text) s1
                 | (None, s1) \<Rightarrow>
                     let (holdTTL, s2) = holdTTLForRecipient e (m_RecipientID msg) s1 in
                     if largePayloadThreshold \<le> payload_size (m_Envelope msg)
                     then send_large e p msg holdTTL s2
                     else (case routeSmallMessage e p (m_RecipientID msg) (m_Envelope msg)
                                  (m_ContentType msg) holdTTL s2 of
                             (Inl _, s3) \<Rightarrow> SendJSON p (ws_error ''Failed to route message'') s3
                           | (Inr _, s3) \<Rightarrow> s3))))"

section \<open>Group fan-out\<close>

text \<open>The loop that drops empty ids, the sender and repetitions, keeping the first occurrences.\<close>

fun dedupe_recipients :: "string \<Rightarrow> string list \<Rightarrow> string list \<Rightarrow> string list" where
  "dedupe_recipients self seen [] = []"
| "dedupe_recipients self seen (r # rs) =
     (if r = [] \<or> r = self then dedupe_recipients self seen rs
      else if r \<in> set seen then dedupe_recipients self seen rs
      else r # dedupe_recipients self (r # seen) rs)"

fun fan_out_small :: "env \<Rightarrow> nat \<Rightarrow> WSMessage \<Rightarrow> string list \<Rightarrow> relay \<Rightarrow> relay" where
  "fan_out_small e p msg [] s = s"
| "fan_out_small e p msg (rid # rids) s =
     (case IsQueueBlocked e rid (rdb s) of
        Inr False \<Rightarrow>
          let (holdTTL, s1) = holdTTLForRecipient e rid s
          in fan_out_small e p msg rids
               (snd (routeSmallMessage e p rid (m_Envelope msg) (m_ContentType msg) holdTTL s1))
      | _ \<Rightarrow> fan_out_small e p msg rids s)"

text \<open>The pointer rows of a large file; the first component is \<open>delivered\<close>.\<close>

fun fan_out_file ::
  "env \<Rightarrow> nat \<Rightarrow> WSMessage \<Rightarrow> string \<Rightarrow> string option \<Rightarrow> string list \<Rightarrow> relay \<Rightarrow> nat \<times> relay" where
  "fan_out_file e p msg bucketURL offerMeta [] s = (0, s)"
| "fan_out_file e p msg bucketURL offerMeta (rid # rids) s =
     (case IsQueueBlocked e rid (rdb s) of
        Inr False \<Rightarrow>
          let (holdTTL, s1) = holdTTLForRecipient e rid s;
              (mid, s2) = uuid_New s1;
              (stored, s3) = on_pg (StoreMessageSized e mid rid (cid s p) None (Some bucketURL)
                                (m_ContentType msg) holdTTL (payload_size (m_Envelope msg))
                                (case offerMeta of None \<Rightarrow> [] | Some om \<Rightarrow> om)) s2
          in (case stored of
                Inl _ \<Rightarrow> fan_out_file e p msg bucketURL offerMeta rids s3
              | Inr messageID \<Rightarrow>
                  let (delivered, s4) = fan_out_file e p msg bucketURL offerMeta rids
                        (announce_file e rid (cid s p) (m_Envelope msg) (m_ContentType msg)
                           messageID offerMeta holdTTL s3)
                  in (delivered + 1, s4))
      | _ \<Rightarrow> fan_out_file e p msg bucketURL offerMeta rids s)"

definition broadcastLargeFile :: "env \<Rightarrow> nat \<Rightarrow> string list \<Rightarrow> WSMessage \<Rightarrow> relay \<Rightarrow> relay" where
  "broadcastLargeFile e p recipients msg s =
     (if pg s = None then
        SendJSON p (ws_error ''Postgres and storage must be configured to process large payloads'') s
      else
        let (storageKey, s1) = uuid_New s;
            (up, s2) = on_storage (Upload e storageKey (m_Envelope msg)) s1
        in (case up of
              Inl _ \<Rightarrow> SendJSON p (ws_error ''Failed to upload large file to storage'') s2
            | Inr bucketURL \<Rightarrow>
                let (delivered, s3) =
                      fan_out_file e p msg bucketURL (buildOfferMeta e (m_Envelope msg)) recipients s2
                in if delivered = 0 then snd (on_storage (Storage_Delete e storageKey) s3) else s3))"

definition handleBroadcastGroupMessage :: "env \<Rightarrow> nat \<Rightarrow> WSMessage \<Rightarrow> relay \<Rightarrow> relay" where
  "handleBroadcastGroupMessage e p msg s =
     (let recipients = dedupe_recipients (cid s p) [] (m_Recipients msg) in
      if length recipients = 0 then SendJSON p (ws_error ''No recipients'') s
      else if length recipients > maxBroadcastRecipients then
        SendJSON p (ws_error ''Too many recipients'') s
      else
        let s1 = charge_tokens p (int (length recipients) - 1) s in
        (case sender_size_gates e p (payload_size (m_Envelope msg)) s1 of
           (Some text, s2) \<Rightarrow> SendJSON p (ws_error text) s2
         | (None, s2) \<Rightarrow>
             if largePayloadThreshold \<le> payload_size (m_Envelope msg)
             then broadcastLargeFile e p recipients msg s2
             else fan_out_small e p msg recipients s2))"

section \<open>Typing, nuke and its acknowledgement\<close>

definition handleTypingStatus :: "nat \<Rightarrow> WSMessage \<Rightarrow> relay \<Rightarrow> relay" where
  "handleTypingStatus p msg s =
     (if m_RecipientID msg = [] then s
      else (case getClient (m_RecipientID msg) s of
              None \<Rightarrow> s
            | Some target \<Rightarrow>
                SendJSON target ((frame ''PEER_TYPING_STATUS'')
                  \<lparr>m_SenderID := cid s p, m_Status := m_Status msg\<rparr>) s))"

definition nukeLimitPerHour :: int where "nukeLimitPerHour = 10"

definition handleNukeRecipient :: "env \<Rightarrow> nat \<Rightarrow> WSMessage \<Rightarrow> relay \<Rightarrow> relay" where
  "handleNukeRecipient e p msg s =
     (if m_RecipientID msg = [] then s
      else (case on_rdb (AllowNuke e (cid s p) nukeLimitPerHour) s of
              (Inl _, s1) \<Rightarrow> SendJSON p (ws_error ''Nuke rate check failed'') s1
            | (Inr False, s1) \<Rightarrow> SendJSON p (ws_error ''Nuke rate limit exceeded'') s1
            | (Inr True, s1) \<Rightarrow>
                (case on_rdb (BlockQueue e (m_RecipientID msg)) s1 of
                   (Inl _, s2) \<Rightarrow> SendJSON p (ws_error ''Failed to apply nuke lock'') s2
                 | (Inr _, s2) \<Rightarrow>
                     let (_, s3) = on_rdb (AddMessageToQueue e (m_RecipientID msg) (cid s p)
                                     (m_NukeEnvelope msg) ''nuke'' (7 * 24 * Hour)) s2
                     in (case getClient (m_RecipientID msg) s3 of
                           None \<Rightarrow> s3
                         | Some target \<Rightarrow>
                             SendJSON target (new_message (cid s p) (m_NukeEnvelope msg) ''nuke'' []) s3))))"

definition handleAckNuke :: "env \<Rightarrow> nat \<Rightarrow> WSMessage \<Rightarrow> relay \<Rightarrow> relay" where
  "handleAckNuke e p msg s =
     (case on_rdb (UnblockQueue e (cid s p)) s of
        (Inl _, s1) \<Rightarrow> SendJSON p (ws_error ''Failed to unblock queue'') s1
      | (Inr _, s1) \<Rightarrow>
          SendJSON p ((frame ''STATUS'')\<lparr>m_Message := ''Queue unblocked successfully''\<rparr>) s1)"

section \<open>Delivery on connect, and re-offers on request\<close>

definition fileOfferFrom :: "PGMessage \<Rightarrow> WSMessage" where
  "fileOfferFrom m =
     file_offer (pm_SenderID m) (pm_ContentType m) (pm_ID m) (pm_OfferMeta m) (pm_SizeBytes m)
       (unix (pm_ExpiresAt m))"

text \<open>What the connect-time sweep sends for a row: an offer, the inline message, or nothing.\<close>

definition pending_frames :: "PGMessage \<Rightarrow> WSMessage list" where
  "pending_frames m =
     (if pm_BucketURL m \<noteq> None then [fileOfferFrom m]
      else (case pm_Envelope m of
              None \<Rightarrow> []
            | Some env \<Rightarrow> [new_message (pm_SenderID m) env (pm_ContentType m) []]))"

definition queue_frame :: "queue_entry \<Rightarrow> WSMessage" where
  "queue_frame z = (case z of (sender, envelope, ct) \<Rightarrow> new_message sender envelope ct [])"

definition deliverOfflineQueue :: "env \<Rightarrow> nat \<Rightarrow> relay \<Rightarrow> relay" where
  "deliverOfflineQueue e p s =
     (let (fetched, s1) = on_rdb (FetchAndClearQueue e (cid s p)) s;
          queued = (case fetched of Inl _ \<Rightarrow> [] | Inr zs \<Rightarrow> zs);
          s2 = fold (SendJSON p) (map queue_frame queued) s1
      in (case pg s2 of
            None \<Rightarrow> s2
          | Some db \<Rightarrow>
              (case GetPendingMessages e (cid s p) db of
                 Inl _ \<Rightarrow> s2
               | Inr ms \<Rightarrow>
                   if ms = [] then s2
                   else snd (on_pg (DeleteInlineMessages e (cid s p))
                          (fold (SendJSON p) (concat (map pending_frames ms)) s2)))))"

definition resendPendingFileOffers :: "env \<Rightarrow> nat \<Rightarrow> relay \<Rightarrow> relay" where
  "resendPendingFileOffers e p s =
     (case pg s of
        None \<Rightarrow> s
      | Some db \<Rightarrow>
          (case GetPendingMessages e (cid s p) db of
             Inl _ \<Rightarrow> s
           | Inr ms \<Rightarrow>
               fold (SendJSON p) (map fileOfferFrom (filter (\<lambda>m. pm_BucketURL m \<noteq> None) ms)) s))"

end
