(* ===== verification/Ws_Files.thy ===== *)
theory Ws_Files
  imports Ws_Routing
begin

text \<open>
  Large files after they are stored: the download token of \<open>REQUEST_FILE\<close>, the download
  itself, the acknowledgement \<open>FILE_RECEIVED\<close> with its reference count, and the cleanup worker
  (handlers.go, main.go).
\<close>

section \<open>Download tokens\<close>

definition file_error :: "string \<Rightarrow> string \<Rightarrow> WSMessage" where
  "file_error messageID text = (frame ''FILE_ERROR'')\<lparr>m_MessageID := messageID, m_Message := text\<rparr>"

definition handleRequestFile :: "env \<Rightarrow> nat \<Rightarrow> WSMessage \<Rightarrow> relay \<Rightarrow> relay" where
  "handleRequestFile e p msg s =
     (if m_MessageID msg = [] then SendJSON p (file_error [] ''Missing message_id'') s
      else (case pg s of
              None \<Rightarrow> SendJSON p (file_error (m_MessageID msg) ''File storage is not configured'') s
            | Some db \<Rightarrow>
                (case GetFileMessage e (m_MessageID msg) (cid s p) db of
                   Inl _ \<Rightarrow> SendJSON p (file_error (m_MessageID msg) ''Could not look up that file'') s
                 | Inr None \<Rightarrow> SendJSON p (file_error (m_MessageID msg) ''File is no longer available'') s
                 | Inr (Some row) \<Rightarrow>
                     (case randomHex 32 s of
                        (Inl _, s1) \<Rightarrow>
                          SendJSON p (file_error (m_MessageID msg) ''Could not issue a download token'') s1
                      | (Inr token, s1) \<Rightarrow>
                          (case on_rdb (StoreFileToken e token (pm_ID row) (cid s p)) s1 of
                             (Inl _, s2) \<Rightarrow>
                               SendJSON p (file_error (m_MessageID msg) ''Could not issue a download token'') s2
                           | (Inr _, s2) \<Rightarrow>
                               SendJSON p ((frame ''FILE_TOKEN'')
                                 \<lparr>m_MessageID := pm_ID row, m_Token := token, m_Size := pm_SizeBytes row,
                                  m_ExpiresAt := unix (pm_ExpiresAt row)\<rparr>) s2)))))"

section \<open>The download\<close>

text \<open>
  The answers of \<open>handleFileDownload\<close>: a status with an error text, or 200 with the body
  streamed (\<open>None\<close> when the reader fails on its first read).
\<close>

datatype download_answer = DownloadRefused nat string | DownloadServed "string option"

definition handleFileDownload :: "env \<Rightarrow> string \<Rightarrow> string \<Rightarrow> relay \<Rightarrow> download_answer" where
  "handleFileDownload e http_method token s =
     (if http_method \<noteq> ''GET'' then DownloadRefused 405 ''Method not allowed''
      else if token = [] then DownloadRefused 400 ''Missing token''
      else (case pg s of
              None \<Rightarrow> DownloadRefused 503 ''File storage is not configured''
            | Some db \<Rightarrow>
                (case GetFileToken e token (rdb s) of
                   Inl _ \<Rightarrow> DownloadRefused 500 ''Token lookup failed''
                 | Inr (messageID, userID) \<Rightarrow>
                     if messageID = [] \<or> userID = [] then DownloadRefused 403 ''Invalid or expired token''
                     else (case GetFileMessage e messageID userID db of
                             Inl _ \<Rightarrow> DownloadRefused 500 ''Lookup failed''
                           | Inr None \<Rightarrow> DownloadRefused 404 ''File is no longer available''
                           | Inr (Some row) \<Rightarrow>
                               (case pm_BucketURL row of
                                  None \<Rightarrow> DownloadRefused 404 ''File is no longer available''
                                | Some url \<Rightarrow>
                                    let key = storageKeyFromURL url in
                                    if key = [] then DownloadRefused 404 ''File is no longer available''
                                    else (case Download e key (storage s) of
                                            Inl _ \<Rightarrow> DownloadRefused 500 ''Failed to read file''
                                          | Inr body \<Rightarrow> DownloadServed body))))))"

section \<open>The acknowledgement\<close>

text \<open>
  The rows of \<open>SELECT ... WHERE id\<close>. Scanning a NULL \<open>bucket_url\<close> into a Go string is an error,
  so an inline message is not acknowledged here.
\<close>

definition select_by_id :: "string \<Rightarrow> PostgresClient \<Rightarrow> PGMessage option" where
  "select_by_id i db = find (\<lambda>m. pm_ID m = i) (messages db)"

text \<open>
  The three stages of an accepted acknowledgement, in the order of the code: the row, the
  count, the object.
\<close>

definition ack_delete_row :: "env \<Rightarrow> string \<Rightarrow> relay \<Rightarrow> relay" where
  "ack_delete_row e i s = snd (on_pg (DeleteMessage e i) s)"

definition ack_unreferenced :: "env \<Rightarrow> string \<Rightarrow> relay \<Rightarrow> bool" where
  "ack_unreferenced e bucketURL s =
     (case CountMessagesByBucket e bucketURL (the (pg s)) of
        Inl _ \<Rightarrow> False
      | Inr remaining \<Rightarrow> \<not> remaining > 0)"

definition ack_delete_object :: "env \<Rightarrow> string \<Rightarrow> relay \<Rightarrow> relay" where
  "ack_delete_object e bucketURL s =
     snd (on_storage (Storage_Delete e (storageKeyFromURL bucketURL)) s)"

definition handleFileReceived :: "env \<Rightarrow> nat \<Rightarrow> WSMessage \<Rightarrow> relay \<Rightarrow> relay" where
  "handleFileReceived e p msg s =
     (if m_MessageID msg = [] then s
      else (case pg s of
              None \<Rightarrow> s
            | Some db \<Rightarrow>
                if fault e (Pg OpQueryMessageOwner (m_MessageID msg)) then s
                else (case select_by_id (m_MessageID msg) db of
                        None \<Rightarrow> s
                      | Some row \<Rightarrow>
                          (case pm_BucketURL row of
                             None \<Rightarrow> s
                           | Some bucketURL \<Rightarrow>
                               if pm_RecipientID row \<noteq> cid s p then
                                 SendJSON p (ws_error ''Unauthorized to acknowledge this file'') s
                               else
                                 let s1 = ack_delete_row e (pm_ID row) s in
                                 if storageKeyFromURL bucketURL = [] then s1
                                 else if ack_unreferenced e bucketURL s1
                                 then ack_delete_object e bucketURL s1 else s1))))"

section \<open>The cleanup worker\<close>

definition delete_objects :: "env \<Rightarrow> string list \<Rightarrow> relay \<Rightarrow> relay" where
  "delete_objects e urls s =
     fold (\<lambda>url s. let key = storageKeyFromURL url in
                   if key = [] then s else snd (on_storage (Storage_Delete e key) s)) urls s"

text \<open>One tick. A failed prune of the messages skips the stories of that tick.\<close>

definition cleanup_tick :: "env \<Rightarrow> relay \<Rightarrow> relay" where
  "cleanup_tick e s =
     (if pg s = None then s
      else (case on_pg (PruneExpiredMessages e) s of
              (Inl _, s1) \<Rightarrow> s1
            | (Inr deletedURLs, s1) \<Rightarrow>
                let s2 = delete_objects e deletedURLs s1 in
                (case on_pg (PruneExpiredStories e) s2 of
                   (Inl _, s3) \<Rightarrow> s3
                 | (Inr storyDeletedURLs, s3) \<Rightarrow> delete_objects e storyDeletedURLs s3)))"

end
