(* ===== verification/Ws_Stories.thy ===== *)
theory Ws_Stories
  imports Ws_Files
begin

text \<open>
  Stories over the authenticated socket (handlers.go): posting against the weekly budget, the
  feed, reactions and deletion. Then the switch of \<open>handleWSMessage\<close> and one turn of
  \<open>readPump\<close>, which reach all of the handlers (websocket.go).
\<close>

definition maxMediaMetaBytes :: nat where "maxMediaMetaBytes = 2048"
definition maxFeedContacts :: nat where "maxFeedContacts = 500"
definition maxEmojiRunes :: nat where "maxEmojiRunes = 16"

definition story_error :: "string \<Rightarrow> string \<Rightarrow> WSMessage" where
  "story_error t text = (frame t)\<lparr>m_Message := text\<rparr>"

section \<open>Posting\<close>

definition handlePostStoryWS :: "env \<Rightarrow> nat \<Rightarrow> WSMessage \<Rightarrow> relay \<Rightarrow> relay" where
  "handlePostStoryWS e p msg s =
     (if m_StoryType msg = [] \<or> m_CiphertextB64 msg = [] then
        SendJSON p (story_error ''POST_STORY_ERROR'' ''Missing story_type or ciphertext_b64'') s
      else if length (m_MediaMeta msg) > maxMediaMetaBytes then
        SendJSON p (story_error ''POST_STORY_ERROR'' ''Media metadata too large'') s
      else if pg s = None then
        SendJSON p (story_error ''POST_STORY_ERROR'' ''PostgreSQL storage unavailable'') s
      else
        let (sub, s1) = checkPremiumSubscription e (cid s p) s;
            isPlus = (case sub of Inl _ \<Rightarrow> False | Inr b \<Rightarrow> b);
            bytesUsed = int (length (m_CiphertextB64 msg) + length (m_MediaMeta msg))
        in (case on_pg (ConsumeSocialBudget e (cid s p) bytesUsed isPlus) s1 of
              (Inl _, s2) \<Rightarrow>
                SendJSON p (story_error ''POST_STORY_ERROR'' ''Database error checking weekly budget'') s2
            | (Inr (allowed, used, maxBytes), s2) \<Rightarrow>
                if \<not> allowed then
                  SendJSON p ((story_error ''POST_STORY_ERROR'' ''Weekly social budget quota exceeded'')
                    \<lparr>m_BytesUsed := used, m_MaxBytes := maxBytes\<rparr>) s2
                else
                  let ttl = 24 * Hour;
                      (sid, s3) = uuid_New s2
                  in (case on_pg (PostStory e sid (cid s p) (m_StoryType msg) (m_CiphertextB64 msg) None
                                    (m_MediaMeta msg) bytesUsed ttl) s3 of
                        (Inl _, s4) \<Rightarrow> SendJSON p (story_error ''POST_STORY_ERROR'' ''Failed to store story'') s4
                      | (Inr storyID, s4) \<Rightarrow>
                          SendJSON p ((frame ''POST_STORY_OK'')
                            \<lparr>m_StoryID := storyID, m_BytesUsed := used, m_MaxBytes := maxBytes,
                             m_ExpiresAt := unix (now e + ttl)\<rparr>) s4)))"

section \<open>The feed and the reactions\<close>

text \<open>A gate that fails open: only a definite refusal stops the caller.\<close>

definition action_refused :: "env \<Rightarrow> string \<Rightarrow> relay \<Rightarrow> bool \<times> relay" where
  "action_refused e key s =
     (let (allowed, s1) = on_rdb (AllowAction e key (2 * Second)) s in (allowed = Inr False, s1))"

definition handleFetchStoriesWS :: "env \<Rightarrow> nat \<Rightarrow> WSMessage \<Rightarrow> relay \<Rightarrow> relay" where
  "handleFetchStoriesWS e p msg s =
     (if length (m_Contacts msg) > maxFeedContacts then
        SendJSON p (story_error ''STORIES_ERROR'' ''Too many contacts'') s
      else
        let (refused, s1) = action_refused e (''storyfeed:'' @ cid s p) s in
        if refused then
          SendJSON p (story_error ''STORIES_ERROR'' (''Fetching too fast '' @ em_dash @ '' slow down'')) s1
        else (case pg s1 of
                None \<Rightarrow> SendJSON p (story_error ''STORIES_ERROR'' ''PostgreSQL storage unavailable'') s1
              | Some db \<Rightarrow>
                  let senders = cid s p # m_Contacts msg in
                  (case GetStoriesFeed e senders db of
                     Inl _ \<Rightarrow> SendJSON p (story_error ''STORIES_ERROR'' ''Failed to fetch feed'') s1
                   | Inr ss \<Rightarrow> SendJSON p ((frame ''STORIES_FEED'')\<lparr>m_Stories := ss\<rparr>) s1)))"

text \<open>
  \<open>utf8.RuneCountInString\<close>: one rune for each well-formed sequence, and one for each byte
  that starts none.
\<close>

definition in_range :: "nat \<Rightarrow> nat \<Rightarrow> char \<Rightarrow> bool" where
  "in_range lo hi c = (lo \<le> (of_char c :: nat) \<and> (of_char c :: nat) \<le> hi)"

definition rune_length :: "string \<Rightarrow> nat" where
  "rune_length s =
     (case s of
        [] \<Rightarrow> 0
      | a # r \<Rightarrow>
          let cont = in_range 0x80 0xBF;
              nx = (\<lambda>i P. i < length r \<and> P (r ! i))
          in if in_range 0xC2 0xDF a \<and> nx 0 cont then 2
             else if in_range 0xE0 0xEF a \<and>
                     nx 0 (if in_range 0xE0 0xE0 a then in_range 0xA0 0xBF
                           else if in_range 0xED 0xED a then in_range 0x80 0x9F else cont) \<and>
                     nx 1 cont then 3
             else if in_range 0xF0 0xF4 a \<and>
                     nx 0 (if in_range 0xF0 0xF0 a then in_range 0x90 0xBF
                           else if in_range 0xF4 0xF4 a then in_range 0x80 0x8F else cont) \<and>
                     nx 1 cont \<and> nx 2 cont then 4
             else 1)"

lemma rune_length_pos: "0 < rune_length (a # r)"
  by (simp add: rune_length_def Let_def)

function RuneCountInString :: "string \<Rightarrow> nat" where
  "RuneCountInString s = (if s = [] then 0 else 1 + RuneCountInString (drop (rune_length s) s))"
  by pat_completeness auto
termination
  by (relation "measure length") (auto simp: neq_Nil_conv rune_length_pos)

declare RuneCountInString.simps [simp del]

definition handleStoryReactWS :: "env \<Rightarrow> nat \<Rightarrow> WSMessage \<Rightarrow> relay \<Rightarrow> relay" where
  "handleStoryReactWS e p msg s =
     (if m_StoryID msg = [] \<or> m_Emoji msg = [] then
        SendJSON p (story_error ''STORY_REACT_ERROR'' ''Missing story_id or emoji'') s
      else if RuneCountInString (m_Emoji msg) > maxEmojiRunes then
        SendJSON p (story_error ''STORY_REACT_ERROR'' ''Emoji too long'') s
      else if pg s = None then
        SendJSON p (story_error ''STORY_REACT_ERROR'' ''PostgreSQL storage unavailable'') s
      else
        let (refused, s1) = action_refused e (''storyreact:'' @ cid s p @ '':'' @ m_StoryID msg) s in
        if refused then
          SendJSON p (story_error ''STORY_REACT_ERROR'' (''Reacting too fast '' @ em_dash @ '' slow down'')) s1
        else (case GetStory e (m_StoryID msg) (the (pg s1)) of
                Inr (Some story) \<Rightarrow>
                  let (rid, s2) = uuid_New s1 in
                  (case on_pg (AddOrUpdateStoryReaction e rid (m_StoryID msg) (cid s p) (m_Emoji msg)) s2 of
                     (Inl _, s3) \<Rightarrow>
                       SendJSON p (story_error ''STORY_REACT_ERROR'' ''Failed to record reaction'') s3
                   | (Inr _, s3) \<Rightarrow> SendJSON p (frame ''STORY_REACT_OK'') s3)
              | _ \<Rightarrow> SendJSON p (story_error ''STORY_REACT_ERROR'' ''Story not found or expired'') s1))"

definition handleStoryReactionsWS :: "env \<Rightarrow> nat \<Rightarrow> WSMessage \<Rightarrow> relay \<Rightarrow> relay" where
  "handleStoryReactionsWS e p msg s =
     (if m_StoryID msg = [] then
        SendJSON p (story_error ''STORY_REACTIONS_ERROR'' ''Missing story_id'') s
      else (case pg s of
              None \<Rightarrow> SendJSON p (story_error ''STORY_REACTIONS_ERROR'' ''PostgreSQL unavailable'') s
            | Some db \<Rightarrow>
                (case GetStory e (m_StoryID msg) db of
                   Inr (Some story) \<Rightarrow>
                     if st_SenderID story \<noteq> cid s p then
                       SendJSON p (story_error ''STORY_REACTIONS_ERROR''
                         ''Only story author can inspect reactions'') s
                     else (case GetStoryReactions e (m_StoryID msg) db of
                             Inl _ \<Rightarrow> SendJSON p (story_error ''STORY_REACTIONS_ERROR''
                                        ''Failed to query reactions'') s
                           | Inr rs \<Rightarrow>
                               SendJSON p ((frame ''STORY_REACTIONS'')
                                 \<lparr>m_StoryID := m_StoryID msg, m_Reactions := rs\<rparr>) s)
                 | _ \<Rightarrow> SendJSON p (story_error ''STORY_REACTIONS_ERROR'' ''Story not found or expired'') s)))"

definition handleDeleteStoryWS :: "env \<Rightarrow> nat \<Rightarrow> WSMessage \<Rightarrow> relay \<Rightarrow> relay" where
  "handleDeleteStoryWS e p msg s =
     (if m_StoryID msg = [] then
        SendJSON p (story_error ''DELETE_STORY_ERROR'' ''Missing story_id'') s
      else if pg s = None then
        SendJSON p (story_error ''DELETE_STORY_ERROR'' ''PostgreSQL unavailable'') s
      else (case on_pg (DeleteStory e (m_StoryID msg) (cid s p)) s of
              (Inl _, s1) \<Rightarrow> SendJSON p (story_error ''DELETE_STORY_ERROR'' ''Failed to delete story'') s1
            | (Inr _, s1) \<Rightarrow> SendJSON p ((frame ''DELETE_STORY_OK'')\<lparr>m_StoryID := m_StoryID msg\<rparr>) s1))"

section \<open>Dispatch\<close>

definition handleWSMessage :: "env \<Rightarrow> nat \<Rightarrow> WSMessage \<Rightarrow> relay \<Rightarrow> relay" where
  "handleWSMessage e p msg s =
     (let t = m_Type msg in
      if t = ''SEND_MESSAGE'' then handleSendMessage e p msg s
      else if t = ''BROADCAST_GROUP_MESSAGE'' then handleBroadcastGroupMessage e p msg s
      else if t = ''TYPING_STATUS'' then handleTypingStatus p msg s
      else if t = ''NUKE_RECIPIENT'' then handleNukeRecipient e p msg s
      else if t = ''ACK_NUKE'' then handleAckNuke e p msg s
      else if t = ''FILE_RECEIVED'' then handleFileReceived e p msg s
      else if t = ''REQUEST_FILE'' then handleRequestFile e p msg s
      else if t = ''REQUEST_PENDING_FILES'' then resendPendingFileOffers e p s
      else if t = ''POST_STORY'' then handlePostStoryWS e p msg s
      else if t = ''FETCH_STORIES'' then handleFetchStoriesWS e p msg s
      else if t = ''STORY_REACT'' then handleStoryReactWS e p msg s
      else if t = ''FETCH_STORY_REACTIONS'' then handleStoryReactionsWS e p msg s
      else if t = ''DELETE_STORY'' then handleDeleteStoryWS e p msg s
      else s)"

text \<open>
  The read limit set at connect, and one turn of the loop of \<open>readPump\<close> on a frame that
  \<open>json.Unmarshal\<close> decodes (\<open>Some\<close>) or refuses (\<open>None\<close>); the result says whether the loop goes on.
\<close>

definition read_limit :: "env \<Rightarrow> nat \<Rightarrow> relay \<Rightarrow> int \<times> relay" where
  "read_limit e p s =
     (case checkPremiumSubscription e (cid s p) s of
        (Inr True, s1) \<Rightarrow> (plusMaxPayload + 6 * 1024 * 1024, s1)
      | (_, s1) \<Rightarrow> (freeMaxPayload + 2 * 1024 * 1024, s1))"

definition readPump_turn :: "env \<Rightarrow> nat \<Rightarrow> WSMessage option \<Rightarrow> relay \<Rightarrow> bool \<times> relay" where
  "readPump_turn e p decoded s =
     (let (ok, s1) = flood_guard e p s in
      if \<not> ok then
        (False, SendJSON p (ws_error (''Rate limit exceeded '' @ em_dash @ '' slow down'')) s1)
      else (case decoded of
              None \<Rightarrow> (True, SendJSON p (ws_error ''Invalid JSON format'') s1)
            | Some msg \<Rightarrow> (True, handleWSMessage e p msg s1)))"

end
