(* ===== verification/Ws_Effects.thy ===== *)
theory Ws_Effects
  imports Ws_Stories
begin

text \<open>
  What a frame of one client can do to the rest of the relay. Every handler is a sequence of
  the basic effects of the inductive relation \<open>caused b L x p\<close>, the effects a client \<open>p\<close> with
  identity \<open>x\<close> is entitled to; facts about all frames follow by rule induction on it. The flag
  \<open>b\<close> says whether the effects may touch stored files: without it no object changes and no row
  refers to a new object. The set \<open>L\<close> holds the keys that a NUKE frame may lock.
\<close>

section \<open>Entitled changes of the stores\<close>

definition queue_of :: "RedisClient \<Rightarrow> string \<Rightarrow> memoryZ list" where
  "queue_of r u = (case memoryQueue r u of None \<Rightarrow> [] | Some q \<Rightarrow> q)"

lemma queue_of_upd [simp]:
  "queue_of (r\<lparr>memoryQueue := (memoryQueue r)(u \<mapsto> q)\<rparr>) v = (if v = u then q else queue_of r v)"
  "queue_of (r\<lparr>memoryBlocks := b\<rparr>) v = queue_of r v"
  "queue_of (r\<lparr>memoryNukes := n\<rparr>) v = queue_of r v"
  "queue_of (r\<lparr>memoryEntitlements := h\<rparr>) v = queue_of r v"
  "queue_of (r\<lparr>memoryTunnels := t\<rparr>) v = queue_of r v"
  by (simp_all add: queue_of_def)

definition queue_from :: "string \<Rightarrow> RedisClient \<Rightarrow> RedisClient \<Rightarrow> bool" where
  "queue_from x r r' =
     ((\<forall>u z. z \<in> set (queue_of r' u) \<longrightarrow> z \<in> set (queue_of r u) \<or> z_senderID z = x) \<and>
      memoryPushTokens r' = memoryPushTokens r \<and> memoryBans r' = memoryBans r \<and>
      memoryIssuance r' = memoryIssuance r \<and> memoryNonces r' = memoryNonces r)"

definition row_ids :: "PostgresClient \<Rightarrow> string list" where
  "row_ids d = map pm_ID (messages d)"

definition rows_from :: "string \<Rightarrow> PostgresClient \<Rightarrow> PostgresClient \<Rightarrow> bool" where
  "rows_from x d d' =
     ((\<forall>m \<in> set (messages d'). m \<in> set (messages d) \<or> pm_SenderID m = x) \<and>
      (distinct (row_ids d) \<longrightarrow> distinct (row_ids d') \<and>
        (\<forall>m \<in> set (messages d). m \<in> set (messages d') \<or> pm_RecipientID m = x \<or> pm_SenderID m = x)) \<and>
      (\<forall>st \<in> set (stories d'). st \<in> set (stories d) \<or> st_SenderID st = x) \<and>
      (\<forall>st \<in> set (stories d). st \<in> set (stories d') \<or> st_SenderID st = x) \<and>
      (\<forall>r \<in> set (story_reactions d'). r \<in> set (story_reactions d) \<or> re_ReactorID r = x) \<and>
      (\<forall>u. u \<noteq> x \<longrightarrow> social_budgets d' u = social_budgets d u) \<and>
      device_tokens d' = device_tokens d \<and> entitlements d' = entitlements d)"

lemma queue_from_refl [simp]: "queue_from x r r"
  by (simp add: queue_from_def)

lemma queue_from_trans: "queue_from x r r' \<Longrightarrow> queue_from x r' r'' \<Longrightarrow> queue_from x r r''"
  by (auto simp: queue_from_def)

lemma rows_from_refl [simp]: "rows_from x d d"
  by (auto simp: rows_from_def)

lemma rows_from_trans: "rows_from x d d' \<Longrightarrow> rows_from x d' d'' \<Longrightarrow> rows_from x d d''"
  unfolding rows_from_def by (intro conjI; metis)

lemma in_set_lastn: "z \<in> set (lastn n xs) \<Longrightarrow> z \<in> set xs"
  by (auto simp: lastn_def dest: in_set_dropD)

lemma queue_from_AddMessageToQueue [simp]:
  "queue_from x r (snd (AddMessageToQueue e u x env ct ttl r))"
proof (cases "fault e (Rdb OpAddMessageToQueue u)")
  case False
  define z0 where "z0 = \<lparr>z_senderID = x, z_envelope = env, z_contentType = ct, z_expires = now e + ttl\<rparr>"
  define q where "q = lastn maxQueueLen (filter (\<lambda>z. now e < z_expires z) (queue_of r u @ [z0]))"
  have "snd (AddMessageToQueue e u x env ct ttl r) = r\<lparr>memoryQueue := (memoryQueue r)(u \<mapsto> q)\<rparr>"
    unfolding q_def z0_def queue_of_def by (simp only: AddMessageToQueue_up [OF False] snd_conv)
  moreover have "\<forall>z \<in> set q. z \<in> set (queue_of r u) \<or> z_senderID z = x"
    unfolding q_def by (auto simp: z0_def split: if_splits dest!: in_set_lastn)
  ultimately show ?thesis by (simp add: queue_from_def)
qed (simp add: AddMessageToQueue_def)

lemma queue_from_ops [simp]:
  "queue_from x r (snd (AllowNuke e u n r))"
  "queue_from x r (snd (AllowLargeUpload e u d r))"
  "queue_from x r (snd (AllowAction e k d r))"
  "queue_from x r (snd (BlockQueue e u r))"
  "queue_from x r (snd (UnblockQueue e u r))"
  "queue_from x r (snd (rdb_StoreEntitlement e u h n r))"
  "queue_from x r (snd (StoreFileToken e t i u r))"
  by (auto simp: queue_from_def AllowNuke_def AllowLargeUpload_def AllowAction_def BlockQueue_def
      UnblockQueue_def rdb_StoreEntitlement_def StoreFileToken_def Let_def split: option.splits)

lemma queue_from_Fetch [simp]: "queue_from x r (snd (FetchAndClearQueue e u r))"
  by (auto simp: queue_from_def FetchAndClearQueue_def queue_of_def split: option.splits if_splits)

lemma queue_from_premium [simp]:
  "queue_from x (rdb s) (rdb (snd (checkPremiumSubscription e u s)))"
  by (rule disjE [OF checkPremium_rdb [of e u s]]) (auto simp: queue_from_def)

lemma rows_from_store [simp]:
  "rows_from x d (snd (StoreMessageSized e i rcp x env b ct ttl sz om d))"
  "rows_from x d (snd (StoreMessage e i rcp x env b ct ttl d))"
  by (auto simp: rows_from_def StoreMessage_def StoreMessageSized_def row_ids_def Let_def)

text \<open>Storing a message and deleting it again by its fresh id leaves the other rows alone.\<close>

lemma rows_from_store_delete:
  assumes "StoreMessage e i rcp x env b ct ttl d = (Inr i', d')"
  shows "rows_from x d' (snd (DeleteMessage e' i' d'))"
proof -
  obtain row where row: "d' = d\<lparr>messages := messages d @ [row]\<rparr>" "pm_ID row = i'" "pm_SenderID row = x"
      "i' \<notin> pm_ID ` set (messages d)"
    using assms by (auto simp: StoreMessage_def StoreMessageSized_def Let_def split: if_splits)
  show ?thesis
  proof (cases "fault e' (Pg OpDeleteMessage i')")
    case False
    have "filter (\<lambda>m. pm_ID m \<noteq> i') (messages d) = messages d"
      using row(4) by (auto intro!: filter_True)
    then have "snd (DeleteMessage e' i' d') = d'\<lparr>messages := messages d\<rparr>"
      using False row by (simp add: DeleteMessage_def)
    then show ?thesis using row(1,3) by (simp add: rows_from_def row_ids_def)
  qed (simp add: DeleteMessage_def)
qed

lemma find_SomeD: "find P xs = Some x \<Longrightarrow> x \<in> set xs \<and> P x"
  by (auto simp: find_Some_iff)

lemma rows_from_ack:
  assumes "select_by_id i d = Some row" "pm_RecipientID row = x"
  shows "rows_from x d (snd (DeleteMessage e (pm_ID row) d))"
proof -
  have row: "row \<in> set (messages d)"
    using assms(1) by (auto simp: select_by_id_def dest: find_SomeD)
  have "distinct (row_ids d) \<Longrightarrow> m \<in> set (messages d) \<Longrightarrow> pm_ID m = pm_ID row \<Longrightarrow> m = row" for m
    using row by (auto simp: row_ids_def distinct_map inj_on_def)
  then show ?thesis
    using assms(2) row by (auto simp: rows_from_def DeleteMessage_def row_ids_def distinct_map inj_on_def)
qed

lemma rows_from_inline [simp]: "rows_from x d (snd (DeleteInlineMessages e x d))"
  by (auto simp: rows_from_def DeleteInlineMessages_def row_ids_def distinct_map inj_on_def)

lemma rows_from_budget [simp]: "rows_from x d (snd (ConsumeSocialBudget e x n b d))"
  by (auto simp: rows_from_def ConsumeSocialBudget_def GetOrCreateSocialBudget_def row_ids_def Let_def
      split: option.splits sum.splits prod.splits if_splits)

lemma rows_from_story [simp]: "rows_from x d (snd (PostStory e i x t c b mm n ttl d))"
  by (auto simp: rows_from_def PostStory_def row_ids_def Let_def)

lemma rows_from_reaction [simp]: "rows_from x d (snd (AddOrUpdateStoryReaction e i sid x em d))"
  by (auto simp: rows_from_def AddOrUpdateStoryReaction_def row_ids_def)

lemma rows_from_delete_story [simp]: "rows_from x d (snd (DeleteStory e i x d))"
  by (auto simp: rows_from_def DeleteStory_def delete_stories_def row_ids_def)

section \<open>References to objects\<close>

definition row_urls :: "PostgresClient \<Rightarrow> string set" where
  "row_urls d = {url. \<exists>m \<in> set (messages d). pm_BucketURL m = Some url}"

definition no_new_urls :: "PostgresClient \<Rightarrow> PostgresClient \<Rightarrow> bool" where
  "no_new_urls d d' =
     (row_urls d' \<subseteq> row_urls d \<and>
      (\<forall>st \<in> set (stories d'). st_BucketURL st \<noteq> None \<longrightarrow> st \<in> set (stories d)))"

lemma no_new_urls_ops [simp]:
  "no_new_urls d d"
  "no_new_urls d (snd (StoreMessage e i rcp x env None ct ttl d))"
  "no_new_urls d (snd (DeleteMessage e i d))"
  "no_new_urls d (snd (DeleteInlineMessages e u d))"
  "no_new_urls d (snd (ConsumeSocialBudget e x n pl d))"
  "no_new_urls d (snd (PostStory e i x t c None mm n ttl d))"
  "no_new_urls d (snd (AddOrUpdateStoryReaction e i sid x em d))"
  "no_new_urls d (snd (DeleteStory e i x d))"
  by (auto simp: no_new_urls_def row_urls_def StoreMessage_def StoreMessageSized_def DeleteMessage_def
      DeleteInlineMessages_def ConsumeSocialBudget_def GetOrCreateSocialBudget_def PostStory_def
      AddOrUpdateStoryReaction_def DeleteStory_def delete_stories_def Let_def
      split: option.splits sum.splits prod.splits if_splits)

lemma no_new_urls_trans: "no_new_urls d d' \<Longrightarrow> no_new_urls d' d'' \<Longrightarrow> no_new_urls d d''"
  unfolding no_new_urls_def by blast

section \<open>The cached subscriptions and the puzzle counters\<close>

text \<open>
  What a step may do to the cache of subscriptions: an expiry appears only if Postgres has the
  subscription and it runs as long, or under a key that \<open>L\<close> allows to be locked as a queue. The strikes and
  cooldowns of the puzzle are left alone.
\<close>

definition covered :: "PostgresClient option \<Rightarrow> string \<Rightarrow> int \<Rightarrow> bool" where
  "covered db u y = (\<exists>d ent. db = Some d \<and> entitlements d u = Some ent \<and> y \<le> ent_ExpiresAt ent)"

definition cache_from :: "string set \<Rightarrow> PostgresClient option \<Rightarrow> RedisClient \<Rightarrow> RedisClient \<Rightarrow> bool" where
  "cache_from L db r r' =
     (memoryChStrikes r' = memoryChStrikes r \<and> memoryChCooldown r' = memoryChCooldown r \<and>
      (\<forall>u y. memoryBlocks r' (''entitlement:'' @ u) = Some y \<longrightarrow>
         memoryBlocks r (''entitlement:'' @ u) = Some y \<or> ''entitlement:'' @ u \<in> L \<or> covered db u y))"

lemma cache_from_refl [simp]: "cache_from L db r r"
  by (simp add: cache_from_def)

lemma cache_from_trans: "cache_from L db r r' \<Longrightarrow> cache_from L db r' r'' \<Longrightarrow> cache_from L db r r''"
  by (auto simp: cache_from_def)

lemma cache_from_ops [simp]:
  "cache_from L db r (snd (AddMessageToQueue e u x env ct ttl r))"
  "cache_from L db r (snd (FetchAndClearQueue e u r))"
  "cache_from L db r (snd (AllowNuke e u n r))"
  "cache_from L db r (snd (AllowLargeUpload e u n r))"
  "cache_from L db r (snd (UnblockQueue e u r))"
  "cache_from L db r (snd (StoreFileToken e t i u r))"
  by (auto simp: cache_from_def AddMessageToQueue_def FetchAndClearQueue_def AllowNuke_def AllowLargeUpload_def
      UnblockQueue_def StoreFileToken_def Let_def split: option.splits if_splits)

lemma cache_from_action [simp]:
  "(\<And>u. k \<noteq> ''entitlement:'' @ u) \<Longrightarrow> cache_from L db r (snd (AllowAction e k n r))"
  by (auto simp: cache_from_def AllowAction_def Let_def)

lemma cache_from_lock [simp]: "v \<in> L \<Longrightarrow> cache_from L db r (snd (BlockQueue e v r))"
  by (auto simp: cache_from_def BlockQueue_def)

lemma premium_covered:
  "snd (checkPremiumSubscription e u s) = s \<or>
   (\<exists>r. snd (checkPremiumSubscription e u s) = s\<lparr>rdb := r\<rparr> \<and> queue_from x (rdb s) r \<and> cache_from L (pg s) (rdb s) r)"
proof -
  have cov: "covered (Some d) u (now e + time_Until (now e) (ent_ExpiresAt ent))"
    if "GetEntitlement e u d = Inr (Some ent)" for d ent
    using that time_Until_le by (fastforce simp: covered_def GetEntitlement_def split: option.splits if_splits)
  have cached: "cache_from L (Some d) (rdb s) (snd (rdb_StoreEntitlement e u h (time_Until (now e) (ent_ExpiresAt ent)) (rdb s)))"
    if "GetEntitlement e u d = Inr (Some ent)" for d ent h
    using cov [OF that] by (auto simp: cache_from_def rdb_StoreEntitlement_def)
  show ?thesis
    by (auto simp: checkPremiumSubscription_def Let_def on_stores split: option.splits sum.splits)
      (metis queue_from_ops(6) cached)+
qed

section \<open>The effects a client is entitled to\<close>

inductive caused :: "bool \<Rightarrow> string set \<Rightarrow> string \<Rightarrow> nat \<Rightarrow> relay \<Rightarrow> relay \<Rightarrow> bool" for b L x p where
  caused_refl: "caused b L x p s s"
| to_self: "caused b L x p s s' \<Longrightarrow> caused b L x p s (SendJSON p v s')"
| to_other: "caused b L x p s s' \<Longrightarrow> m_SenderID v = x \<Longrightarrow> caused b L x p s (SendJSON q v s')"
| on_redis: "caused b L x p s s' \<Longrightarrow> queue_from x (rdb s') r \<Longrightarrow> cache_from L (pg s') (rdb s') r \<Longrightarrow>
    caused b L x p s (s'\<lparr>rdb := r\<rparr>)"
| on_postgres: "caused b L x p s s' \<Longrightarrow> pg s' = Some d \<Longrightarrow> rows_from x d d' \<Longrightarrow>
    b \<or> no_new_urls d d' \<Longrightarrow> caused b L x p s (s'\<lparr>pg := Some d'\<rparr>)"
| on_objects: "caused b L x p s s' \<Longrightarrow> b \<Longrightarrow> caused b L x p s (s'\<lparr>storage := st\<rparr>)"
| on_supply: "caused b L x p s s' \<Longrightarrow> drawn s' \<le> n \<Longrightarrow> caused b L x p s (s'\<lparr>drawn := n\<rparr>)"
| on_wakes: "caused b L x p s s' \<Longrightarrow> caused b L x p s (go_sendWakePush rid x ct s')"
| on_tokens: "caused b L x p s s' \<Longrightarrow> caused b L x p s (charge_tokens p n s')"

lemma caused_trans: "caused b L x p s' s'' \<Longrightarrow> caused b L x p s s' \<Longrightarrow> caused b L x p s s''"
  by (induction rule: caused.induct) (auto intro: caused.intros)

lemma charge_tokens_frame [simp]:
  "rdb (charge_tokens p n s) = rdb s" "pg (charge_tokens p n s) = pg s"
  "storage (charge_tokens p n s) = storage s" "clients (charge_tokens p n s) = clients s"
  "cl_id (conns (charge_tokens p n s) q) = cl_id (conns s q)"
  "cl_send (conns (charge_tokens p n s) q) = cl_send (conns s q)"
  "next_conn (charge_tokens p n s) = next_conn s" "uuid_supply (charge_tokens p n s) = uuid_supply s"
  "rand_supply (charge_tokens p n s) = rand_supply s" "drawn (charge_tokens p n s) = drawn s"
  by (simp_all add: charge_tokens_def)

lemma caused_frame:
  "caused b L x p s s' \<Longrightarrow> cl_id (conns s' q) = cl_id (conns s q) \<and> next_conn s' = next_conn s \<and>
     uuid_supply s' = uuid_supply s \<and> (pg s' = None) = (pg s = None)"
  by (induction rule: caused.induct) auto

lemma caused_hub_ok: "caused b L x p s s' \<Longrightarrow> hub_ok s \<Longrightarrow> hub_ok s'"
  by (induction rule: caused.induct) auto

lemma caused_queues: "caused b L x p s s' \<Longrightarrow> queue_from x (rdb s) (rdb s')"
  by (induction rule: caused.induct) (auto intro: queue_from_trans)

lemma caused_rows: "caused b L x p s s' \<Longrightarrow> pg s = Some d \<Longrightarrow> \<exists>d'. pg s' = Some d' \<and> rows_from x d d'"
  by (induction rule: caused.induct) (auto intro: rows_from_trans)

lemma SendJSON_cl_send:
  "cl_send (conns (SendJSON p v s) q) = cl_send (conns s q) \<or>
   q = p \<and> cl_send (conns (SendJSON p v s) q) = cl_send (conns s q) @ [v]"
  by (auto simp: SendJSON_def Let_def)

lemma caused_frames:
  "caused b L x p s s' \<Longrightarrow> q \<noteq> p \<Longrightarrow>
    \<exists>fs. cl_send (conns s' q) = cl_send (conns s q) @ fs \<and> (\<forall>f \<in> set fs. m_SenderID f = x)"
proof (induction rule: caused.induct)
  case (to_self s s' v)
  then show ?case using SendJSON_cl_send [of p v s' q] by auto
next
  case (to_other s s' v r)
  then obtain fs where fs: "cl_send (conns s' q) = cl_send (conns s q) @ fs" "\<forall>f \<in> set fs. m_SenderID f = x"
    by blast
  then have "cl_send (conns (SendJSON r v s') q) = cl_send (conns s q) @ fs \<or>
      cl_send (conns (SendJSON r v s') q) = cl_send (conns s q) @ (fs @ [v])"
    using SendJSON_cl_send [of r v s' q] by auto
  moreover have "\<forall>f \<in> set (fs @ [v]). m_SenderID f = x" using fs to_other by simp
  ultimately show ?case using fs by blast
qed auto

section \<open>Each handler\<close>

lemma caused_premium:
  "caused b L x p s (snd (checkPremiumSubscription e u s))"
proof (rule disjE [OF premium_covered [of e u s x L]], goal_cases)
  case 2
  then show ?case using on_redis [OF caused_refl, of x s] by metis
qed (simp add: caused_refl)

lemma caused_then:
  "caused b L x p s s' \<Longrightarrow> (cl_id (conns s' p) = cl_id (conns s p) \<Longrightarrow> caused b L x p s' s'') \<Longrightarrow> caused b L x p s s''"
  using caused_trans caused_frame by blast

lemma new_message_sender [simp]: "m_SenderID (new_message x env ct i) = x"
  by (simp add: new_message_def)

lemma file_offer_sender [simp]: "m_SenderID (file_offer x ct i om n t) = x"
  by (simp add: file_offer_def)

lemma on_postgres':
  "caused b L x p s s' \<Longrightarrow> pg s' \<noteq> None \<Longrightarrow> rows_from x (the (pg s')) d' \<Longrightarrow>
    b \<or> no_new_urls (the (pg s')) d' \<Longrightarrow> caused b L x p s (s'\<lparr>pg := Some d'\<rparr>)"
  by (auto intro: on_postgres)

lemma rows_from_store_delete':
  "fst (StoreMessage e i rcp x env b ct ttl d) = Inr i' \<Longrightarrow>
   rows_from x (snd (StoreMessage e i rcp x env b ct ttl d))
     (snd (DeleteMessage e' i' (snd (StoreMessage e i rcp x env b ct ttl d))))"
  by (rule rows_from_store_delete [of e i rcp x env b ct ttl d]) (simp add: prod_eq_iff)

lemmas caused_intros = caused_refl to_self to_other on_redis on_postgres' on_objects on_supply on_wakes on_tokens

lemmas handler_simps = Let_def on_stores getClient_def uuid_New_def rand_Read_def randomHex_def

lemma caused_routeSmall:
  assumes "cid s p = x"
  shows "caused b L x p s (snd (routeSmallMessage e p rid env ct ttl s))"
proof (cases "pg s \<noteq> None \<and> isHighRAMLoad e")
  case True
  with assms show ?thesis
    by (auto simp: routeSmallMessage_def handler_simps split: sum.split option.split
        intro!: caused_intros rows_from_store_delete')
next
  case False
  with assms show ?thesis
    by (auto simp: routeSmallMessage_def handler_simps split: sum.split option.split intro!: caused_intros)
qed

lemma caused_gates:
  assumes "cid s p = x"
  shows "caused b L x p s (snd (sender_size_gates e p n s))"
proof -
  let ?s1 = "snd (if freeMaxPayload \<le> n then checkPremiumSubscription e (cid s p) s else (Inr True, s))"
  have s1: "caused b L x p s ?s1" by (auto intro: caused_premium caused_refl)
  have "caused b L x p s (?s1\<lparr>rdb := snd (AllowLargeUpload e (cid s p) largeUploadCooldown (rdb ?s1))\<rparr>)"
    by (rule on_redis [OF s1]) simp_all
  with s1 show ?thesis
    by (auto simp: sender_size_gates_def handler_simps split: sum.split bool.split prod.split intro: caused_refl)
qed

lemma caused_announce:
  "caused b L x p s (announce_file e rid x env ct mid om ttl s)"
  by (auto simp: announce_file_def handler_simps split: option.split intro!: caused_intros)

lemma caused_send_large:
  assumes "cid s p = x"
  shows "caused True L x p s (send_large e p msg ttl s)"
  using assms
  by (auto simp: send_large_def handler_simps split: sum.split option.split prod.split
      intro!: caused_intros caused_trans [OF caused_announce])

lemma caused_cid: "caused b L x p s s' \<Longrightarrow> cid s p = x \<Longrightarrow> cid s' p = x"
  using caused_frame by metis

lemma caused_holdTTL: "caused b L x p s (snd (holdTTLForRecipient e u s))"
  by (simp add: caused_premium)

lemma caused_handleSendMessage:
  assumes "cid s p = x"
  shows "caused True L x p s (handleSendMessage e p msg s)"
proof -
  obtain g s1 where g: "sender_size_gates e p (payload_size (m_Envelope msg)) s = (g, s1)" by fastforce
  have s1: "caused True L x p s s1" using caused_gates [OF assms] g by (metis snd_conv)
  obtain ttl s2 where t: "holdTTLForRecipient e (m_RecipientID msg) s1 = (ttl, s2)" by fastforce
  have s2: "caused True L x p s s2" using caused_trans [OF caused_holdTTL s1] t by (metis snd_conv)
  note c2 = caused_cid [OF s2 assms]
  obtain r s3 where r: "routeSmallMessage e p (m_RecipientID msg) (m_Envelope msg) (m_ContentType msg) ttl s2 = (r, s3)"
    by fastforce
  have "caused True L x p s s3" using caused_trans [OF caused_routeSmall [OF c2] s2] r by (metis snd_conv)
  moreover have "caused True L x p s (send_large e p msg ttl s2)"
    by (rule caused_trans [OF caused_send_large [OF c2] s2])
  ultimately show ?thesis
    using g s1 t r
    by (auto simp: handleSendMessage_def handler_simps split: sum.split bool.split option.split
        intro!: to_self intro: caused_refl)
qed

lemma caused_fan_out_small:
  "cid s p = x \<Longrightarrow> caused b L x p s (fan_out_small e p msg rids s)"
proof (induction rids arbitrary: s)
  case (Cons rid rids)
  obtain ttl s1 where t: "holdTTLForRecipient e rid s = (ttl, s1)" by fastforce
  have s1: "caused b L x p s s1" using caused_holdTTL [of _ L x p s e rid] t by simp
  let ?s2 = "snd (routeSmallMessage e p rid (m_Envelope msg) (m_ContentType msg) ttl s1)"
  have s2: "caused b L x p s ?s2"
    by (rule caused_trans [OF caused_routeSmall [OF caused_cid [OF s1 Cons.prems]] s1])
  show ?case
    using caused_trans [OF Cons.IH [OF caused_cid [OF s2 Cons.prems]] s2] Cons t
    by (auto split: sum.split bool.split)
qed (simp add: caused_refl)

lemma caused_fan_out_file:
  "cid s p = x \<Longrightarrow> pg s \<noteq> None \<Longrightarrow> caused True L x p s (snd (fan_out_file e p msg url om rids s))"
proof (induction rids arbitrary: s)
  case (Cons rid rids)
  obtain ttl s1 where t: "holdTTLForRecipient e rid s = (ttl, s1)" by fastforce
  have s1: "caused True L x p s s1" using caused_holdTTL [of _ L x p s e rid] t by simp
  have c1: "cid s1 p = x" by (rule caused_cid [OF s1 Cons.prems(1)])
  have p1: "pg s1 \<noteq> None" using caused_frame [OF s1] Cons.prems by simp
  let ?st = "StoreMessageSized e (uuid_supply s1 (drawn s1)) rid x None (Some url) (m_ContentType msg) ttl
      (payload_size (m_Envelope msg)) (case om of None \<Rightarrow> [] | Some om \<Rightarrow> om) (the (pg s1))"
  let ?s3 = "s1\<lparr>drawn := drawn s1 + 1, pg := Some (snd ?st)\<rparr>"
  have s3: "caused True L x p s ?s3"
    using on_postgres' [OF on_supply [OF s1, of "drawn s1 + 1"], of "snd ?st"] p1 by simp
  have IH: "caused True L x p s (snd (fan_out_file e p msg url om rids s'))"
    if "caused True L x p s s'" for s'
    by (rule caused_trans [OF Cons.IH that]) (use caused_cid [OF that] caused_frame [OF that] Cons.prems in auto)
  have s4: "caused True L x p s (announce_file e rid x (m_Envelope msg) (m_ContentType msg) mid om ttl ?s3)" for mid
    by (rule caused_trans [OF caused_announce s3])
  show ?case
    using IH [OF caused_refl] IH [OF s3] IH [OF s4] t c1 Cons.prems
    by (auto simp: handler_simps split_beta split: sum.split bool.split)
qed (simp add: caused_refl)

lemma caused_broadcastLargeFile:
  assumes "cid s p = x"
  shows "caused True L x p s (broadcastLargeFile e p rids msg s)"
proof (cases "pg s = None")
  case False
  let ?k = "uuid_supply s (drawn s)"
  let ?up = "Upload e ?k (m_Envelope msg) (storage s)"
  let ?s2 = "s\<lparr>drawn := drawn s + 1, storage := snd ?up\<rparr>"
  have s2: "caused True L x p s ?s2"
    using on_objects [OF on_supply [OF caused_refl [of True L x p s], of "drawn s + 1"], of "snd ?up"] by simp
  have "caused True L x p s (snd (fan_out_file e p msg url om rids ?s2))" for url om
    by (rule caused_trans [OF caused_fan_out_file s2]) (use assms False in auto)
  then show ?thesis
    using s2 False
    by (auto simp: broadcastLargeFile_def handler_simps split: sum.split prod.split intro!: to_self on_objects)
      (metis snd_conv on_objects)+
qed (auto simp: broadcastLargeFile_def intro!: caused_intros)

lemma caused_handleBroadcast:
  assumes "cid s p = x"
  shows "caused True L x p s (handleBroadcastGroupMessage e p msg s)"
proof -
  let ?rs = "dedupe_recipients x [] (m_Recipients msg)"
  let ?s1 = "charge_tokens p (int (length ?rs) - 1) s"
  have s1: "caused True L x p s ?s1" by (rule on_tokens [OF caused_refl])
  obtain g s2 where g: "sender_size_gates e p (payload_size (m_Envelope msg)) ?s1 = (g, s2)" by fastforce
  have s2: "caused True L x p s s2"
    using caused_trans [OF caused_gates s1] g caused_cid [OF s1 assms] by (metis snd_conv)
  note c2 = caused_cid [OF s2 assms]
  show ?thesis
    using g assms caused_trans [OF caused_broadcastLargeFile [OF c2] s2]
      caused_trans [OF caused_fan_out_small [OF c2] s2] s2
    by (auto simp: handleBroadcastGroupMessage_def Let_def split: option.split intro!: to_self intro: caused_refl)
qed

lemma caused_fold_self: "caused b L x p s (fold (SendJSON p) fs s)"
proof (induction fs arbitrary: s)
  case (Cons f fs)
  show ?case using caused_trans [OF Cons.IH to_self [OF caused_refl]] by simp
qed (simp add: caused_refl)

lemma caused_small_handlers:
  assumes "cid s p = x"
  shows "caused b L x p s (handleTypingStatus p msg s)" "caused b L x p s (handleAckNuke e p msg s)"
    "caused b L x p s (resendPendingFileOffers e p s)" "caused b L x p s (handleStoryReactionsWS e p msg s)"
    "caused b L x p s (handleFetchStoriesWS e p msg s)" "caused b L x p s (handleRequestFile e p msg s)"
  using assms
  by (auto simp: handleTypingStatus_def handleAckNuke_def resendPendingFileOffers_def handler_simps
      handleStoryReactionsWS_def handleFetchStoriesWS_def handleRequestFile_def
      action_refused_def caused_fold_self
      split: option.split sum.split bool.split prod.split intro!: caused_intros)

lemma caused_handleNukeRecipient:
  assumes "cid s p = x" "m_RecipientID msg \<in> L"
  shows "caused b L x p s (handleNukeRecipient e p msg s)"
proof -
  let ?r1 = "snd (AllowNuke e x nukeLimitPerHour (rdb s))"
  let ?r2 = "snd (BlockQueue e (m_RecipientID msg) ?r1)"
  let ?r3 = "snd (AddMessageToQueue e (m_RecipientID msg) x (m_NukeEnvelope msg) ''nuke'' (7 * 24 * Hour) ?r2)"
  have q1: "queue_from x (rdb s) ?r1" by simp
  have q2: "queue_from x (rdb s) ?r2" by (rule queue_from_trans [OF q1]) simp
  have q3: "queue_from x (rdb s) ?r3" by (rule queue_from_trans [OF q2]) simp
  have k1: "cache_from L (pg s) (rdb s) ?r1" by simp
  have k2: "cache_from L (pg s) (rdb s) ?r2" by (rule cache_from_trans [OF k1]) (simp add: assms(2))
  have k3: "cache_from L (pg s) (rdb s) ?r3" by (rule cache_from_trans [OF k2]) simp
  have "caused b L x p s (s\<lparr>rdb := ?r1\<rparr>)" "caused b L x p s (s\<lparr>rdb := ?r2\<rparr>)" "caused b L x p s (s\<lparr>rdb := ?r3\<rparr>)"
    by (rule on_redis [OF caused_refl]; fact q1 q2 q3 k1 k2 k3)+
  then show ?thesis
    using assms
    by (auto simp: handleNukeRecipient_def handler_simps split: option.split sum.split bool.split
        intro: caused_refl to_self to_other)
qed

lemma caused_handleFileReceived:
  assumes "cid s p = x"
  shows "caused True L x p s (handleFileReceived e p msg s)"
proof -
  have "caused True L x p s (ack_delete_row e (pm_ID row) s)"
    if "pg s = Some db" "select_by_id i db = Some row" "pm_RecipientID row = x" for db i row
    using that rows_from_ack [OF that(2,3)]
    by (auto simp: ack_delete_row_def on_stores intro!: on_postgres caused_refl)
  then show ?thesis
    using assms
    by (auto simp: handleFileReceived_def ack_delete_object_def handler_simps split: option.split
        intro: caused_refl intro!: to_self on_objects)
qed

lemma caused_story_handlers:
  assumes "cid s p = x"
  shows "caused b L x p s (handleDeleteStoryWS e p msg s)" "caused b L x p s (handleStoryReactWS e p msg s)"
  using assms
  by (auto simp: handleDeleteStoryWS_def handleStoryReactWS_def action_refused_def handler_simps
      split: option.split sum.split bool.split prod.split intro!: caused_intros)

lemma caused_handlePostStory:
  assumes "cid s p = x"
  shows "caused b L x p s (handlePostStoryWS e p msg s)"
proof (cases "pg s = None")
  case False
  obtain sub s1 where c: "checkPremiumSubscription e x s = (sub, s1)" by fastforce
  have s1: "caused b L x p s s1" using caused_premium [of _ L x p s e x] c by simp
  have p1: "pg s1 \<noteq> None" using caused_frame [OF s1] False by simp
  let ?plus = "case sub of Inl _ \<Rightarrow> False | Inr b \<Rightarrow> b"
  let ?n = "int (length (m_CiphertextB64 msg) + length (m_MediaMeta msg))"
  let ?b = "snd (ConsumeSocialBudget e x ?n ?plus (the (pg s1)))"
  let ?st = "snd (PostStory e (uuid_supply s1 (drawn s1)) x (m_StoryType msg) (m_CiphertextB64 msg) None
      (m_MediaMeta msg) ?n (24 * Hour) ?b)"
  have cb: "caused b L x p s (s1\<lparr>pg := Some ?b\<rparr>)" by (rule on_postgres' [OF s1 p1]) simp_all
  have "rows_from x (the (pg s1)) ?st"
    by (rule rows_from_trans [OF rows_from_budget rows_from_story])
  moreover have "no_new_urls (the (pg s1)) ?st"
    by (rule no_new_urls_trans [of _ ?b]) simp_all
  ultimately have "caused b L x p s (s1\<lparr>drawn := drawn s1 + 1, pg := Some ?st\<rparr>)"
    using on_postgres' [OF on_supply [OF s1, of "drawn s1 + 1"], of ?st] p1 by simp
  then show ?thesis
    using c cb assms False
    by (auto simp: handlePostStoryWS_def handler_simps split: sum.split intro!: to_self intro: caused_refl)
qed (auto simp: handlePostStoryWS_def intro!: caused_intros)

lemma caused_handleWSMessage:
  "cid s p = x \<Longrightarrow> m_Type msg = ''NUKE_RECIPIENT'' \<longrightarrow> m_RecipientID msg \<in> L \<Longrightarrow>
   caused True L x p s (handleWSMessage e p msg s)"
  by (simp add: handleWSMessage_def Let_def caused_handleSendMessage caused_handleBroadcast
      caused_small_handlers caused_handleNukeRecipient caused_handleFileReceived caused_story_handlers
      caused_handlePostStory caused_refl)

section \<open>Property\<close>

text \<open>
  C1. Sender authenticity and least authority of every socket frame. Whatever frame a client
  with identity \<open>x\<close> sends, of any of the thirteen types or none, under any outages: every frame
  another socket receives from it names \<open>x\<close> as its sender; every queued message, stored row,
  story and reaction that appears is authored by \<open>x\<close>; the only rows that disappear were
  addressed to or sent by \<open>x\<close> and the only stories that disappear are its own; other users'
  budgets, device tokens, entitlements, push tokens and the bans are untouched; and the hub
  keeps its invariant.
\<close>

theorem ws_frame_authority:
  "(\<forall>q. q \<noteq> p \<longrightarrow> (\<exists>fs. cl_send (conns (handleWSMessage e p msg s) q) = cl_send (conns s q) @ fs \<and>
       (\<forall>f \<in> set fs. m_SenderID f = cid s p))) \<and>
   queue_from (cid s p) (rdb s) (rdb (handleWSMessage e p msg s)) \<and>
   (\<forall>d. pg s = Some d \<longrightarrow>
      (\<exists>d'. pg (handleWSMessage e p msg s) = Some d' \<and> rows_from (cid s p) d d')) \<and>
   (hub_ok s \<longrightarrow> hub_ok (handleWSMessage e p msg s))"
proof -
  have c: "caused True UNIV (cid s p) p s (handleWSMessage e p msg s)"
    by (rule caused_handleWSMessage [OF refl]) simp
  from caused_frames [OF c] caused_queues [OF c] caused_rows [OF c] caused_hub_ok [OF c]
  show ?thesis by simp
qed

definition two_clients :: relay where
  "two_clients = snd (new_Client env0 ''bob'' (snd (new_Client env0 ''al'' relay0)))"

theorem ws_frame_authority_witness:
  "\<exists>fs. cl_send (conns (handleWSMessage env0 0 ((frame ''TYPING_STATUS'')\<lparr>m_RecipientID := ''bob''\<rparr>)
       (hub_register 1 two_clients)) 1) = [] @ fs \<and> (\<forall>f \<in> set fs. m_SenderID f = ''al'')"
proof -
  have "cl_send (conns (hub_register 1 two_clients) 1) = []" "cid (hub_register 1 two_clients) 0 = ''al''"
    by (simp_all add: two_clients_def new_Client_def hub_register_def)
  then show ?thesis
    using ws_frame_authority [of 0 env0 "(frame ''TYPING_STATUS'')\<lparr>m_RecipientID := ''bob''\<rparr>"
        "hub_register 1 two_clients"]
    by (metis one_neq_zero)
qed

end
