(* ===== verification/Routing_Facts.thy ===== *)
theory Routing_Facts
  imports Ws_Effects
begin

text \<open>
  Functional correctness of the routing of Ws_Routing: which messages pass the gates, where an
  admitted message ends up, delivery of stored messages on connect, group fan-out, and nukes.
\<close>

section \<open>Admission\<close>

lemma SendJSON_other: "q \<noteq> p \<Longrightarrow> cl_send (conns (SendJSON p v s) q) = cl_send (conns s q)"
  using SendJSON_cl_send [of p v s q] by auto

lemma gates_admit:
  assumes "sender_size_gates e p n s = (None, s1)"
  shows "n \<le> plusMaxPayload \<and>
    (freeMaxPayload \<le> n \<longrightarrow> fst (checkPremiumSubscription e (cid s p) s) = Inr True) \<and>
    (largePayloadThreshold \<le> n \<longrightarrow> fst (AllowLargeUpload e (cid s p) largeUploadCooldown
       (rdb (if freeMaxPayload \<le> n then snd (checkPremiumSubscription e (cid s p) s) else s))) \<noteq> Inr False)"
  using assms
  by (auto simp: sender_size_gates_def handler_simps split: if_splits sum.splits bool.splits prod.splits)

lemma gates_frame:
  "pg (snd (sender_size_gates e p n s)) = pg s \<and> storage (snd (sender_size_gates e p n s)) = storage s \<and>
   conns (snd (sender_size_gates e p n s)) = conns s \<and> clients (snd (sender_size_gates e p n s)) = clients s \<and>
   memoryQueue (rdb (snd (sender_size_gates e p n s))) = memoryQueue (rdb s)"
proof -
  obtain sub s1 where b: "(if freeMaxPayload \<le> n then checkPremiumSubscription e (cid s p) s
      else (Inr True, s)) = (sub, s1)" by fastforce
  have s1: "pg s1 = pg s \<and> storage s1 = storage s \<and> conns s1 = conns s \<and> clients s1 = clients s \<and>
      memoryQueue (rdb s1) = memoryQueue (rdb s)"
    using b checkPremium_frame [of e "cid s p" s] by (cases "freeMaxPayload \<le> n") auto
  have "memoryQueue (snd (AllowLargeUpload e u d r)) = memoryQueue r" for u d r
    by (simp add: AllowLargeUpload_def Let_def)
  with s1 b show ?thesis
    unfolding sender_size_gates_def b Let_def prod.case
    by (simp add: on_stores split: sum.split bool.split)
qed

text \<open>
  C3. The gates of \<open>SEND_MESSAGE\<close>. If a frame changes anything but the cache, the upload
  cooldown and the caller's own channel (a stored row, an object, a queue, another client's
  channel), then it had a recipient whose queue was not blocked, at most 50 MB, a premium
  sender from 5 MB on, and from 500 KB on an upload slot that was not refused.
\<close>

theorem send_admission:
  assumes "pg (handleSendMessage e p msg s) \<noteq> pg s \<or> storage (handleSendMessage e p msg s) \<noteq> storage s \<or>
      memoryQueue (rdb (handleSendMessage e p msg s)) \<noteq> memoryQueue (rdb s) \<or>
      (\<exists>q. q \<noteq> p \<and> cl_send (conns (handleSendMessage e p msg s) q) \<noteq> cl_send (conns s q))"
  defines "n \<equiv> payload_size (m_Envelope msg)"
  shows "m_RecipientID msg \<noteq> [] \<and> IsQueueBlocked e (m_RecipientID msg) (rdb s) = Inr False \<and>
    n \<le> 50 * 1024 * 1024 \<and>
    (5 * 1024 * 1024 \<le> n \<longrightarrow> fst (checkPremiumSubscription e (cid s p) s) = Inr True) \<and>
    (500 * 1024 \<le> n \<longrightarrow> fst (AllowLargeUpload e (cid s p) (15 * Second)
       (rdb (if 5 * 1024 * 1024 \<le> n then snd (checkPremiumSubscription e (cid s p) s) else s))) \<noteq> Inr False)"
proof -
  obtain g s1 where g: "sender_size_gates e p n s = (g, s1)" by fastforce
  note fr = gates_frame [of e p n s, unfolded g snd_conv]
  have "m_RecipientID msg \<noteq> [] \<and> IsQueueBlocked e (m_RecipientID msg) (rdb s) = Inr False \<and> g = None"
    using assms(1) g fr
    by (auto simp: handleSendMessage_def n_def SendJSON_other
        split: if_splits sum.splits bool.splits option.splits)
  then show ?thesis
    using gates_admit [of e p n s s1] g
    by (simp add: plusMaxPayload_def freeMaxPayload_def largePayloadThreshold_def largeUploadCooldown_def)
qed

definition bob_online :: relay where
  "bob_online = hub_register 1 two_clients"

definition to_bob :: "string \<Rightarrow> WSMessage" where
  "to_bob env = (frame ''SEND_MESSAGE'')\<lparr>m_RecipientID := ''bob'', m_Envelope := env, m_ContentType := ''text''\<rparr>"

lemma bob_online_simps [simp]:
  "rdb bob_online = NewRedisClient" "pg bob_online = Some pg_empty" "clients bob_online ''bob'' = Some 1"
  "cl_send (conns bob_online q) = []" "cid bob_online 0 = ''al''" "cid bob_online (Suc 0) = ''bob''"
  "cl_closed (conns bob_online (Suc 0)) = False" "clients bob_online ''eve'' = None"
  "m_RecipientID (to_bob env) = ''bob''" "m_Envelope (to_bob env) = env" "m_ContentType (to_bob env) = ''text''"
  by (simp_all add: bob_online_def two_clients_def new_Client_def hub_register_def to_bob_def frame_def no_client_def)

section \<open>Small messages\<close>

text \<open>The frame passes every gate of a sub-threshold message, with memory to spare.\<close>

definition small_ok :: "env \<Rightarrow> WSMessage \<Rightarrow> relay \<Rightarrow> bool" where
  "small_ok e msg s =
     (m_RecipientID msg \<noteq> [] \<and> IsQueueBlocked e (m_RecipientID msg) (rdb s) = Inr False \<and>
      payload_size (m_Envelope msg) < largePayloadThreshold \<and> \<not> (pg s \<noteq> None \<and> isHighRAMLoad e))"

lemma thresholds: "largePayloadThreshold < freeMaxPayload" "freeMaxPayload < plusMaxPayload"
  by (simp_all add: largePayloadThreshold_def freeMaxPayload_def plusMaxPayload_def)

lemma handleSendMessage_small:
  assumes "small_ok e msg s"
  shows "handleSendMessage e p msg s =
    (let (ttl, s2) = holdTTLForRecipient e (m_RecipientID msg) s in
     case routeSmallMessage e p (m_RecipientID msg) (m_Envelope msg) (m_ContentType msg) ttl s2 of
       (Inl _, s3) \<Rightarrow> SendJSON p (ws_error ''Failed to route message'') s3 | (Inr _, s3) \<Rightarrow> s3)"
  using assms thresholds
  by (simp add: handleSendMessage_def small_ok_def sender_size_gates_def)

lemma holdTTL_pair:
  "holdTTLForRecipient e u s = (fst (holdTTLForRecipient e u s), snd (checkPremiumSubscription e u s))"
  by (simp add: prod_eq_iff)

lemma routeSmall_normal:
  assumes "\<not> (pg s \<noteq> None \<and> isHighRAMLoad e)"
  shows "routeSmallMessage e p rid env ct ttl s =
    (case clients s rid of
       Some target \<Rightarrow> (Inr (), SendJSON target (new_message (cid s p) env ct []) s)
     | None \<Rightarrow>
         (case on_rdb (AddMessageToQueue e rid (cid s p) env ct ttl) s of
            (Inl err, s1) \<Rightarrow> (Inl (''redis queue: '' @ err), s1)
          | (Inr _, s1) \<Rightarrow> (Inr (), go_sendWakePush rid (cid s p) ct s1)))"
  by (simp only: routeSmallMessage_def assms if_False getClient_def)

lemma send_small_route:
  assumes "small_ok e msg s"
  shows "\<exists>ttl \<in> {24 * Hour, 72 * Hour}. handleSendMessage e p msg s =
    (let s2 = snd (checkPremiumSubscription e (m_RecipientID msg) s) in
     case clients s (m_RecipientID msg) of
       Some q \<Rightarrow> SendJSON q (new_message (cid s p) (m_Envelope msg) (m_ContentType msg) []) s2
     | None \<Rightarrow>
         (case on_rdb (AddMessageToQueue e (m_RecipientID msg) (cid s p) (m_Envelope msg) (m_ContentType msg) ttl) s2 of
            (Inl err, s3) \<Rightarrow> SendJSON p (ws_error ''Failed to route message'') s3
          | (Inr _, s3) \<Rightarrow> go_sendWakePush (m_RecipientID msg) (cid s p) (m_ContentType msg) s3))"
proof -
  let ?u = "m_RecipientID msg" and ?ttl = "fst (holdTTLForRecipient e (m_RecipientID msg) s)"
  let ?s2 = "snd (checkPremiumSubscription e ?u s)"
  have "\<not> (pg ?s2 \<noteq> None \<and> isHighRAMLoad e)" using assms by (simp add: small_ok_def)
  note r = routeSmall_normal [OF this, of p ?u "m_Envelope msg" "m_ContentType msg" ?ttl]
  have "handleSendMessage e p msg s =
    (case routeSmallMessage e p ?u (m_Envelope msg) (m_ContentType msg) ?ttl ?s2 of
       (Inl _, s3) \<Rightarrow> SendJSON p (ws_error ''Failed to route message'') s3 | (Inr _, s3) \<Rightarrow> s3)"
    unfolding handleSendMessage_small [OF assms, of p] by (subst holdTTL_pair) (simp only: Let_def prod.case)
  then have "handleSendMessage e p msg s =
    (let s2 = ?s2 in
     case clients s ?u of
       Some q \<Rightarrow> SendJSON q (new_message (cid s p) (m_Envelope msg) (m_ContentType msg) []) s2
     | None \<Rightarrow>
         (case on_rdb (AddMessageToQueue e ?u (cid s p) (m_Envelope msg) (m_ContentType msg) ?ttl) s2 of
            (Inl err, s3) \<Rightarrow> SendJSON p (ws_error ''Failed to route message'') s3
          | (Inr _, s3) \<Rightarrow> go_sendWakePush ?u (cid s p) (m_ContentType msg) s3))"
    unfolding r by (simp add: Let_def split: option.split prod.split sum.split)
  moreover have "?ttl \<in> {24 * Hour, 72 * Hour}"
    using holdTTL_cases [of e ?u s] by (auto simp: freeHoldTTL_def plusHoldTTL_def)
  ultimately show ?thesis by blast
qed

lemma send_small_online:
  assumes "small_ok e msg s" "clients s (m_RecipientID msg) = Some q"
  shows "handleSendMessage e p msg s =
    SendJSON q (new_message (cid s p) (m_Envelope msg) (m_ContentType msg) [])
      (snd (checkPremiumSubscription e (m_RecipientID msg) s))"
  using send_small_route [OF assms(1), of p] assms(2) by (auto simp: Let_def)

lemma send_small_offline:
  assumes "small_ok e msg s" "clients s (m_RecipientID msg) = None"
    and "\<not> fault e (Rdb OpAddMessageToQueue (m_RecipientID msg))"
  shows "\<exists>ttl \<in> {24 * Hour, 72 * Hour}. handleSendMessage e p msg s =
    (let s2 = snd (checkPremiumSubscription e (m_RecipientID msg) s)
     in go_sendWakePush (m_RecipientID msg) (cid s p) (m_ContentType msg)
          (s2\<lparr>rdb := queue_put e (m_RecipientID msg) (cid s p, m_Envelope msg, m_ContentType msg) ttl (rdb s2)\<rparr>))"
proof -
  have "fst (AddMessageToQueue e (m_RecipientID msg) sd env ct ttl r) = Inr ()" for sd env ct ttl r
    using assms(3) by (simp add: AddMessageToQueue_def Let_def)
  then show ?thesis
    using send_small_route [OF assms(1), of p] assms(2)
    by (simp add: Let_def on_stores queue_put_def)
qed

text \<open>
  Live delivery. A small message to a recipient who is online, unblocked and has room in
  its channel arrives as the next frame of exactly that connection, naming the caller as the
  sender and carrying its envelope and content type; nothing is queued or stored.
\<close>

theorem send_online_delivers:
  assumes "hub_ok s" "small_ok e msg s" "clients s (m_RecipientID msg) = Some q"
    and "length (cl_send (conns s q)) < 512"
  shows "cl_send (conns (handleSendMessage e p msg s) q) =
      cl_send (conns s q) @ [new_message (cid s p) (m_Envelope msg) (m_ContentType msg) []] \<and>
    (\<forall>q'. q' \<noteq> q \<longrightarrow> cl_send (conns (handleSendMessage e p msg s) q') = cl_send (conns s q')) \<and>
    pg (handleSendMessage e p msg s) = pg s \<and> storage (handleSendMessage e p msg s) = storage s \<and>
    memoryQueue (rdb (handleSendMessage e p msg s)) = memoryQueue (rdb s)"
  unfolding send_small_online [OF assms(2,3)]
  using hub_okD [OF assms(1,3)] assms(4)
  by (auto simp: SendJSON_other SendJSON_def send_buffer_def Let_def)

lemma small_ok_bob: "payload_size env < 512000 \<Longrightarrow> small_ok env0 (to_bob env) bob_online"
  by (simp add: small_ok_def IsQueueBlocked_def largePayloadThreshold_def isHighRAMLoad_def)

lemma hub_ok_bob: "hub_ok bob_online"
  by (rule hub_okI)
    (auto simp: bob_online_def two_clients_def new_Client_def hub_register_def no_client_def split: if_splits)

theorem send_online_delivers_witness:
  "cl_send (conns (handleSendMessage env0 0 (to_bob ''hi'') bob_online) 1) = [new_message ''al'' ''hi'' ''text'' []]"
  using send_online_delivers [OF hub_ok_bob small_ok_bob, of "''hi''" 1 0]
  by (simp add: payload_size_def)

theorem send_admission_witness:
  "IsQueueBlocked env0 ''bob'' (rdb bob_online) = Inr False \<and> payload_size ''hi'' \<le> 50 * 1024 * 1024"
proof -
  have "handleSendMessage env0 0 (to_bob ''hi'') bob_online =
      SendJSON 1 (new_message ''al'' ''hi'' ''text'' []) (snd (checkPremiumSubscription env0 ''bob'' bob_online))"
    using send_small_online [OF small_ok_bob, of "''hi''" 1 0] by (simp add: payload_size_def)
  then have "cl_send (conns (handleSendMessage env0 0 (to_bob ''hi'') bob_online) 1) \<noteq> cl_send (conns bob_online 1)"
    by (simp add: SendJSON_def send_buffer_def Let_def)
  then show ?thesis
    using send_admission [of env0 0 "to_bob ''hi''" bob_online] by (auto simp: payload_size_def)
qed

section \<open>Stored while away, delivered on connect\<close>

text \<open>Small messages to one user \<open>u\<close>, each from a client of its own at a time of its own.\<close>

definition send_to :: "string \<Rightarrow> string \<Rightarrow> string \<Rightarrow> WSMessage" where
  "send_to u env ct =
     (frame ''SEND_MESSAGE'')\<lparr>m_RecipientID := u, m_Envelope := env, m_ContentType := ct\<rparr>"

lemma send_to_simps [simp]:
  "m_RecipientID (send_to u env ct) = u" "m_Envelope (send_to u env ct) = env"
  "m_ContentType (send_to u env ct) = ct"
  by (simp_all add: send_to_def)

fun send_run :: "string \<Rightarrow> (env \<times> nat \<times> string \<times> string) list \<Rightarrow> relay \<Rightarrow> relay" where
  "send_run u [] s = s"
| "send_run u ((e, p, env, ct) # ds) s = send_run u ds (handleSendMessage e p (send_to u env ct) s)"

lemma queue_put_cong:
  "memoryQueue r = memoryQueue r' \<Longrightarrow> memoryQueue (queue_put e u m ttl r) = memoryQueue (queue_put e u m ttl r')"
  by (cases m) (auto simp: queue_put_def AddMessageToQueue_def Let_def)

lemma put_run_cong:
  "memoryQueue r = memoryQueue r' \<Longrightarrow> memoryQueue (put_run queue_put ds r) = memoryQueue (put_run queue_put ds r')"
proof (induction ds arbitrary: r r')
  case (Cons d ds)
  obtain e u m ttl where "d = (e, u, m, ttl)" by (cases d) auto
  with Cons.IH [OF queue_put_cong [OF Cons.prems, of e u m ttl]] show ?case by simp
qed simp

lemma queue_fetch_cong:
  "memoryQueue r = memoryQueue r' \<Longrightarrow> fst (queue_fetch e u r) = fst (queue_fetch e u r')"
  by (auto simp: queue_fetch_def FetchAndClearQueue_def split: option.splits)

definition can_queue :: "string \<Rightarrow> env \<times> nat \<times> string \<times> string \<Rightarrow> bool" where
  "can_queue u d =
     (case d of (e, p, env, ct) \<Rightarrow>
        queue_up e u \<and> \<not> fault e (Rdb OpIsQueueBlocked u) \<and>
        payload_size env < largePayloadThreshold \<and> \<not> isHighRAMLoad e)"

lemma send_run_queues:
  assumes "\<forall>d \<in> set ds. can_queue u d" "u \<noteq> []" "clients s u = None" "memoryBlocks (rdb s) u = None"
  shows "\<exists>ttls. length ttls = length ds \<and> set ttls \<subseteq> {24 * Hour, 72 * Hour} \<and>
     memoryQueue (rdb (send_run u ds s)) =
       memoryQueue (put_run queue_put
         (map (\<lambda>((e, p, m), ttl). (e, u, (cid s p, m), ttl)) (zip ds ttls)) (rdb s)) \<and>
     clients (send_run u ds s) = clients s \<and> pg (send_run u ds s) = pg s"
  using assms
proof (induction ds arbitrary: s)
  case (Cons d ds)
  obtain e p env ct where d: "d = (e, p, env, ct)" by (cases d) auto
  let ?s2 = "snd (checkPremiumSubscription e u s)"
  have ok: "small_ok e (send_to u env ct) s" "\<not> fault e (Rdb OpAddMessageToQueue u)"
    using Cons.prems d by (auto simp: small_ok_def can_queue_def queue_up_def IsQueueBlocked_def)
  then obtain ttl where ttl: "ttl \<in> {24 * Hour, 72 * Hour}"
    and step: "handleSendMessage e p (send_to u env ct) s =
      go_sendWakePush u (cid s p) ct (?s2\<lparr>rdb := queue_put e u (cid s p, env, ct) ttl (rdb ?s2)\<rparr>)"
    using send_small_offline [OF ok(1), of p] Cons.prems by (auto simp: Let_def)
  let ?s' = "handleSendMessage e p (send_to u env ct) s"
  have blk: "memoryBlocks (rdb ?s') u = None"
  proof -
    have "u \<noteq> ''entitlement:'' @ u" by (metis append_self_conv2 list.discI)
    then have "memoryBlocks (rdb ?s2) u = None"
      using Cons.prems(4) by (cases rule: disjE [OF checkPremium_rdb [of e u s]]) auto
    then show ?thesis by (simp add: step queue_put_def AddMessageToQueue_def Let_def)
  qed
  have fr: "clients ?s' = clients s" "pg ?s' = pg s" "\<And>p. cid ?s' p = cid s p"
    by (simp_all add: step)
  have mq: "memoryQueue (rdb ?s') = memoryQueue (queue_put e u (cid s p, env, ct) ttl (rdb s))"
    by (simp add: step) (rule queue_put_cong, simp)
  from Cons.IH [of ?s'] Cons.prems fr blk obtain ttls where
    t: "length ttls = length ds" "set ttls \<subseteq> {24 * Hour, 72 * Hour}"
      "memoryQueue (rdb (send_run u ds ?s')) = memoryQueue (put_run queue_put
         (map (\<lambda>((e, p, m), ttl). (e, u, (cid s p, m), ttl)) (zip ds ttls)) (rdb ?s'))"
      "clients (send_run u ds ?s') = clients s" "pg (send_run u ds ?s') = pg s"
    by auto
  then show ?case
    using d ttl put_run_cong [OF mq]
    by (intro exI [of _ "ttl # ttls"]) simp
qed simp

text \<open>What the connect-time sweep puts on the channel of a fresh connection.\<close>

lemma deliver_no_rows:
  assumes "\<And>d m. pg s = Some d \<Longrightarrow> m \<in> set (messages d) \<Longrightarrow> pm_RecipientID m \<noteq> cid s p"
    and "\<not> cl_closed (conns s p)" "cl_send (conns s p) = []"
    and "length (fst (queue_fetch e (cid s p) (rdb s))) \<le> send_buffer"
  shows "cl_send (conns (deliverOfflineQueue e p s) p) = map queue_frame (fst (queue_fetch e (cid s p) (rdb s)))"
proof -
  let ?f = "FetchAndClearQueue e (cid s p) (rdb s)"
  let ?zs = "case fst ?f of Inl _ \<Rightarrow> [] | Inr zs \<Rightarrow> zs"
  have zs: "?zs = fst (queue_fetch e (cid s p) (rdb s))"
    by (auto simp: queue_fetch_def split: sum.split prod.split)
  let ?s2 = "fold (SendJSON p) (map queue_frame ?zs) (s\<lparr>rdb := snd ?f\<rparr>)"
  have sent: "cl_send (conns ?s2 p) = map queue_frame ?zs"
    using sockets.send_all_in_order [where p = p and s = "s\<lparr>rdb := snd ?f\<rparr>" and ms = "map queue_frame ?zs"] assms zs
    by (simp add: sockets.send_all_def)
  have "caused True UNIV (cid s p) p (s\<lparr>rdb := snd ?f\<rparr>) ?s2" by (rule caused_fold_self)
  moreover have "pg (fold (SendJSON p) fs s') = pg s'" for fs s'
    by (induction fs arbitrary: s') auto
  ultimately have pg2: "pg ?s2 = pg s" by simp
  have "GetPendingMessages e (cid s p) d = Inr [] \<or> (\<exists>err. GetPendingMessages e (cid s p) d = Inl err)"
    if "pg s = Some d" for d
    using assms(1) [OF that] by (auto simp: GetPendingMessages_def filter_empty_conv intro: sort_key_simps(1))
  then have "deliverOfflineQueue e p s = ?s2"
    using pg2 by (cases "pg s") (auto simp: deliverOfflineQueue_def Let_def on_stores)
  then show ?thesis using sent zs by simp
qed

text \<open>
  C4. Nothing sent to an absent user is lost. Up to 512 small messages that any clients send to
  a user who is offline, unblocked and has an empty queue, with the store up, are all on the
  channel of that user's next connection, in the order they were sent, each with its true
  sender, provided the user connects within 24 hours of each.
\<close>

theorem offline_then_delivered:
  assumes "\<forall>d \<in> set ds. can_queue u d \<and> now (fst d) \<le> now e' \<and> now e' < now (fst d) + 24 * Hour"
    and "u \<noteq> []" "clients s u = None" "memoryBlocks (rdb s) u = None" "memoryQueue (rdb s) u = None"
    and "\<And>d m. pg s = Some d \<Longrightarrow> m \<in> set (messages d) \<Longrightarrow> pm_RecipientID m \<noteq> u"
    and "length ds \<le> 512" "queue_up e' u"
  defines "q \<equiv> fst (new_Client e' u (send_run u ds s))"
  shows "cl_send (conns (deliverOfflineQueue e' q (hub_register q (snd (new_Client e' u (send_run u ds s))))) q)
    = map (\<lambda>(e, p, env, ct). new_message (cid s p) env ct []) ds"
proof -
  have cq: "\<forall>d \<in> set ds. can_queue u d" using assms(1) by blast
  obtain ttls where t: "length ttls = length ds" "set ttls \<subseteq> {24 * Hour, 72 * Hour}"
      "memoryQueue (rdb (send_run u ds s)) = memoryQueue (put_run queue_put
         (map (\<lambda>((e, p, m), ttl). (e, u, (cid s p, m), ttl)) (zip ds ttls)) (rdb s))"
      "pg (send_run u ds s) = pg s"
    using send_run_queues [OF cq assms(2-4)] by blast
  let ?ds = "map (\<lambda>((e, p, m), ttl). (e, u, (cid s p, m), ttl)) (zip ds ttls)"
  let ?msgs = "map (\<lambda>(e, p, m). (cid s p, m)) ds"
  have "\<forall>(e, u', m, ttl) \<in> set ?ds. queue_up e u' \<and> now e \<le> now e' \<and> now e' < now e + ttl"
  proof -
    have "queue_up e u \<and> now e \<le> now e' \<and> now e' < now e + ttl"
      if z: "((e, p, m), ttl) \<in> set (zip ds ttls)" for e p m ttl
    proof -
      have "(e, p, m) \<in> set ds" using z by (rule set_zip_leftD)
      with assms(1) have "can_queue u (e, p, m)" "now e \<le> now e'" "now e' < now e + 24 * Hour" by auto
      moreover have "24 * Hour \<le> ttl" using set_zip_rightD [OF z] t(2) by (auto simp: time_units)
      ultimately show ?thesis by (cases m) (auto simp: can_queue_def)
    qed
    then show ?thesis by auto
  qed
  then have f: "fst (queue_fetch e' u (put_run queue_put ?ds (rdb s))) = [m. (e, u', m, ttl) \<leftarrow> ?ds, u' = u]"
    using offline_queue.delivered_in_order [of ?ds e' u "rdb s"] assms(5,7,8) t(1)
    by (simp add: stored_entries_def maxQueueLen_def)
  have "[m. (e, u', m, ttl) \<leftarrow> ?ds, u' = u] = ?msgs"
    using t(1) by (induction ds ttls rule: list_induct2') auto
  with f have fetched: "fst (queue_fetch e' u (rdb (send_run u ds s))) = ?msgs"
    using queue_fetch_cong [OF t(3), of e' u] by simp
  let ?s = "hub_register q (snd (new_Client e' u (send_run u ds s)))"
  have s: "cid ?s q = u" "pg ?s = pg s" "\<not> cl_closed (conns ?s q)" "cl_send (conns ?s q) = []"
      "rdb ?s = rdb (send_run u ds s)"
    using t(4) by (simp_all add: q_def new_Client_def hub_register_def)
  have "cl_send (conns (deliverOfflineQueue e' q ?s) q) = map queue_frame ?msgs"
    using deliver_no_rows [of ?s q e'] s assms(6,7) fetched by (simp add: send_buffer_def)
  then show ?thesis by (auto simp: queue_frame_def)
qed

theorem offline_then_delivered_witness:
  "let ds = [(env0, 0, ''a'', ''text''), (env0, 1, ''b'', ''image'')];
       s = send_run ''eve'' ds bob_online;
       q = fst (new_Client env0 ''eve'' s)
   in cl_send (conns (deliverOfflineQueue env0 q (hub_register q (snd (new_Client env0 ''eve'' s)))) q)
        = [new_message ''al'' ''a'' ''text'' [], new_message ''bob'' ''b'' ''image'' []]"
proof -
  let ?ds = "[(env0, 0, ''a'', ''text''), (env0, 1, ''b'', ''image'')]"
  have "\<forall>d \<in> set ?ds. can_queue ''eve'' d \<and> now (fst d) \<le> now env0 \<and> now env0 < now (fst d) + 24 * Hour"
    by (simp add: can_queue_def queue_up_def payload_size_def largePayloadThreshold_def isHighRAMLoad_def)
  then show ?thesis
    using offline_then_delivered [of ?ds "''eve''" env0 bob_online]
    by (simp add: queue_up_def Let_def)
qed

section \<open>Group fan-out\<close>

lemma dedupe_recipients_distinct:
  "distinct (dedupe_recipients self seen rs) \<and>
   set (dedupe_recipients self seen rs) = set rs - {[], self} - set seen"
  by (induction rs arbitrary: seen) auto

text \<open>A route touches the channel of its recipient's registered connection, or the caller's.\<close>

lemma routeSmall_target:
  "q \<noteq> p \<Longrightarrow>
    cl_send (conns (snd (routeSmallMessage e p rid env ct ttl s)) q) = cl_send (conns s q) \<or>
    clients s rid = Some q \<and>
    cl_send (conns (snd (routeSmallMessage e p rid env ct ttl s)) q) =
      cl_send (conns s q) @ [new_message (cid s p) env ct []]"
  using SendJSON_cl_send [of _ "new_message (cid s p) env ct []" s q]
  by (cases "clients s rid"; cases "pg s \<noteq> None \<and> isHighRAMLoad e")
    (auto simp: routeSmallMessage_def handler_simps SendJSON_def split: sum.split)

lemma fan_out_small_once:
  assumes "hub_ok s" "distinct rids" "q \<noteq> p"
  shows "cl_send (conns (fan_out_small e p msg rids s) q) = cl_send (conns s q) \<or>
    cid s q \<in> set rids \<and> cl_send (conns (fan_out_small e p msg rids s) q) =
      cl_send (conns s q) @ [new_message (cid s p) (m_Envelope msg) (m_ContentType msg) []]"
  using assms
proof (induction rids arbitrary: s)
  case (Cons rid rids)
  obtain ttl s1 where t: "holdTTLForRecipient e rid s = (ttl, s1)" by fastforce
  then have s1: "s1 = snd (checkPremiumSubscription e rid s)" using holdTTL_snd [of e rid s] by simp
  let ?s2 = "snd (routeSmallMessage e p rid (m_Envelope msg) (m_ContentType msg) ttl s1)"
  have c: "caused True UNIV (cid s p) p s1 ?s2" by (rule caused_routeSmall) (simp add: s1)
  have s2: "hub_ok ?s2" "cid ?s2 p = cid s p" "cid ?s2 q = cid s q"
    using caused_hub_ok [OF c] caused_frame [OF c] Cons.prems by (simp_all add: s1)
  have IH: "cl_send (conns (fan_out_small e p msg rids s') q) = cl_send (conns s' q) \<or>
      cid s' q \<in> set rids \<and> cl_send (conns (fan_out_small e p msg rids s') q) =
        cl_send (conns s' q) @ [new_message (cid s' p) (m_Envelope msg) (m_ContentType msg) []]"
    if "hub_ok s'" for s'
    using Cons.IH [OF that] Cons.prems by simp
  show ?case
  proof (cases "IsQueueBlocked e rid (rdb s) = Inr False")
    case True
    then have "fan_out_small e p msg (rid # rids) s = fan_out_small e p msg rids ?s2" by (simp add: t)
    moreover have "cid s q = rid" if "clients s1 rid = Some q"
      using hub_okD [OF Cons.prems(1)] that by (simp add: s1)
    ultimately show ?thesis
      using routeSmall_target [OF Cons.prems(3), of e rid "m_Envelope msg" "m_ContentType msg" ttl s1]
        IH [OF s2(1)] s2 Cons.prems(2) by (auto simp: s1)
  next
    case False
    then have "fan_out_small e p msg (rid # rids) s = fan_out_small e p msg rids s"
      by (auto split: sum.split bool.split)
    then show ?thesis using IH [OF Cons.prems(1)] by auto
  qed
qed simp

lemma announce_target:
  "q \<noteq> p \<Longrightarrow> cl_send (conns (announce_file e rid x env ct mid om ttl s) q) = cl_send (conns s q) \<or>
    clients s rid = Some q \<and>
    (\<exists>f. cl_send (conns (announce_file e rid x env ct mid om ttl s) q) = cl_send (conns s q) @ [f])"
proof (cases "clients s rid")
  case (Some r)
  then obtain v where "announce_file e rid x env ct mid om ttl s = SendJSON r v s"
    by (cases om) (simp_all add: announce_file_def handler_simps)
  with Some SendJSON_cl_send [of r v s q] show ?thesis by auto
qed (simp add: announce_file_def handler_simps)

text \<open>What one connection can receive from a fan-out over \<open>rids\<close>: at most one frame.\<close>

definition one_frame :: "nat \<Rightarrow> string list \<Rightarrow> relay \<Rightarrow> relay \<Rightarrow> bool" where
  "one_frame q rids s s' =
     (cl_send (conns s' q) = cl_send (conns s q) \<or>
      cid s q \<in> set rids \<and> (\<exists>f. cl_send (conns s' q) = cl_send (conns s q) @ [f]))"

lemma fan_out_file_once:
  assumes "hub_ok s" "pg s \<noteq> None" "distinct rids" "q \<noteq> p"
  shows "one_frame q rids s (snd (fan_out_file e p msg url om rids s))"
  using assms
proof (induction rids arbitrary: s)
  case (Cons rid rids)
  obtain ttl s1 where t: "holdTTLForRecipient e rid s = (ttl, s1)" by fastforce
  then have s1: "s1 = snd (checkPremiumSubscription e rid s)" using holdTTL_snd [of e rid s] by simp
  let ?st = "StoreMessageSized e (uuid_supply s1 (drawn s1)) rid (cid s p) None (Some url) (m_ContentType msg) ttl
      (payload_size (m_Envelope msg)) (case om of None \<Rightarrow> [] | Some om \<Rightarrow> om) (the (pg s1))"
  let ?s3 = "s1\<lparr>drawn := drawn s1 + 1, pg := Some (snd ?st)\<rparr>"
  have s3: "hub_ok ?s3" "pg ?s3 \<noteq> None" using Cons.prems by (simp_all add: s1)
  show ?case
  proof (cases "IsQueueBlocked e rid (rdb s) = Inr False")
    case False
    then have "fan_out_file e p msg url om (rid # rids) s = fan_out_file e p msg url om rids s"
      by (auto split: sum.split bool.split)
    then show ?thesis using Cons.IH [OF Cons.prems(1,2)] Cons.prems by (auto simp: one_frame_def)
  next
    case True
    show ?thesis
    proof (cases "fst ?st")
      case (Inl err)
      then have "snd (fan_out_file e p msg url om (rid # rids) s) = snd (fan_out_file e p msg url om rids ?s3)"
        using True t by (simp add: handler_simps s1)
      then show ?thesis using Cons.IH [OF s3] Cons.prems by (auto simp: one_frame_def s1)
    next
      case (Inr mid)
      let ?s4 = "announce_file e rid (cid s p) (m_Envelope msg) (m_ContentType msg) mid om ttl ?s3"
      have c: "caused True UNIV (cid s p) p ?s3 ?s4" by (rule caused_announce)
      have s4: "hub_ok ?s4" "pg ?s4 \<noteq> None" "cid ?s4 q = cid s q"
        using caused_hub_ok [OF c] caused_frame [OF c] s3 by (simp_all add: s1)
      have "snd (fan_out_file e p msg url om (rid # rids) s) = snd (fan_out_file e p msg url om rids ?s4)"
        using True t Inr by (simp add: handler_simps s1 split_beta)
      moreover have "clients ?s3 rid = Some q \<Longrightarrow> cid s q = rid"
        using hub_okD [OF Cons.prems(1)] by (simp add: s1)
      ultimately show ?thesis
        using Cons.IH [OF s4(1,2)] s4(3) Cons.prems
          announce_target [OF Cons.prems(4), of e rid "cid s p" "m_Envelope msg" "m_ContentType msg" mid om ttl ?s3]
        by (auto simp: one_frame_def s1)
    qed
  qed
qed (simp add: one_frame_def)

text \<open>
  C12. The amplification bound of a broadcast. In a consistent hub, one
  \<open>BROADCAST_GROUP_MESSAGE\<close> puts at most one frame on any other connection, and only on that
  of a user it lists; a list with more than 256 distinct recipients, after dropping the sender,
  empty ids and repetitions, puts none on any.
\<close>

theorem broadcast_at_most_once:
  assumes "hub_ok s" "q \<noteq> p"
  shows "cl_send (conns (handleBroadcastGroupMessage e p msg s) q) = cl_send (conns s q) \<or>
    cid s q \<in> set (m_Recipients msg) - {[], cid s p} \<and>
    card (set (m_Recipients msg) - {[], cid s p}) \<le> 256 \<and>
    (\<exists>f. cl_send (conns (handleBroadcastGroupMessage e p msg s) q) = cl_send (conns s q) @ [f])"
proof -
  let ?rs = "dedupe_recipients (cid s p) [] (m_Recipients msg)"
  have rs: "distinct ?rs" "set ?rs = set (m_Recipients msg) - {[], cid s p}"
    using dedupe_recipients_distinct [of "cid s p" "[]"] by simp_all
  then have len: "length ?rs = card (set (m_Recipients msg) - {[], cid s p})"
    by (metis distinct_card)
  let ?s1 = "charge_tokens p (int (length ?rs) - 1) s"
  obtain g s2 where g: "sender_size_gates e p (payload_size (m_Envelope msg)) ?s1 = (g, s2)" by fastforce
  have c: "caused True UNIV (cid s p) p s s2"
    using caused_trans [OF caused_gates on_tokens [OF caused_refl]] g by (metis charge_tokens_frame(5) snd_conv)
  have s2: "hub_ok s2" "cid s2 q = cid s q" "cl_send (conns s2 q) = cl_send (conns s q)"
    using caused_hub_ok [OF c assms(1)] caused_frame [OF c]
      gates_frame [of e p "payload_size (m_Envelope msg)" ?s1] g by auto
  have small: "one_frame q ?rs s2 (fan_out_small e p msg ?rs s2)"
    using fan_out_small_once [OF s2(1) rs(1) assms(2), of e msg] by (auto simp: one_frame_def)
  have large: "one_frame q ?rs s2 (broadcastLargeFile e p ?rs msg s2)"
  proof (cases "pg s2 = None")
    case False
    let ?up = "Upload e (uuid_supply s2 (drawn s2)) (m_Envelope msg) (storage s2)"
    have "one_frame q ?rs (s2\<lparr>drawn := drawn s2 + 1, storage := snd ?up\<rparr>)
        (snd (fan_out_file e p msg url om ?rs (s2\<lparr>drawn := drawn s2 + 1, storage := snd ?up\<rparr>)))" for url om
      by (rule fan_out_file_once) (use s2 rs False assms in auto)
    then show ?thesis
      using False assms(2)
      by (auto simp: broadcastLargeFile_def handler_simps one_frame_def SendJSON_other split_beta split: sum.split)
  qed (simp add: broadcastLargeFile_def one_frame_def SendJSON_other assms)
  show ?thesis
    using small large s2 g len rs(2) assms(2)
    by (auto simp: handleBroadcastGroupMessage_def Let_def one_frame_def SendJSON_other
        maxBroadcastRecipients_def split: option.split)
qed

definition group_msg :: WSMessage where
  "group_msg = (frame ''BROADCAST_GROUP_MESSAGE'')\<lparr>m_Recipients := [''bob'', ''al'', ''bob'', []], m_Envelope := ''g''\<rparr>"

theorem broadcast_at_most_once_witness:
  "length (cl_send (conns (handleBroadcastGroupMessage env0 0 group_msg bob_online) 1)) \<le> 1"
  using broadcast_at_most_once [OF hub_ok_bob, of 1 0 env0 group_msg] by auto

end
