(* ===== verification/File_Facts.thy ===== *)
theory File_Facts
  imports Routing_Facts
begin

text \<open>
  The life of large files: the invariant that no stored row refers to a missing object, kept by
  every frame and by the cleanup worker; the download and who may have it; the reference count
  of the acknowledgement.
\<close>

section \<open>Every row has its object\<close>

text \<open>The URL that \<open>Upload\<close> returns for a key.\<close>

definition obj_url :: "storage_client \<Rightarrow> string \<Rightarrow> string" where
  "obj_url k key =
     (case k of
        S3StorageClient b ep ssl \<Rightarrow>
          (if ssl then ''https'' else ''http'') @ ''://'' @ ep @ ''/'' @ b @ ''/'' @ key
      | LocalStorageClient _ \<Rightarrow> ''local://'' @ key)"

lemma Upload_url:
  "Upload e key body st = (Inr url, st') \<Longrightarrow>
    url = obj_url (client_kind st) key \<and> st' = st\<lparr>objects := (objects st)(key \<mapsto> body)\<rparr>"
  by (auto simp: Upload_def S3_Upload_def Local_Upload_def obj_url_def Let_def
      split: storage_client.splits if_splits)

lemma storageKeyFromURL_obj_url:
  "CHR ''/'' \<notin> set key \<Longrightarrow> storageKeyFromURL (obj_url k key) = key"
  by (rule Upload_key [of key "env0" "[]" "\<lparr>client_kind = k, objects = Map.empty\<rparr>" _
        "\<lparr>client_kind = k, objects = [key \<mapsto> []]\<rparr>"])
    (auto simp: Upload_def S3_Upload_def Local_Upload_def obj_url_def Let_def split: storage_client.splits)

lemma obj_url_inj: "obj_url k key = obj_url k key' \<Longrightarrow> key = key'"
  by (auto simp: obj_url_def split: storage_client.splits if_splits)

text \<open>The URL names an object that was drawn from the supply and is in the store.\<close>

definition live_url :: "relay \<Rightarrow> string \<Rightarrow> bool" where
  "live_url s url =
     (\<exists>n < drawn s. url = obj_url (client_kind (storage s)) (uuid_supply s n) \<and>
                    objects (storage s) (uuid_supply s n) \<noteq> None)"

definition files_ok :: "relay \<Rightarrow> bool" where
  "files_ok s =
     (\<forall>d. pg s = Some d \<longrightarrow>
        (\<forall>url \<in> row_urls d. live_url s url) \<and> (\<forall>st \<in> set (stories d). st_BucketURL st = None))"

lemma files_okI:
  "(\<And>d url. pg s = Some d \<Longrightarrow> url \<in> row_urls d \<Longrightarrow> live_url s url) \<Longrightarrow>
   (\<And>d st. pg s = Some d \<Longrightarrow> st \<in> set (stories d) \<Longrightarrow> st_BucketURL st = None) \<Longrightarrow> files_ok s"
  by (simp add: files_ok_def)

lemma files_okD:
  "files_ok s \<Longrightarrow> pg s = Some d \<Longrightarrow> url \<in> row_urls d \<Longrightarrow> live_url s url"
  "files_ok s \<Longrightarrow> pg s = Some d \<Longrightarrow> st \<in> set (stories d) \<Longrightarrow> st_BucketURL st = None"
  by (simp_all add: files_ok_def)

lemma live_url_same [simp]:
  "live_url (SendJSON p v s) url = live_url s url" "live_url (s\<lparr>rdb := r\<rparr>) url = live_url s url"
  "live_url (s\<lparr>pg := q\<rparr>) url = live_url s url" "live_url (go_sendWakePush a b c s) url = live_url s url"
  "live_url (charge_tokens p m s) url = live_url s url"
  "live_url (snd (checkPremiumSubscription e u s)) url = live_url s url"
  by (simp_all add: live_url_def)

lemma files_ok_same [simp]:
  "files_ok (SendJSON p v s) = files_ok s" "files_ok (s\<lparr>rdb := r\<rparr>) = files_ok s"
  "files_ok (go_sendWakePush a b c s) = files_ok s" "files_ok (charge_tokens p m s) = files_ok s"
  "files_ok (snd (checkPremiumSubscription e u s)) = files_ok s"
  by (simp_all add: files_ok_def)

lemma live_url_drawn: "live_url s url \<Longrightarrow> drawn s \<le> n \<Longrightarrow> live_url (s\<lparr>drawn := n\<rparr>) url"
  unfolding live_url_def by (auto intro: less_le_trans)

lemma files_ok_drawn: "files_ok s \<Longrightarrow> drawn s \<le> n \<Longrightarrow> files_ok (s\<lparr>drawn := n\<rparr>)"
  by (auto simp: files_ok_def live_url_drawn)

lemma files_ok_rows:
  "files_ok s \<Longrightarrow> pg s = Some d \<Longrightarrow> no_new_urls d d' \<Longrightarrow> files_ok (s\<lparr>pg := Some d'\<rparr>)"
  by (rule files_okI) (auto simp: no_new_urls_def dest: files_okD)

text \<open>Effects that do not touch files keep the invariant.\<close>

lemma caused_files: "caused b L x p s s' \<Longrightarrow> \<not> b \<Longrightarrow> files_ok s \<Longrightarrow> files_ok s'"
  by (induction rule: caused.induct) (auto intro: files_ok_drawn files_ok_rows)

lemma caused_uuids: "caused b L x p s s' \<Longrightarrow> uuids_ok s' = uuids_ok s"
  by (induction rule: caused.induct) (auto simp: uuids_ok_def charge_tokens_def)

text \<open>Only a drawn key can be referenced, so a fresh object is referenced by no row.\<close>

lemma fresh_unreferenced:
  assumes "uuids_ok s" "live_url s url" "drawn s \<le> n"
  shows "url \<noteq> obj_url (client_kind (storage s)) (uuid_supply s n)"
proof
  assume "url = obj_url (client_kind (storage s)) (uuid_supply s n)"
  with assms(2) obtain m where "m < drawn s" "uuid_supply s n = uuid_supply s m"
    by (auto simp: live_url_def dest: obj_url_inj)
  with assms(1,3) show False by (auto simp: uuids_ok_def dest: injD)
qed

text \<open>Removing the object of one URL keeps every other URL alive.\<close>

lemma live_url_delete:
  assumes "uuids_ok s" "live_url s url"
    and "n < drawn s" "url \<noteq> obj_url (client_kind (storage s)) (uuid_supply s n)"
  shows "live_url (s\<lparr>storage := snd (Storage_Delete e (uuid_supply s n) (storage s))\<rparr>) url"
proof -
  obtain m where m: "m < drawn s" "url = obj_url (client_kind (storage s)) (uuid_supply s m)"
      "objects (storage s) (uuid_supply s m) \<noteq> None"
    using assms(2) by (auto simp: live_url_def)
  with assms(4) have "uuid_supply s m \<noteq> uuid_supply s n" by auto
  with m show ?thesis
    by (auto simp: live_url_def Storage_Delete_objects Storage_Delete_kind)
qed

section \<open>Storing a large file\<close>

lemma row_urls_store:
  "row_urls (snd (StoreMessageSized e i rcp x env (Some url) ct ttl sz om d)) \<subseteq> insert url (row_urls d)"
  "stories (snd (StoreMessageSized e i rcp x env (Some url) ct ttl sz om d)) = stories d"
  "fst (StoreMessageSized e i rcp x env (Some url) ct ttl sz om d) = Inl err \<Longrightarrow>
   snd (StoreMessageSized e i rcp x env (Some url) ct ttl sz om d) = d"
  by (auto simp: StoreMessageSized_def row_urls_def Let_def split: if_splits)

lemma files_ok_store:
  assumes "files_ok s" "pg s \<noteq> None" "live_url s url"
  shows "files_ok (s\<lparr>pg := Some (snd (StoreMessageSized e i rcp x env (Some url) ct ttl sz om (the (pg s))))\<rparr>)"
proof -
  obtain d where d: "pg s = Some d" using assms(2) by blast
  have "row_urls (snd (StoreMessageSized e i rcp x env (Some url) ct ttl sz om d)) \<subseteq> insert url (row_urls d)"
    by (rule row_urls_store)
  then show ?thesis
    using assms d row_urls_store(2) [of e i rcp x env url ct ttl sz om d]
    by (intro files_okI) (auto dest!: subsetD dest: files_okD)
qed

lemma announce_files [simp]:
  "files_ok (announce_file e rid x env ct mid om ttl s) = files_ok s"
  "live_url (announce_file e rid x env ct mid om ttl s) url = live_url s url"
  "pg (announce_file e rid x env ct mid om ttl s) = pg s"
  "storage (announce_file e rid x env ct mid om ttl s) = storage s"
  "uuid_supply (announce_file e rid x env ct mid om ttl s) = uuid_supply s"
  "drawn (announce_file e rid x env ct mid om ttl s) = drawn s"
  by (auto simp: announce_file_def handler_simps split: option.split)

text \<open>The state after a successful upload: the fresh URL is live.\<close>

lemma files_ok_upload:
  assumes "files_ok s" "uuids_ok s"
    and "Upload e (uuid_supply s (drawn s)) body (storage s) = (r, st)"
  shows "files_ok (s\<lparr>drawn := drawn s + 1, storage := st\<rparr>)"
    and "r = Inr url \<Longrightarrow> live_url (s\<lparr>drawn := drawn s + 1, storage := st\<rparr>) url \<and>
      url = obj_url (client_kind (storage s)) (uuid_supply s (drawn s))"
proof -
  let ?s = "s\<lparr>drawn := drawn s + 1, storage := st\<rparr>"
  have fr: "client_kind st = client_kind (storage s)"
    "\<And>k. k \<noteq> uuid_supply s (drawn s) \<Longrightarrow> objects st k = objects (storage s) k"
    using Upload_frame(1) [of e "uuid_supply s (drawn s)" body "storage s"]
      Upload_frame(2) [of _ "uuid_supply s (drawn s)" e body "storage s"] assms(3) by simp_all
  have "live_url ?s u" if u: "live_url s u" for u
  proof -
    obtain m where m: "m < drawn s" "u = obj_url (client_kind (storage s)) (uuid_supply s m)"
        "objects (storage s) (uuid_supply s m) \<noteq> None"
      using u by (auto simp: live_url_def)
    moreover have "uuid_supply s m \<noteq> uuid_supply s (drawn s)"
      using assms(2) m(1) by (auto simp: uuids_ok_def dest: injD)
    ultimately show ?thesis using fr by (auto simp: live_url_def intro!: exI [of _ m])
  qed
  then show "files_ok ?s" using assms(1) by (intro files_okI) (auto dest: files_okD)
  show "r = Inr url \<Longrightarrow> live_url ?s url \<and> url = obj_url (client_kind (storage s)) (uuid_supply s (drawn s))"
    using Upload_url [of e "uuid_supply s (drawn s)" body "storage s" url st] assms(3)
    by (auto simp: live_url_def intro!: exI [of _ "drawn s"])
qed

text \<open>The rollback and the reclaim of an object that no row refers to.\<close>

lemma files_ok_delete_unreferenced:
  assumes "files_ok s" "uuids_ok s" "n < drawn s"
    and "\<And>d. pg s = Some d \<Longrightarrow> obj_url (client_kind (storage s)) (uuid_supply s n) \<notin> row_urls d"
  shows "files_ok (s\<lparr>storage := snd (Storage_Delete e (uuid_supply s n) (storage s))\<rparr>)"
proof (rule files_okI)
  fix d url
  assume d: "pg (s\<lparr>storage := snd (Storage_Delete e (uuid_supply s n) (storage s))\<rparr>) = Some d"
    and url: "url \<in> row_urls d"
  from d have "pg s = Some d" by simp
  with assms url show "live_url (s\<lparr>storage := snd (Storage_Delete e (uuid_supply s n) (storage s))\<rparr>) url"
    by (intro live_url_delete) (auto dest: files_okD)
qed (use assms in \<open>auto dest: files_okD\<close>)

lemma files_ok_send_large:
  assumes "files_ok s" "uuids_ok s"
  shows "files_ok (send_large e p msg ttl s)"
proof (cases "pg s")
  case (Some d)
  let ?k = "uuid_supply s (drawn s)"
  obtain r st where up: "Upload e ?k (m_Envelope msg) (storage s) = (r, st)" by fastforce
  let ?s2 = "s\<lparr>drawn := drawn s + 1, storage := st\<rparr>"
  note s2 = files_ok_upload [OF assms up]
  show ?thesis
  proof (cases r)
    case (Inl err)
    then show ?thesis using Some up s2(1) by (simp add: send_large_def handler_simps)
  next
    case (Inr url)
    let ?om = "buildOfferMeta e (m_Envelope msg)"
    let ?args = "\<lambda>f. f e (uuid_supply s (drawn s + 1)) (m_RecipientID msg) (cid s p) None (Some url)
        (m_ContentType msg) ttl (payload_size (m_Envelope msg)) (case ?om of None \<Rightarrow> [] | Some om \<Rightarrow> om) d"
    let ?s3 = "?s2\<lparr>drawn := drawn s + 2\<rparr>"
    let ?s4 = "?s3\<lparr>pg := Some (snd (?args StoreMessageSized))\<rparr>"
    have s3: "files_ok ?s3" using files_ok_drawn [OF s2(1), of "drawn s + 2"] by simp
    have l3: "live_url ?s3 url" using live_url_drawn [OF conjunct1 [OF s2(2) [OF Inr]], of "drawn s + 2"] by simp
    have s4: "files_ok ?s4" using files_ok_store [OF s3 _ l3] Some by simp
    show ?thesis
    proof (cases "fst (?args StoreMessageSized)")
      case (Inr mid)
      then show ?thesis using Some up \<open>r = Inr url\<close> s4 by (simp add: send_large_def handler_simps)
    next
      case (Inl err)
      then have same: "?s4 = ?s3" using row_urls_store(3) [OF Inl] Some by simp
      have "obj_url (client_kind (storage ?s3)) ?k \<notin> row_urls d"
        using files_okD(1) [OF assms(1) Some] fresh_unreferenced [OF assms(2), of _ "drawn s"] s2(2) [OF \<open>r = Inr url\<close>]
          Upload_frame(1) [of e ?k "m_Envelope msg" "storage s"] up by auto
      then have "files_ok (?s3\<lparr>storage := snd (Storage_Delete e (uuid_supply ?s3 (drawn s)) (storage ?s3))\<rparr>)"
        by (intro files_ok_delete_unreferenced s3) (use assms Some in \<open>auto simp: uuids_ok_def\<close>)
      then show ?thesis using Some up \<open>r = Inr url\<close> Inl same by (simp add: send_large_def handler_simps)
    qed
  qed
qed (simp add: send_large_def assms)

text \<open>A fan-out of pointer rows keeps the store; if it delivered nothing it added no reference.\<close>

lemma fan_out_file_files:
  assumes "files_ok s" "pg s \<noteq> None" "live_url s url"
    and "fan_out_file e p msg url om rids s = (n, s')"
  shows "files_ok s' \<and> storage s' = storage s \<and> uuid_supply s' = uuid_supply s \<and> drawn s \<le> drawn s' \<and>
    pg s' \<noteq> None \<and> (n = 0 \<longrightarrow> row_urls (the (pg s')) = row_urls (the (pg s)))"
  using assms
proof (induction rids arbitrary: s n s')
  case (Cons rid rids)
  obtain ttl s1 where t: "holdTTLForRecipient e rid s = (ttl, s1)" by fastforce
  then have s1: "s1 = snd (checkPremiumSubscription e rid s)" using holdTTL_snd [of e rid s] by simp
  let ?st = "StoreMessageSized e (uuid_supply s1 (drawn s1)) rid (cid s p) None (Some url) (m_ContentType msg) ttl
      (payload_size (m_Envelope msg)) (case om of None \<Rightarrow> [] | Some om \<Rightarrow> om) (the (pg s1))"
  let ?s2 = "s1\<lparr>drawn := drawn s1 + 1\<rparr>"
  let ?s3 = "?s2\<lparr>pg := Some (snd ?st)\<rparr>"
  have s2: "files_ok ?s2" "live_url ?s2 url" "pg ?s2 \<noteq> None"
    using Cons.prems files_ok_drawn [of s1 "drawn s1 + 1"] live_url_drawn [of s1 url "drawn s1 + 1"]
    by (simp_all add: s1)
  have s3: "files_ok ?s3" "live_url ?s3 url"
    using files_ok_store [OF s2(1,3,2)] s2(2) by simp_all
  show ?case
  proof (cases "IsQueueBlocked e rid (rdb s) = Inr False")
    case False
    then have "fan_out_file e p msg url om rids s = (n, s')"
      using Cons.prems(4) by (auto split: sum.splits bool.splits)
    then show ?thesis using Cons.IH Cons.prems by blast
  next
    case True
    show ?thesis
    proof (cases "fst ?st")
      case (Inl err)
      then have f3: "fan_out_file e p msg url om rids ?s3 = (n, s')"
        using True t Cons.prems(4) by (simp add: handler_simps s1)
      have "snd ?st = the (pg s1)" by (rule row_urls_store(3) [OF Inl])
      then have "the (pg ?s3) = the (pg s)" "pg ?s3 \<noteq> None" by (simp_all add: s1)
      then show ?thesis using Cons.IH [OF s3(1) _ s3(2) f3] by (simp add: s1)
    next
      case (Inr mid)
      let ?s4 = "announce_file e rid (cid s p) (m_Envelope msg) (m_ContentType msg) mid om ttl ?s3"
      obtain n' s'' where f: "fan_out_file e p msg url om rids ?s4 = (n', s'')" by fastforce
      then have "n = n' + 1" "s' = s''"
        using True t Inr Cons.prems(4) by (auto simp: handler_simps s1)
      then show ?thesis using Cons.IH [OF _ _ _ f] s3 by (simp add: s1)
    qed
  qed
qed simp

lemma files_ok_broadcastLarge:
  assumes "files_ok s" "uuids_ok s"
  shows "files_ok (broadcastLargeFile e p rids msg s)"
proof (cases "pg s")
  case (Some d)
  let ?k = "uuid_supply s (drawn s)"
  obtain r st where up: "Upload e ?k (m_Envelope msg) (storage s) = (r, st)" by fastforce
  let ?s2 = "s\<lparr>drawn := drawn s + 1, storage := st\<rparr>"
  note s2 = files_ok_upload [OF assms up]
  show ?thesis
  proof (cases r)
    case (Inl err)
    then show ?thesis using Some up s2(1) by (simp add: broadcastLargeFile_def handler_simps)
  next
    case (Inr url)
    let ?om = "buildOfferMeta e (m_Envelope msg)"
    obtain n s3 where f: "fan_out_file e p msg url ?om rids ?s2 = (n, s3)" by fastforce
    have "pg ?s2 \<noteq> None" "live_url ?s2 url" using Some conjunct1 [OF s2(2) [OF Inr]] by simp_all
    note s3 = fan_out_file_files [OF s2(1) this f]
    show ?thesis
    proof (cases "n = 0")
      case False
      then show ?thesis using Some up Inr f s3 by (simp add: broadcastLargeFile_def handler_simps)
    next
      case True
      have "obj_url (client_kind (storage s3)) ?k \<notin> row_urls d"
        using files_okD(1) [OF assms(1) Some] fresh_unreferenced [OF assms(2), of _ "drawn s"]
          Upload_frame(1) [of e ?k "m_Envelope msg" "storage s"] up s3 by auto
      then have "files_ok (s3\<lparr>storage := snd (Storage_Delete e (uuid_supply s3 (drawn s)) (storage s3))\<rparr>)"
        by (intro files_ok_delete_unreferenced) (use s3 True Some assms(2) in \<open>auto simp: uuids_ok_def\<close>)
      then show ?thesis using Some up Inr f s3 True by (simp add: broadcastLargeFile_def handler_simps)
    qed
  qed
qed (simp add: broadcastLargeFile_def assms)

section \<open>The acknowledgement and the cleanup worker\<close>

lemma live_key:
  assumes "uuids_ok s" "live_url s url"
  obtains n where "n < drawn s" "url = obj_url (client_kind (storage s)) (uuid_supply s n)"
    "storageKeyFromURL url = uuid_supply s n"
  using assms by (auto simp: live_url_def uuids_okD storageKeyFromURL_obj_url)

lemma files_ok_delete_live:
  assumes "files_ok s" "uuids_ok s" "live_url s url" "pg s = Some d" "url \<notin> row_urls d"
  shows "files_ok (s\<lparr>storage := snd (Storage_Delete e (storageKeyFromURL url) (storage s))\<rparr>)"
proof -
  obtain n where "n < drawn s" "url = obj_url (client_kind (storage s)) (uuid_supply s n)"
      "storageKeyFromURL url = uuid_supply s n"
    using live_key [OF assms(2,3)] .
  then show ?thesis
    using files_ok_delete_unreferenced [OF assms(1,2), of n e] assms(4,5) by auto
qed

lemma count_zero_iff: "length (filter (\<lambda>m. pm_BucketURL m = Some url) (messages d)) = 0 \<longleftrightarrow> url \<notin> row_urls d"
  by (auto simp: row_urls_def filter_empty_conv)

lemma select_by_id_in: "select_by_id i d = Some row \<Longrightarrow> row \<in> set (messages d) \<and> pm_ID row = i"
  by (auto simp: select_by_id_def dest: find_SomeD)

lemma files_ok_FileReceived:
  assumes "files_ok s" "uuids_ok s"
  shows "files_ok (handleFileReceived e p msg s)"
proof -
  have "files_ok (ack_delete_row e i s)" if "pg s = Some d" for d i
    using files_ok_rows [OF assms(1) that, of "snd (DeleteMessage e i d)"] that
    by (simp add: ack_delete_row_def on_stores)
  moreover have "files_ok (ack_delete_object e url (ack_delete_row e i s))"
    if d: "pg s = Some d" and row: "select_by_id i' d = Some row" "pm_BucketURL row = Some url"
      and z: "ack_unreferenced e url (ack_delete_row e i s)" for d i i' row url
  proof -
    let ?s1 = "ack_delete_row e i s"
    have s1: "?s1 = s\<lparr>pg := Some (snd (DeleteMessage e i d))\<rparr>"
      using d by (simp add: ack_delete_row_def on_stores)
    have "url \<in> row_urls d" using select_by_id_in [OF row(1)] row(2) by (auto simp: row_urls_def)
    then have l1: "live_url ?s1 url" using files_okD(1) [OF assms(1) d] s1 by simp
    have "url \<notin> row_urls (snd (DeleteMessage e i d))"
      using z unfolding ack_unreferenced_def s1
      by (auto simp: CountMessagesByBucket_def count_zero_iff [simplified] row_urls_def filter_empty_conv split: if_splits)
    then show ?thesis
      using files_ok_delete_live [OF _ _ l1, of "snd (DeleteMessage e i d)" e]
        files_ok_rows [OF assms(1) d, of "snd (DeleteMessage e i d)"] assms(2) s1
      by (simp add: ack_delete_object_def on_stores)
  qed
  ultimately show ?thesis
    using assms(1) by (auto simp: handleFileReceived_def Let_def split: option.split)
qed

lemma PruneExpired_urls:
  assumes "PruneExpiredMessages e d = (Inr urls, d')"
  shows "set urls \<subseteq> row_urls d - row_urls d'" "row_urls d' \<subseteq> row_urls d" "stories d' = stories d"
  using assms
  by (auto simp: PruneExpiredMessages_def expired_bucket_urls_def row_urls_def Let_def filter_empty_conv
      split: if_splits option.splits) blast

lemma delete_objects_files:
  assumes "files_ok s" "uuids_ok s" "pg s = Some d" "\<forall>url \<in> set urls. url \<notin> row_urls d \<and>
      (\<exists>n < drawn s. url = obj_url (client_kind (storage s)) (uuid_supply s n))"
  shows "files_ok (delete_objects e urls s) \<and> pg (delete_objects e urls s) = pg s \<and>
    uuid_supply (delete_objects e urls s) = uuid_supply s"
  using assms
proof (induction urls arbitrary: s)
  case (Cons url urls)
  obtain n where n: "n < drawn s" "url = obj_url (client_kind (storage s)) (uuid_supply s n)"
    using Cons.prems by auto
  then have key: "storageKeyFromURL url = uuid_supply s n" "uuid_supply s n \<noteq> []"
    using uuids_okD [OF Cons.prems(2), of n] by (simp_all add: storageKeyFromURL_obj_url)
  let ?s1 = "s\<lparr>storage := snd (Storage_Delete e (uuid_supply s n) (storage s))\<rparr>"
  have "files_ok ?s1"
    by (rule files_ok_delete_unreferenced [OF Cons.prems(1,2) n(1)]) (use Cons.prems n in auto)
  moreover have "delete_objects e (url # urls) s = delete_objects e urls ?s1"
    using key by (simp add: delete_objects_def on_stores)
  ultimately show ?case
    using Cons.IH [of ?s1] Cons.prems by (simp add: Storage_Delete_kind)
qed (simp add: delete_objects_def)

lemma files_ok_cleanup:
  assumes "files_ok s" "uuids_ok s"
  shows "files_ok (cleanup_tick e s)"
proof (cases "pg s")
  case (Some d)
  obtain r d' where pr: "PruneExpiredMessages e d = (r, d')" by fastforce
  show ?thesis
  proof (cases r)
    case (Inl err)
    then have "d' = d" using pr by (auto simp: PruneExpiredMessages_def Let_def split: if_splits)
    moreover have "files_ok (s\<lparr>pg := pg s\<rparr>)" using assms(1) by simp
    then have "files_ok (s\<lparr>pg := Some d\<rparr>)" unfolding Some .
    ultimately show ?thesis using Some pr Inl by (simp add: cleanup_tick_def on_stores)
  next
    case (Inr urls)
    note u = PruneExpired_urls [OF pr [unfolded Inr]]
    let ?s1 = "s\<lparr>pg := Some d'\<rparr>"
    have s1: "files_ok ?s1"
      by (rule files_ok_rows [OF assms(1) Some]) (use u in \<open>auto simp: no_new_urls_def\<close>)
    have "\<forall>url \<in> set urls. url \<notin> row_urls d' \<and>
        (\<exists>n < drawn s. url = obj_url (client_kind (storage s)) (uuid_supply s n))"
      using u(1) files_okD(1) [OF assms(1) Some] by (fastforce simp: live_url_def)
    then have s2: "files_ok (delete_objects e urls ?s1)" "pg (delete_objects e urls ?s1) = Some d'"
      using delete_objects_files [OF s1, of d' urls e] assms(2) by simp_all
    have "bucket_urls (filter P (stories d')) = []" for P
      using files_okD(2) [OF s1, of d'] by (auto simp: bucket_urls_def concat_eq_Nil_conv)
    then have "fst (PruneExpiredStories e d') = Inr [] \<or> (\<exists>err. PruneExpiredStories e d' = (Inl err, d'))"
      by (auto simp: PruneExpiredStories_def)
    moreover have "no_new_urls d' (snd (PruneExpiredStories e d'))"
      by (auto simp: PruneExpiredStories_def no_new_urls_def delete_stories_def row_urls_def)
    ultimately show ?thesis
      using Some pr Inr s2 files_ok_rows [OF s2(1,2)]
      by (auto simp: cleanup_tick_def on_stores Let_def delete_objects_def split: sum.split)
  qed
qed (simp add: cleanup_tick_def assms)

section \<open>Every frame\<close>

lemma gates_files [simp]:
  "files_ok (snd (sender_size_gates e p n s)) = files_ok s" "uuids_ok (snd (sender_size_gates e p n s)) = uuids_ok s"
proof -
  obtain sub s1 where b: "(if freeMaxPayload \<le> n then checkPremiumSubscription e (cid s p) s
      else (Inr True, s)) = (sub, s1)" by fastforce
  have s1: "files_ok s1 = files_ok s" "uuids_ok s1 = uuids_ok s"
    using b checkPremium_frame [of e "cid s p" s] files_ok_same(5) [of e "cid s p" s]
    by (cases "freeMaxPayload \<le> n"; auto)+
  show "files_ok (snd (sender_size_gates e p n s)) = files_ok s"
    "uuids_ok (snd (sender_size_gates e p n s)) = uuids_ok s"
    unfolding sender_size_gates_def b Let_def prod.case
    using s1 by (simp_all add: on_stores split: sum.split bool.split)
qed

lemma files_ok_SendMessage:
  assumes "files_ok s" "uuids_ok s"
  shows "files_ok (handleSendMessage e p msg s)"
proof -
  obtain g s1 where g: "sender_size_gates e p (payload_size (m_Envelope msg)) s = (g, s1)" by fastforce
  have s1: "files_ok s1" "uuids_ok s1"
    using gates_files [of e p "payload_size (m_Envelope msg)" s] assms g by simp_all
  obtain ttl s2 where t: "holdTTLForRecipient e (m_RecipientID msg) s1 = (ttl, s2)" by fastforce
  then have "s2 = snd (checkPremiumSubscription e (m_RecipientID msg) s1)"
    using holdTTL_snd [of e "m_RecipientID msg" s1] by simp
  with s1 have s2: "files_ok s2" "uuids_ok s2" by simp_all
  obtain r s3 where r: "routeSmallMessage e p (m_RecipientID msg) (m_Envelope msg) (m_ContentType msg) ttl s2 = (r, s3)"
    by fastforce
  have "files_ok s3" using caused_files [OF caused_routeSmall [OF refl, of False UNIV] _ s2(1)] r by (metis snd_conv)
  then show ?thesis
    using assms g s1 t r files_ok_send_large [OF s2]
    by (auto simp: handleSendMessage_def Let_def split: sum.split bool.split option.split)
qed

lemma files_ok_Broadcast:
  assumes "files_ok s" "uuids_ok s"
  shows "files_ok (handleBroadcastGroupMessage e p msg s)"
proof -
  let ?rs = "dedupe_recipients (cid s p) [] (m_Recipients msg)"
  let ?s1 = "charge_tokens p (int (length ?rs) - 1) s"
  obtain g s2 where g: "sender_size_gates e p (payload_size (m_Envelope msg)) ?s1 = (g, s2)" by fastforce
  have s2: "files_ok s2" "uuids_ok s2"
    using gates_files [of e p "payload_size (m_Envelope msg)" ?s1] assms g by (simp_all add: uuids_ok_def)
  have "files_ok (fan_out_small e p msg ?rs s2)"
    by (rule caused_files [OF caused_fan_out_small [OF refl, of False UNIV] _ s2(1)]) simp
  then show ?thesis
    using assms g s2 files_ok_broadcastLarge [OF s2]
    by (auto simp: handleBroadcastGroupMessage_def Let_def split: option.split)
qed

lemma files_ok_handleWSMessage:
  assumes "files_ok s" "uuids_ok s"
  shows "files_ok (handleWSMessage e p msg s)"
proof -
  note quiet = caused_files [of False UNIV, OF _ _ assms(1), simplified]
  show ?thesis
    by (simp add: handleWSMessage_def Let_def assms files_ok_SendMessage files_ok_Broadcast files_ok_FileReceived
        quiet [OF caused_handleNukeRecipient [OF refl]] quiet [OF caused_small_handlers(1) [OF refl]]
        quiet [OF caused_small_handlers(2) [OF refl]] quiet [OF caused_small_handlers(3) [OF refl]]
        quiet [OF caused_small_handlers(4) [OF refl]] quiet [OF caused_small_handlers(5) [OF refl]]
        quiet [OF caused_small_handlers(6) [OF refl]] quiet [OF caused_story_handlers(1) [OF refl]]
        quiet [OF caused_story_handlers(2) [OF refl]] quiet [OF caused_handlePostStory [OF refl]])
qed

end
