(* ===== verification/File_Properties.thy ===== *)
theory File_Properties
  imports File_Facts
begin

text \<open>
  The properties of large files: stored and offered, downloaded by the recipient alone,
  acknowledged by reference count, and where the reference count of a broadcast can fail.
\<close>

section \<open>No dangling references\<close>

text \<open>
  C2. In a relay whose frames and cleanup ticks run one after the other, no stored row ever
  refers to an object that is gone: every frame of any client, with any outages, and every run
  of the cleanup worker keep the invariant that each row's bucket URL names an object in the
  store, although uploads are rolled back, shared objects are reference-counted and expired
  rows are swept.
\<close>

theorem files_never_dangle:
  assumes "files_ok s" "uuids_ok s"
  shows "files_ok (handleWSMessage e p msg s) \<and> uuids_ok (handleWSMessage e p msg s) \<and>
    files_ok (cleanup_tick e s)"
  using files_ok_handleWSMessage [OF assms] files_ok_cleanup [OF assms] assms(2)
    caused_uuids [OF caused_handleWSMessage [OF refl], where L = UNIV] by simp

theorem files_never_dangle_witness:
  "files_ok (handleWSMessage env0 0 (to_bob ''x'') bob_online) \<and> files_ok (cleanup_tick env0 bob_online)"
proof -
  have "files_ok bob_online" by (rule files_okI) (auto simp: row_urls_def)
  moreover have "uuids_ok bob_online"
    using uuids_ok_relay0 by (simp add: uuids_ok_def bob_online_def two_clients_def new_Client_def hub_register_def)
  ultimately show ?thesis using files_never_dangle by blast
qed

section \<open>Stored and offered\<close>

lemma gates_supply:
  "drawn (snd (sender_size_gates e p n s)) = drawn s \<and> uuid_supply (snd (sender_size_gates e p n s)) = uuid_supply s"
proof -
  obtain sub s1 where b: "(if freeMaxPayload \<le> n then checkPremiumSubscription e (cid s p) s
      else (Inr True, s)) = (sub, s1)" by fastforce
  then have "drawn s1 = drawn s \<and> uuid_supply s1 = uuid_supply s"
    using checkPremium_frame [of e "cid s p" s] by (cases "freeMaxPayload \<le> n") auto
  then show ?thesis
    unfolding sender_size_gates_def b Let_def prod.case
    by (simp add: on_stores split: sum.split bool.split)
qed

lemma handleSend_large:
  assumes "m_RecipientID msg \<noteq> []" "IsQueueBlocked e (m_RecipientID msg) (rdb s) = Inr False"
    and "fst (sender_size_gates e p (payload_size (m_Envelope msg)) s) = None"
    and "largePayloadThreshold \<le> payload_size (m_Envelope msg)"
  shows "\<exists>s2 ttl. handleSendMessage e p msg s = send_large e p msg ttl s2 \<and> 24 * Hour \<le> ttl \<and>
    pg s2 = pg s \<and> storage s2 = storage s \<and> conns s2 = conns s \<and> clients s2 = clients s \<and>
    drawn s2 = drawn s \<and> uuid_supply s2 = uuid_supply s"
proof -
  obtain s1 where g: "sender_size_gates e p (payload_size (m_Envelope msg)) s = (None, s1)"
    using assms(3) by (metis prod.collapse)
  note s1 = gates_frame [of e p "payload_size (m_Envelope msg)" s, unfolded g snd_conv]
    gates_supply [of e p "payload_size (m_Envelope msg)" s, unfolded g snd_conv]
  let ?s2 = "snd (checkPremiumSubscription e (m_RecipientID msg) s1)"
  let ?ttl = "fst (holdTTLForRecipient e (m_RecipientID msg) s1)"
  have "handleSendMessage e p msg s = send_large e p msg ?ttl ?s2"
    using assms g holdTTL_pair [of e "m_RecipientID msg" s1] by (simp add: handleSendMessage_def Let_def split_beta)
  then show ?thesis using s1 holdTTL_ge by (intro exI [of _ ?s2] exI [of _ ?ttl]) simp
qed

lemma Upload_stores:
  assumes "\<not> fault e (Store OpCreate k)" "\<not> fault e (Store OpCopy k)"
  shows "Upload e k body st = (Inr (obj_url (client_kind st) k), st\<lparr>objects := (objects st)(k \<mapsto> body)\<rparr>)"
  using assms by (auto simp: Upload_def S3_Upload_def Local_Upload_def obj_url_def Let_def split: storage_client.split)

lemma StoreMessageSized_fresh:
  assumes "\<not> fault e (Pg OpStoreMessage r)" "i \<notin> set (row_ids d)"
  shows "StoreMessageSized e i r x env (Some url) ct ttl sz om d =
    (Inr i, d\<lparr>messages := messages d @ [\<lparr>pm_ID = i, pm_RecipientID = r, pm_SenderID = x, pm_Envelope = env,
       pm_BucketURL = Some url, pm_ContentType = ct, pm_ExpiresAt = now e + ttl, pm_SizeBytes = sz,
       pm_OfferMeta = om, pm_CreatedAt = now e\<rparr>]\<rparr>)"
  using assms by (simp add: StoreMessageSized_def row_ids_def Let_def)

text \<open>
  C7. A large message is stored once and offered. When a frame of at least 500 KB passes the
  gates and neither the upload nor the insert fails, the envelope is in the object store under
  a fresh key, exactly one row is added, it is addressed to the recipient, names the caller,
  holds no envelope but the object's URL, the size and the blanked meta data, and lives at least
  24 hours; a recipient online with room in the channel gets a \<open>FILE_OFFER\<close> for that row.
\<close>

theorem large_message_stored:
  assumes "m_RecipientID msg \<noteq> []" "IsQueueBlocked e (m_RecipientID msg) (rdb s) = Inr False"
    and "fst (sender_size_gates e p (payload_size (m_Envelope msg)) s) = None"
    and "500 * 1024 \<le> payload_size (m_Envelope msg)" "pg s = Some d"
    and "buildOfferMeta e (m_Envelope msg) = Some om"
    and "\<not> fault e (Store OpCreate (uuid_supply s (drawn s)))" "\<not> fault e (Store OpCopy (uuid_supply s (drawn s)))"
    and "\<not> fault e (Pg OpStoreMessage (m_RecipientID msg))" "uuid_supply s (drawn s + 1) \<notin> set (row_ids d)"
  defines "s' \<equiv> handleSendMessage e p msg s"
  shows "\<exists>row. pg s' = Some (d\<lparr>messages := messages d @ [row]\<rparr>) \<and> pm_ID row = uuid_supply s (drawn s + 1) \<and>
    pm_RecipientID row = m_RecipientID msg \<and> pm_SenderID row = cid s p \<and> pm_Envelope row = None \<and>
    pm_BucketURL row = Some (obj_url (client_kind (storage s)) (uuid_supply s (drawn s))) \<and>
    pm_SizeBytes row = payload_size (m_Envelope msg) \<and> pm_OfferMeta row = om \<and>
    now e + 24 * Hour \<le> pm_ExpiresAt row \<and>
    objects (storage s') = (objects (storage s))(uuid_supply s (drawn s) \<mapsto> m_Envelope msg) \<and>
    (\<forall>q. clients s (m_RecipientID msg) = Some q \<longrightarrow> \<not> cl_closed (conns s q) \<longrightarrow>
       length (cl_send (conns s q)) < 512 \<longrightarrow>
       cl_send (conns s' q) = cl_send (conns s q) @ [fileOfferFrom row])"
proof -
  obtain s2 ttl where s2: "s' = send_large e p msg ttl s2" "24 * Hour \<le> ttl" "pg s2 = Some d"
      "storage s2 = storage s" "conns s2 = conns s" "clients s2 = clients s"
      "drawn s2 = drawn s" "uuid_supply s2 = uuid_supply s"
    using handleSend_large [OF assms(1-3)] assms(4,5) by (auto simp: s'_def largePayloadThreshold_def)
  let ?k = "uuid_supply s (drawn s)"
  let ?url = "obj_url (client_kind (storage s)) ?k"
  let ?st = "(storage s)\<lparr>objects := (objects (storage s))(?k \<mapsto> m_Envelope msg)\<rparr>"
  let ?row = "\<lparr>pm_ID = uuid_supply s (drawn s + 1), pm_RecipientID = m_RecipientID msg, pm_SenderID = cid s p,
      pm_Envelope = None, pm_BucketURL = Some ?url, pm_ContentType = m_ContentType msg,
      pm_ExpiresAt = now e + ttl, pm_SizeBytes = payload_size (m_Envelope msg), pm_OfferMeta = om,
      pm_CreatedAt = now e\<rparr>"
  note up = Upload_stores [OF assms(7,8)]
  note st = StoreMessageSized_fresh [OF assms(9,10)]
  have s': "s' = announce_file e (m_RecipientID msg) (cid s p) (m_Envelope msg) (m_ContentType msg)
      (uuid_supply s (drawn s + 1)) (Some om) ttl
      (s2\<lparr>storage := ?st, drawn := drawn s + 2, pg := Some (d\<lparr>messages := messages d @ [?row]\<rparr>)\<rparr>)"
    using s2 up st assms(6) by (simp add: send_large_def handler_simps)
  obtain row where row: "row = ?row" by blast
  let ?s3 = "s2\<lparr>storage := ?st, drawn := drawn s + 2, pg := Some (d\<lparr>messages := messages d @ [row]\<rparr>)\<rparr>"
  have offer: "file_offer (cid s p) (m_ContentType msg) (uuid_supply s (drawn s + 1)) om
      (payload_size (m_Envelope msg)) (unix (now e + ttl)) = fileOfferFrom row"
    by (simp add: fileOfferFrom_def row)
  have "s' = (case clients s (m_RecipientID msg) of
      None \<Rightarrow> go_sendWakePush (m_RecipientID msg) (cid s p) (m_ContentType msg) ?s3
    | Some q \<Rightarrow> SendJSON q (fileOfferFrom row) ?s3)"
    unfolding s' announce_file_def getClient_def offer [symmetric]
    using s2(6) by (simp add: row split: option.split)
  then have "pg s' = Some (d\<lparr>messages := messages d @ [row]\<rparr>)" "storage s' = ?st"
    "\<forall>q. clients s (m_RecipientID msg) = Some q \<longrightarrow> s' = SendJSON q (fileOfferFrom row) ?s3"
    by (auto split: option.split)
  moreover have "cl_send (conns (SendJSON q f ?s3) q) = cl_send (conns s q) @ [f]"
    if "\<not> cl_closed (conns s q)" "length (cl_send (conns s q)) < 512" for q f
    using that s2(5) by (simp add: SendJSON_def send_buffer_def Let_def)
  moreover have "pm_ID row = uuid_supply s (drawn s + 1)" "pm_RecipientID row = m_RecipientID msg"
    "pm_SenderID row = cid s p" "pm_Envelope row = None" "pm_BucketURL row = Some ?url"
    "pm_SizeBytes row = payload_size (m_Envelope msg)" "pm_OfferMeta row = om"
    "now e + 24 * Hour \<le> pm_ExpiresAt row"
    using s2(2) by (simp_all add: row)
  ultimately show ?thesis by (intro exI [of _ row]) simp
qed

definition big_env :: string where "big_env = replicate 512000 (CHR ''x'')"

lemma size_big_env: "payload_size big_env = 512000"
  by (simp only: payload_size_def big_env_def length_replicate of_nat_numeral)

definition env_json :: env where
  "env_json = env0\<lparr>json_fields := (\<lambda>_. Some [''d'' \<mapsto> ''x'']), json_marshal := (\<lambda>_. Some ''{}'')\<rparr>"

lemma env_json_simps [simp]:
  "now env_json = 0" "fault env_json c = False" "buildOfferMeta env_json env = Some ''{}''"
  by (simp_all add: env_json_def buildOfferMeta_def env0_def)

lemma bob_supply [simp]:
  "uuid_supply bob_online n = CHR ''u'' # FormatNat n" "drawn bob_online = 0"
  "client_kind (storage bob_online) = LocalStorageClient ''store''" "objects (storage bob_online) = Map.empty"
  "rand_supply bob_online n k = Some (replicate k (of_nat n))"
  by (simp_all add: bob_online_def two_clients_def new_Client_def hub_register_def)

lemma big_gates: "fst (sender_size_gates env_json 0 512000 bob_online) = None"
  by (simp add: sender_size_gates_def plusMaxPayload_def freeMaxPayload_def largePayloadThreshold_def
      AllowLargeUpload_def on_stores Let_def NewRedisClient_def)

theorem large_message_stored_witness:
  "\<exists>row. pg (handleSendMessage env_json 0 (to_bob big_env) bob_online) = Some (pg_empty\<lparr>messages := [row]\<rparr>) \<and>
     pm_RecipientID row = ''bob'' \<and> pm_SenderID row = ''al'' \<and> pm_SizeBytes row = 512000 \<and>
     cl_send (conns (handleSendMessage env_json 0 (to_bob big_env) bob_online) 1) = [fileOfferFrom row]"
  using large_message_stored [of "to_bob big_env" env_json bob_online 0 pg_empty "''{}''"]
  by (auto simp: size_big_env big_gates IsQueueBlocked_def row_ids_def)

section \<open>Downloaded by the recipient alone\<close>

lemma find_unique:
  assumes "x \<in> set xs" "P x" "\<And>y. y \<in> set xs \<Longrightarrow> P y \<Longrightarrow> y = x"
  shows "find P xs = Some x"
proof (cases "find P xs")
  case None
  with assms(1,2) show ?thesis by (auto simp only: find_None_iff)
next
  case (Some y)
  from find_SomeD [OF this] have "y = x" by (intro assms(3)) simp_all
  with Some show ?thesis by simp
qed

lemma row_unique:
  "distinct (row_ids d) \<Longrightarrow> m \<in> set (messages d) \<Longrightarrow> row \<in> set (messages d) \<Longrightarrow>
    (pm_ID m = pm_ID row) = (m = row)"
  using inj_onD [of pm_ID "set (messages d)" m row] unfolding row_ids_def distinct_map by blast

lemma GetFileMessage_unique:
  assumes "row \<in> set (messages d)" "distinct (row_ids d)"
    and "pm_BucketURL row \<noteq> None" "now e < pm_ExpiresAt row" "\<not> fault e (Pg OpGetFileMessage (pm_ID row))"
  shows "GetFileMessage e (pm_ID row) (pm_RecipientID row) d = Inr (Some row)"
proof -
  have "find (\<lambda>m. pm_ID m = pm_ID row \<and> pm_RecipientID m = pm_RecipientID row \<and>
      pm_BucketURL m \<noteq> None \<and> now e < pm_ExpiresAt m) (messages d) = Some row"
    by (rule find_unique) (use assms row_unique [OF assms(2) _ assms(1)] in auto)
  then show ?thesis using assms(5) by (simp add: GetFileMessage_def)
qed

text \<open>
  C6. Request, then download, as often as needed. If a row addressed to the caller refers to an
  object with contents \<open>body\<close>, then \<open>REQUEST_FILE\<close> puts a \<open>FILE_TOKEN\<close> frame on the caller's
  channel whose token downloads exactly \<open>body\<close> for ten minutes while the row lives, and the
  download changes nothing, so an interrupted one can be retried with the same token.
\<close>

theorem request_then_download:
  assumes "pg s = Some d" "GetFileMessage e mid (cid s q) d = Inr (Some row)" "mid \<noteq> []"
    and "pm_BucketURL row = Some url" "storageKeyFromURL url \<noteq> []"
    and "objects (storage s) (storageKeyFromURL url) = Some body"
    and "rand_supply s (drawn s) 32 = Some r" "\<not> fault e (Rdb OpFileToken (hexEncode r))"
    and "\<not> cl_closed (conns s q)" "length (cl_send (conns s q)) < 512"
    and "CHR '':'' \<notin> set (cid s q)" "cid s q \<noteq> []" "r \<noteq> []"
    and "now e' \<le> now e + 10 * Minute" "now e' < pm_ExpiresAt row"
    and "\<not> fault e' (Rdb OpFileToken (hexEncode r))" "\<not> fault e' (Pg OpGetFileMessage mid)"
    and "\<not> fault e' (Store OpDownload (storageKeyFromURL url))"
    and "distinct (row_ids d)"
  defines "s' \<equiv> handleRequestFile e q ((frame ''REQUEST_FILE'')\<lparr>m_MessageID := mid\<rparr>) s"
  shows "\<exists>f. cl_send (conns s' q) = cl_send (conns s q) @ [f] \<and> m_Type f = ''FILE_TOKEN'' \<and>
      m_MessageID f = mid \<and> m_Size f = pm_SizeBytes row \<and>
      handleFileDownload e' ''GET'' (m_Token f) s' = DownloadServed (Some body)"
proof -
  from assms(2) have row: "find (\<lambda>m. pm_ID m = mid \<and> pm_RecipientID m = cid s q \<and>
      pm_BucketURL m \<noteq> None \<and> now e < pm_ExpiresAt m) (messages d) = Some row"
    by (auto simp: GetFileMessage_def split: if_splits)
  note rp = find_SomeD [OF this]
  let ?tok = "hexEncode r"
  let ?r1 = "snd (StoreFileToken e ?tok mid (cid s q) (rdb s))"
  have tok: "?tok \<noteq> []" using assms(13) by (cases r) (simp_all add: hexEncode_Cons)
  have store: "fst (StoreFileToken e ?tok mid (cid s q) (rdb s)) = Inr ()"
    using assms(8) by (simp add: StoreFileToken_def Let_def)
  have get: "GetFileToken e' ?tok ?r1 = Inr (mid, cid s q)"
  proof -
    have "LastIndex (mid @ CHR '':'' # cid s q) (CHR '':'') = Some (length mid)"
      by (rule LastIndex_append [OF assms(11)])
    then show ?thesis using assms(8,14,16)
      by (simp add: StoreFileToken_def GetFileToken_def Let_def fileTokenTTL_def)
  qed
  let ?f = "(frame ''FILE_TOKEN'')\<lparr>m_MessageID := mid, m_Token := ?tok, m_Size := pm_SizeBytes row,
      m_ExpiresAt := unix (pm_ExpiresAt row)\<rparr>"
  have s': "s' = SendJSON q ?f (s\<lparr>drawn := drawn s + 1, rdb := ?r1\<rparr>)"
    using assms(1-3,7) rp store by (simp add: s'_def handleRequestFile_def handler_simps)
  have row': "GetFileMessage e' mid (cid s q) d = Inr (Some row)"
    using GetFileMessage_unique [OF _ assms(19), of row e'] rp assms(4,15,17) by simp
  have dl: "Download e' (storageKeyFromURL url) (storage s) = Inr (Some body)"
    using assms(6,18) by (simp add: Download_def split: storage_client.split)
  have "handleFileDownload e' ''GET'' ?tok s' = DownloadServed (Some body)"
    unfolding handleFileDownload_def s'
    using assms(1,3,4,5,12) tok get row' dl by (simp add: Let_def)
  moreover have "cl_send (conns s' q) = cl_send (conns s q) @ [?f]"
    using assms(9,10) by (simp add: s' SendJSON_def send_buffer_def Let_def)
  ultimately show ?thesis by (intro exI [of _ ?f]) (simp add: frame_def)
qed

definition bob_row :: PGMessage where
  "bob_row = \<lparr>pm_ID = ''m'', pm_RecipientID = ''bob'', pm_SenderID = ''al'', pm_Envelope = None,
     pm_BucketURL = Some ''local://k'', pm_ContentType = ''image'', pm_ExpiresAt = Hour, pm_SizeBytes = 4,
     pm_OfferMeta = ''{}'', pm_CreatedAt = 0\<rparr>"

definition bob_file :: relay where
  "bob_file = bob_online\<lparr>pg := Some (pg_empty\<lparr>messages := [bob_row]\<rparr>),
     storage := \<lparr>client_kind = LocalStorageClient ''store'', objects = [''k'' \<mapsto> ''body'']\<rparr>\<rparr>"

lemma bob_file_simps [simp]:
  "pg bob_file = Some (pg_empty\<lparr>messages := [bob_row]\<rparr>)" "rdb bob_file = NewRedisClient"
  "storage bob_file = \<lparr>client_kind = LocalStorageClient ''store'', objects = [''k'' \<mapsto> ''body'']\<rparr>"
  "cl_send (conns bob_file q) = []" "cid bob_file (Suc 0) = ''bob''" "cid bob_file 0 = ''al''"
  "cl_closed (conns bob_file (Suc 0)) = False" "rand_supply bob_file n k = Some (replicate k (of_nat n))"
  "clients bob_file ''bob'' = Some 1" "drawn bob_file = 0"
  by (simp_all add: bob_file_def)

lemma local_key: "storageKeyFromURL ''local://k'' = ''k''"
  by (simp add: storageKeyFromURL_def HasPrefix_def TrimPrefix_def)

theorem request_then_download_witness:
  "\<exists>f. cl_send (conns (handleRequestFile env0 1 ((frame ''REQUEST_FILE'')\<lparr>m_MessageID := ''m''\<rparr>) bob_file) 1) = [f] \<and>
     handleFileDownload (env0\<lparr>now := Second\<rparr>) ''GET'' (m_Token f)
       (handleRequestFile env0 1 ((frame ''REQUEST_FILE'')\<lparr>m_MessageID := ''m''\<rparr>) bob_file)
     = DownloadServed (Some ''body'')"
  using request_then_download [of bob_file "pg_empty\<lparr>messages := [bob_row]\<rparr>" env0 "''m''" 1 bob_row
      "''local://k''" "''body''" "replicate 32 0" "env0\<lparr>now := Second\<rparr>"]
  by (auto simp: local_key GetFileMessage_def bob_row_def row_ids_def time_units)

text \<open>
  C5. Who may download. A download that is served presented a token that the key-value store
  still maps to a message and a user, and a row of that id exists that is addressed to that
  user, has not expired and refers to the object served; and a socket frame changes what any
  token maps to only by mapping it to an unexpired file row addressed to its own sender.
\<close>

theorem download_authorized:
  "(handleFileDownload e method token s = DownloadServed body \<longrightarrow>
      (\<exists>d mid user row url. pg s = Some d \<and> GetFileToken e token (rdb s) = Inr (mid, user) \<and> row \<in> set (messages d) \<and>
         pm_ID row = mid \<and> pm_RecipientID row = user \<and> now e < pm_ExpiresAt row \<and>
         pm_BucketURL row = Some url \<and> Download e (storageKeyFromURL url) (storage s) = Inr body)) \<and>
   (memoryTunnels (rdb (handleRequestFile e p msg s)) (''filetok:'' @ t) \<noteq> memoryTunnels (rdb s) (''filetok:'' @ t) \<longrightarrow>
      (\<exists>d row. pg s = Some d \<and> row \<in> set (messages d) \<and> pm_RecipientID row = cid s p \<and> now e < pm_ExpiresAt row \<and>
         pm_BucketURL row \<noteq> None \<and>
         memoryTunnels (rdb (handleRequestFile e p msg s)) (''filetok:'' @ t) = Some (pm_ID row @ '':'' @ cid s p)))"
proof (intro conjI impI)
  assume "handleFileDownload e method token s = DownloadServed body"
  then obtain d mid user row url where *: "pg s = Some d" "GetFileToken e token (rdb s) = Inr (mid, user)"
      "GetFileMessage e mid user d = Inr (Some row)" "pm_BucketURL row = Some url"
      "Download e (storageKeyFromURL url) (storage s) = Inr body"
    by (auto simp: handleFileDownload_def Let_def split: if_splits option.splits sum.splits prod.splits)
  from *(3) have "row \<in> set (messages d) \<and> pm_ID row = mid \<and> pm_RecipientID row = user \<and> now e < pm_ExpiresAt row"
    by (auto simp: GetFileMessage_def split: if_splits dest!: find_SomeD)
  with * show "\<exists>d mid user row url. pg s = Some d \<and> GetFileToken e token (rdb s) = Inr (mid, user) \<and> row \<in> set (messages d) \<and>
         pm_ID row = mid \<and> pm_RecipientID row = user \<and> now e < pm_ExpiresAt row \<and>
         pm_BucketURL row = Some url \<and> Download e (storageKeyFromURL url) (storage s) = Inr body"
    by blast
next
  assume ch: "memoryTunnels (rdb (handleRequestFile e p msg s)) (''filetok:'' @ t) \<noteq> memoryTunnels (rdb s) (''filetok:'' @ t)"
  have st: "memoryTunnels (snd (StoreFileToken e tok mid u r)) (''filetok:'' @ t) \<noteq> memoryTunnels r (''filetok:'' @ t) \<Longrightarrow>
      memoryTunnels (snd (StoreFileToken e tok mid u r)) (''filetok:'' @ t) = Some (mid @ '':'' @ u)" for tok mid u r
    by (auto simp: StoreFileToken_def Let_def split: if_splits)
  from ch obtain d row tok where *: "pg s = Some d" "GetFileMessage e (m_MessageID msg) (cid s p) d = Inr (Some row)"
      "rdb (handleRequestFile e p msg s) = snd (StoreFileToken e tok (pm_ID row) (cid s p) (rdb s))"
    by (auto simp: handleRequestFile_def handler_simps split: if_splits option.splits sum.splits)
  from *(2) have "row \<in> set (messages d) \<and> pm_RecipientID row = cid s p \<and> now e < pm_ExpiresAt row \<and> pm_BucketURL row \<noteq> None"
    by (auto simp: GetFileMessage_def split: if_splits dest!: find_SomeD)
  with * st ch show "\<exists>d row. pg s = Some d \<and> row \<in> set (messages d) \<and> pm_RecipientID row = cid s p \<and> now e < pm_ExpiresAt row \<and>
         pm_BucketURL row \<noteq> None \<and>
         memoryTunnels (rdb (handleRequestFile e p msg s)) (''filetok:'' @ t) = Some (pm_ID row @ '':'' @ cid s p)"
    by metis
qed

theorem download_authorized_witness:
  "memoryTunnels (rdb (handleRequestFile env0 1 ((frame ''REQUEST_FILE'')\<lparr>m_MessageID := ''m''\<rparr>) bob_file))
     (''filetok:'' @ hexEncode (replicate 32 0)) = Some ''m:bob''"
proof -
  let ?m = "(frame ''REQUEST_FILE'')\<lparr>m_MessageID := ''m''\<rparr>"
  have "memoryTunnels (rdb (handleRequestFile env0 1 ?m bob_file)) (''filetok:'' @ hexEncode (replicate 32 0)) \<noteq>
      memoryTunnels (rdb bob_file) (''filetok:'' @ hexEncode (replicate 32 0))"
    by (simp add: handleRequestFile_def handler_simps GetFileMessage_def StoreFileToken_def bob_row_def
        time_units Let_def)
  then show ?thesis
    using download_authorized [of env0 "''GET''" "''t''" bob_file "None" 1 ?m "hexEncode (replicate 32 0)"]
    by (auto simp: bob_row_def)
qed

section \<open>The reference count of the acknowledgement\<close>

lemma handleFileReceived_row:
  assumes "pg s = Some d" "distinct (row_ids d)" "row \<in> set (messages d)" "pm_BucketURL row = Some url"
    and "\<And>c. \<not> fault e c" "pm_ID row \<noteq> []" "storageKeyFromURL url \<noteq> []"
    and s': "s' = handleFileReceived e p ((frame ''FILE_RECEIVED'')\<lparr>m_MessageID := pm_ID row\<rparr>) s"
  shows "(cid s p = pm_RecipientID row \<longrightarrow>
      pg s' = Some (d\<lparr>messages := filter (\<lambda>m. m \<noteq> row) (messages d)\<rparr>) \<and>
      objects (storage s') = (if \<exists>m \<in> set (messages d). m \<noteq> row \<and> pm_BucketURL m = Some url
        then objects (storage s) else (objects (storage s))(storageKeyFromURL url := None))) \<and>
    (cid s p \<noteq> pm_RecipientID row \<longrightarrow> pg s' = Some d \<and> storage s' = storage s)"
proof -
  have only: "m \<in> set (messages d) \<Longrightarrow> (pm_ID m = pm_ID row) = (m = row)" for m
    by (rule row_unique [OF assms(2) _ assms(3)])
  have sel: "select_by_id (pm_ID row) d = Some row"
  proof (cases "select_by_id (pm_ID row) d")
    case None
    then show ?thesis using assms(3) by (auto simp: select_by_id_def find_None_iff)
  next
    case (Some r)
    then show ?thesis using select_by_id_in [OF Some] only by auto
  qed
  have del: "snd (DeleteMessage e (pm_ID row) d) = d\<lparr>messages := filter (\<lambda>m. m \<noteq> row) (messages d)\<rparr>"
    using only assms(5) by (simp add: DeleteMessage_def cong: filter_cong)
  let ?s1 = "s\<lparr>pg := Some (d\<lparr>messages := filter (\<lambda>m. m \<noteq> row) (messages d)\<rparr>)\<rparr>"
  have s1: "ack_delete_row e (pm_ID row) s = ?s1"
    using assms(1) del by (simp add: ack_delete_row_def on_stores)
  have un: "ack_unreferenced e url ?s1 \<longleftrightarrow> \<not> (\<exists>m \<in> set (messages d). m \<noteq> row \<and> pm_BucketURL m = Some url)"
    using assms(5) by (auto simp: ack_unreferenced_def CountMessagesByBucket_def filter_empty_conv)
  show ?thesis
    using assms sel s1 un
    by (auto simp: s' handleFileReceived_def Let_def ack_delete_object_def on_stores Storage_Delete_objects)
qed

text \<open>
  C10. Acknowledging a shared file. When the recipient acknowledges, without outages, exactly its
  own row disappears; the object stays if another row still refers to it and is deleted if none
  does. An acknowledgement by anyone else removes nothing.
\<close>

theorem ack_reference_count:
  assumes "pg s = Some d" "distinct (row_ids d)" "row \<in> set (messages d)" "pm_BucketURL row = Some url"
    and "\<And>c. \<not> fault e c" "pm_ID row \<noteq> []" "storageKeyFromURL url \<noteq> []"
    and "s' = handleFileReceived e p ((frame ''FILE_RECEIVED'')\<lparr>m_MessageID := pm_ID row\<rparr>) s"
  shows "(cid s p = pm_RecipientID row \<longrightarrow>
      pg s' = Some (d\<lparr>messages := filter (\<lambda>m. m \<noteq> row) (messages d)\<rparr>) \<and>
      objects (storage s') = (if \<exists>m \<in> set (messages d). m \<noteq> row \<and> pm_BucketURL m = Some url
        then objects (storage s) else (objects (storage s))(storageKeyFromURL url := None))) \<and>
    (cid s p \<noteq> pm_RecipientID row \<longrightarrow> pg s' = Some d \<and> storage s' = storage s)"
  unfolding assms(8) by (rule handleFileReceived_row [OF assms(1-7) refl])

theorem ack_reference_count_witness:
  "let s' = handleFileReceived env0 1 ((frame ''FILE_RECEIVED'')\<lparr>m_MessageID := ''m''\<rparr>) bob_file
   in pg s' = Some (pg_empty\<lparr>messages := []\<rparr>) \<and> objects (storage s') = Map.empty"
  using ack_reference_count [of bob_file "pg_empty\<lparr>messages := [bob_row]\<rparr>" bob_row "''local://k''" env0 _ 1]
  by (auto simp: local_key row_ids_def bob_row_def Let_def)

section \<open>Where the count can fail\<close>

text \<open>
  The loop of a broadcast is not atomic: between two recipients the frame of another client may
  run. Splitting the recipient list is splitting the loop.
\<close>

lemma fan_out_file_append:
  "snd (fan_out_file e p msg url om (rids1 @ rids2) s) =
   snd (fan_out_file e p msg url om rids2 (snd (fan_out_file e p msg url om rids1 s)))"
  by (induction rids1 arbitrary: s)
    (auto simp: handler_simps split_beta split: sum.split bool.split)

definition race_start :: relay where
  "race_start = bob_online\<lparr>drawn := 1,
     storage := \<lparr>client_kind = LocalStorageClient ''store'', objects = [CHR ''u'' # FormatNat 0 \<mapsto> ''body'']\<rparr>\<rparr>"

definition race_url :: string where "race_url = ''local://'' @ CHR ''u'' # FormatNat 0"

lemma race_start_simps [simp]:
  "rdb race_start = NewRedisClient" "pg race_start = Some pg_empty" "drawn race_start = 1"
  "clients race_start ''bob'' = Some 1" "clients race_start ''eve'' = None" "cid race_start 0 = ''al''"
  "cid race_start (Suc 0) = ''bob''" "uuid_supply race_start n = CHR ''u'' # FormatNat n"
  "storage race_start = \<lparr>client_kind = LocalStorageClient ''store'', objects = [CHR ''u'' # FormatNat 0 \<mapsto> ''body'']\<rparr>"
  by (simp_all add: race_start_def)

lemma FormatNat_eq [simp]: "FormatNat m = FormatNat n \<longleftrightarrow> m = n"
  by (metis digits_value_FormatNat)

lemma race_key: "storageKeyFromURL race_url = CHR ''u'' # FormatNat 0"
  using FormatNat_no_slash [of 0]
    storageKeyFromURL_obj_url [of "CHR ''u'' # FormatNat 0" "LocalStorageClient []"]
  by (simp add: obj_url_def race_url_def)

definition race_row :: "string \<Rightarrow> nat \<Rightarrow> PGMessage" where
  "race_row rid n = \<lparr>pm_ID = CHR ''u'' # FormatNat n, pm_RecipientID = rid, pm_SenderID = ''al'',
     pm_Envelope = None, pm_BucketURL = Some race_url, pm_ContentType = [], pm_ExpiresAt = freeHoldTTL,
     pm_SizeBytes = 1, pm_OfferMeta = ''{}'', pm_CreatedAt = 0\<rparr>"

lemma race_step:
  assumes "rdb s = NewRedisClient" "pg s = Some d" "entitlements d = Map.empty" "cid s 0 = ''al''"
    and "uuid_supply s = uuid_supply race_start" "CHR ''u'' # FormatNat (drawn s) \<notin> set (row_ids d)"
  shows "\<exists>s'. fan_out_file env0 0 group_msg race_url (Some ''{}'') [rid] s = (1, s') \<and>
    pg s' = Some (d\<lparr>messages := messages d @ [race_row rid (drawn s)]\<rparr>) \<and> storage s' = storage s \<and>
    rdb s' = NewRedisClient \<and> uuid_supply s' = uuid_supply s \<and> drawn s' = drawn s + 1 \<and>
    (\<forall>q. cid s' q = cid s q)"
proof -
  have prem: "checkPremiumSubscription env0 rid s = (Inr False, s)"
    using assms by (simp add: checkPremiumSubscription_def GetEntitlementHash_def GetEntitlement_def)
  have st: "StoreMessageSized env0 (CHR ''u'' # FormatNat (drawn s)) rid ''al'' None (Some race_url) [] freeHoldTTL 1 ''{}'' d
      = (Inr (CHR ''u'' # FormatNat (drawn s)), d\<lparr>messages := messages d @ [race_row rid (drawn s)]\<rparr>)"
    using assms(6) by (simp add: StoreMessageSized_def row_ids_def race_row_def Let_def)
  let ?s' = "announce_file env0 rid ''al'' ''g'' [] (CHR ''u'' # FormatNat (drawn s)) (Some ''{}'') freeHoldTTL
      (s\<lparr>drawn := drawn s + 1, pg := Some (d\<lparr>messages := messages d @ [race_row rid (drawn s)]\<rparr>)\<rparr>)"
  have "fan_out_file env0 0 group_msg race_url (Some ''{}'') [rid] s = (1, ?s')"
    using assms st prem
    by (simp add: IsQueueBlocked_def holdTTLForRecipient_def handler_simps group_msg_def frame_def payload_size_def)
  moreover have "rdb ?s' = rdb s" "cid ?s' q = cid s q" for q
    by (auto simp: announce_file_def handler_simps split: option.split)
  ultimately show ?thesis using assms(1) by (intro exI [of _ ?s']) simp
qed

text \<open>
  C20. The reference count of a broadcast races with its first acknowledgement. From a state in
  which every row has its object, the loop over \<open>bob\<close> and \<open>eve\<close> run without interruption keeps
  that so; but when \<open>bob\<close>, whose offer is out after his turn of the loop, acknowledges before
  \<open>eve\<close>'s row is inserted, his row is the last reference, the shared object is deleted, and the
  loop goes on to store a row for \<open>eve\<close> whose download can only fail.
\<close>

theorem broadcast_ack_race:
  "files_ok race_start \<and>
   files_ok (snd (fan_out_file env0 0 group_msg race_url (Some ''{}'') [''bob'', ''eve''] race_start)) \<and>
   (\<exists>mid row.
     let s1 = snd (fan_out_file env0 0 group_msg race_url (Some ''{}'') [''bob''] race_start);
         s2 = handleFileReceived env0 1 ((frame ''FILE_RECEIVED'')\<lparr>m_MessageID := mid\<rparr>) s1;
         s3 = snd (fan_out_file env0 0 group_msg race_url (Some ''{}'') [''eve''] s2)
     in row \<in> set (messages (the (pg s3))) \<and> pm_RecipientID row = ''eve'' \<and> pm_BucketURL row = Some race_url \<and>
        Download env0 (storageKeyFromURL race_url) (storage s3) = Inl storage_error)"
proof -
  have ok: "files_ok race_start" by (rule files_okI) (auto simp: row_urls_def)
  have live: "live_url race_start race_url"
    by (auto simp: live_url_def obj_url_def race_url_def)
  obtain n t where f: "fan_out_file env0 0 group_msg race_url (Some ''{}'') [''bob'', ''eve''] race_start = (n, t)"
    by fastforce
  have whole: "files_ok t" using fan_out_file_files [OF ok _ live f] by simp
  obtain s1 where s1: "fan_out_file env0 0 group_msg race_url (Some ''{}'') [''bob''] race_start = (1, s1)"
      "pg s1 = Some (pg_empty\<lparr>messages := [race_row ''bob'' 1]\<rparr>)" "storage s1 = storage race_start"
      "rdb s1 = NewRedisClient" "uuid_supply s1 = uuid_supply race_start" "drawn s1 = 2" "cid s1 1 = ''bob''"
      "cid s1 0 = ''al''"
    using race_step [of race_start pg_empty "''bob''"] by (auto simp: row_ids_def pg_empty_def numeral_2_eq_2)
  let ?ack = "(frame ''FILE_RECEIVED'')\<lparr>m_MessageID := pm_ID (race_row ''bob'' 1)\<rparr>"
  obtain s2 where s2: "s2 = handleFileReceived env0 1 ?ack s1" by blast
  have ack: "pg s2 = Some (pg_empty\<lparr>messages := []\<rparr>) \<and> objects (storage s2) = (objects (storage s1))(CHR ''u'' # FormatNat 0 := None)"
    using handleFileReceived_row [OF s1(2), of "race_row ''bob'' 1" race_url env0 s2 1] s1(7) s2 race_key
    by (auto simp: row_ids_def race_row_def)
  have c: "caused True UNIV ''bob'' 1 s1 s2" using caused_handleFileReceived [of s1 1 "''bob''"] s1(7) s2 by simp
  have r2: "rdb s2 = NewRedisClient" "drawn s2 = 2" "uuid_supply s2 = uuid_supply race_start" "cid s2 0 = ''al''"
      "client_kind (storage s2) = LocalStorageClient ''store''"
    using s1 s2 caused_frame [OF c]
    by (auto simp: handleFileReceived_def ack_delete_row_def ack_delete_object_def on_stores Let_def
        Storage_Delete_kind split: option.split)
  obtain s3 where s3: "fan_out_file env0 0 group_msg race_url (Some ''{}'') [''eve''] s2 = (1, s3)"
      "pg s3 = Some (pg_empty\<lparr>messages := [race_row ''eve'' 2]\<rparr>)" "storage s3 = storage s2"
    using race_step [of s2 "pg_empty\<lparr>messages := []\<rparr>" "''eve''"] r2 ack by (auto simp: row_ids_def pg_empty_def)
  have "Download env0 (storageKeyFromURL race_url) (storage s3) = Inl storage_error"
    using s3(3) r2(5) ack race_key by (simp add: Download_def)
  then have "let s1 = snd (fan_out_file env0 0 group_msg race_url (Some ''{}'') [''bob''] race_start);
         s2 = handleFileReceived env0 1 ?ack s1;
         s3 = snd (fan_out_file env0 0 group_msg race_url (Some ''{}'') [''eve''] s2)
     in race_row ''eve'' 2 \<in> set (messages (the (pg s3))) \<and> pm_RecipientID (race_row ''eve'' 2) = ''eve'' \<and>
        pm_BucketURL (race_row ''eve'' 2) = Some race_url \<and>
        Download env0 (storageKeyFromURL race_url) (storage s3) = Inl storage_error"
    using s1(1) s2 s3 by (simp add: Let_def race_row_def)
  then show ?thesis using ok whole f by auto
qed

end
