(* ===== verification/Nuke_Facts.thy ===== *)
theory Nuke_Facts
  imports Routing_Facts
begin

text \<open>
  The nuke command: what it locks and for how long, who unlocks it, and the key space its lock
  shares in the in-memory client.
\<close>

lemma AddMessageToQueue_blocks [simp]:
  "memoryBlocks (snd (AddMessageToQueue e u sd env ct ttl r)) = memoryBlocks r"
  "memoryEntitlements (snd (AddMessageToQueue e u sd env ct ttl r)) = memoryEntitlements r"
  by (simp_all add: AddMessageToQueue_def Let_def)

lemma AllowNuke_blocks [simp]:
  "memoryBlocks (snd (AllowNuke e u n r)) = memoryBlocks r"
  "memoryEntitlements (snd (AllowNuke e u n r)) = memoryEntitlements r"
  "memoryQueue (snd (AllowNuke e u n r)) = memoryQueue r"
  by (simp_all add: AllowNuke_def Let_def split: option.split)

lemma handleNuke_rdb:
  assumes "m_RecipientID msg \<noteq> []" "fst (AllowNuke e (cid s p) 10 (rdb s)) = Inr True"
    and "\<not> fault e (Rdb OpBlockQueue (m_RecipientID msg))"
  shows "rdb (handleNukeRecipient e p msg s) =
    snd (AddMessageToQueue e (m_RecipientID msg) (cid s p) (m_NukeEnvelope msg) ''nuke'' (7 * 24 * Hour)
      ((snd (AllowNuke e (cid s p) 10 (rdb s)))
         \<lparr>memoryBlocks := (memoryBlocks (rdb s))(m_RecipientID msg \<mapsto> now e + 24 * Hour)\<rparr>))"
  using assms
  by (simp add: handleNukeRecipient_def handler_simps nukeLimitPerHour_def BlockQueue_def nukeBlockTTL_def
      split: option.split)

text \<open>
  C9. A nuke locks, and only its victim unlocks. After a granted nuke the victim's queue reads as
  blocked for exactly 24 hours, every \<open>SEND_MESSAGE\<close> frame to the victim in that time, whatever its
  size, ends as an \<open>ERROR\<close> on the sender's own channel with nothing else changed, the nuke frame
  is the last entry of the victim's queue, and the victim's own \<open>ACK_NUKE\<close> lifts the lock at once.
\<close>

theorem nuke_locks_queue:
  assumes "m_RecipientID msg = v" "v \<noteq> []" "fst (AllowNuke e (cid s p) 10 (rdb s)) = Inr True"
    and "\<not> fault e (Rdb OpBlockQueue v)" "\<not> fault e (Rdb OpAddMessageToQueue v)"
    and "s' = handleNukeRecipient e p msg s" "\<not> fault e' (Rdb OpIsQueueBlocked v)"
  shows "IsQueueBlocked e' v (rdb s') = Inr (now e' \<le> now e + 24 * Hour) \<and>
    (now e' \<le> now e + 24 * Hour \<longrightarrow> handleSendMessage e' p' (send_to v env ct) s' =
       SendJSON p' (ws_error ''Recipient queue is locked due to active Nuke command'') s') \<and>
    (\<exists>q. memoryQueue (rdb s') v = Some q \<and> q \<noteq> [] \<and> entry_of (last q) = (cid s p, m_NukeEnvelope msg, ''nuke'')) \<and>
    (cid s' q' = v \<longrightarrow> \<not> fault e'' (Rdb OpUnblockQueue v) \<longrightarrow>
       IsQueueBlocked e' v (rdb (handleAckNuke e'' q' m s')) = Inr False)"
proof -
  let ?r = "(snd (AllowNuke e (cid s p) 10 (rdb s)))\<lparr>memoryBlocks := (memoryBlocks (rdb s))(v \<mapsto> now e + 24 * Hour)\<rparr>"
  have rdb: "rdb s' = snd (AddMessageToQueue e v (cid s p) (m_NukeEnvelope msg) ''nuke'' (7 * 24 * Hour) ?r)"
    using handleNuke_rdb [of msg e s p] assms(1-4,6) by simp
  have blocked: "IsQueueBlocked e' v (rdb s') = Inr (now e' \<le> now e + 24 * Hour)"
    using assms(7) by (auto simp: rdb IsQueueBlocked_def)
  have "AddMessageToQueue e v (cid s p) (m_NukeEnvelope msg) ''nuke'' (7 * 24 * Hour) ?r = (Inr (), rdb s')"
    using assms(5) rdb by (simp add: prod_eq_iff) (simp add: AddMessageToQueue_def Let_def)
  then have "\<exists>q. memoryQueue (rdb s') v = Some q \<and> q \<noteq> [] \<and> entry_of (last q) = (cid s p, m_NukeEnvelope msg, ''nuke'')"
    using AddMessageToQueue_bounded_aux by (metis Hour_pos mult_pos_pos zero_less_numeral)
  then show ?thesis
    using blocked assms(2,7)
    by (auto simp: handleSendMessage_def handleAckNuke_def handler_simps UnblockQueue_def IsQueueBlocked_def)
qed

definition nuke_bob :: WSMessage where
  "nuke_bob = (frame ''NUKE_RECIPIENT'')\<lparr>m_RecipientID := ''bob'', m_NukeEnvelope := ''x''\<rparr>"

theorem nuke_locks_queue_witness:
  "IsQueueBlocked (env0\<lparr>now := 24 * Hour\<rparr>) ''bob'' (rdb (handleNukeRecipient env0 0 nuke_bob bob_online)) = Inr True \<and>
   IsQueueBlocked (env0\<lparr>now := 24 * Hour + 1\<rparr>) ''bob'' (rdb (handleNukeRecipient env0 0 nuke_bob bob_online)) = Inr False"
proof -
  have "fst (AllowNuke env0 (cid bob_online 0) 10 (rdb bob_online)) = Inr True" "m_RecipientID nuke_bob = ''bob''"
    by (simp_all add: AllowNuke_def Let_def nuke_bob_def)
  note n = nuke_locks_queue [OF this(2) _ this(1) _ _ refl]
  show ?thesis
    using n [of "env0\<lparr>now := 24 * Hour\<rparr>"] n [of "env0\<lparr>now := 24 * Hour + 1\<rparr>"] by (simp add: env0_def)
qed

text \<open>
  Locks and cached subscriptions share one map. In the in-memory client a nuke of the
  made-up recipient \<open>entitlement:u\<close> re-arms the cached entitlement of \<open>u\<close> whose time had run
  out, so that the premium check holds for another 24 hours, whatever Postgres says.
\<close>

theorem nuke_revives_entitlement:
  assumes "memoryEntitlements (rdb s) u = Some h" "h \<noteq> []"
    and "m_RecipientID msg = ''entitlement:'' @ u" "fst (AllowNuke e (cid s p) 10 (rdb s)) = Inr True"
    and "\<not> fault e (Rdb OpBlockQueue (''entitlement:'' @ u))"
    and "now e' \<le> now e + 24 * Hour" "\<not> fault e' (Rdb OpEntitlement u)"
  shows "fst (checkPremiumSubscription e' u (handleNukeRecipient e p msg s)) = Inr True"
proof -
  have "rdb (handleNukeRecipient e p msg s) =
    snd (AddMessageToQueue e (''entitlement:'' @ u) (cid s p) (m_NukeEnvelope msg) ''nuke'' (7 * 24 * Hour)
      ((snd (AllowNuke e (cid s p) 10 (rdb s)))
         \<lparr>memoryBlocks := (memoryBlocks (rdb s))(''entitlement:'' @ u \<mapsto> now e + 24 * Hour)\<rparr>))"
    using handleNuke_rdb [of msg e s p] assms(3-5) by simp
  then have "GetEntitlementHash e' u (rdb (handleNukeRecipient e p msg s)) = Inr h"
    using assms(1,6,7) by (simp add: GetEntitlementHash_def)
  then show ?thesis using assms(2) by (simp add: checkPremiumSubscription_def Let_def)
qed

theorem nuke_revives_entitlement_witness:
  "let s = bob_online\<lparr>rdb := snd (rdb_StoreEntitlement env0 ''u'' ''h'' Hour NewRedisClient)\<rparr>;
       e1 = env0\<lparr>now := 2 * Hour\<rparr>;
       s' = handleNukeRecipient e1 0 ((frame ''NUKE_RECIPIENT'')\<lparr>m_RecipientID := ''entitlement:u''\<rparr>) s
   in fst (checkPremiumSubscription e1 ''u'' s) = Inr False \<and> fst (checkPremiumSubscription e1 ''u'' s') = Inr True"
proof -
  let ?s = "bob_online\<lparr>rdb := snd (rdb_StoreEntitlement env0 ''u'' ''h'' Hour NewRedisClient)\<rparr>"
  let ?e1 = "env0\<lparr>now := 2 * Hour\<rparr>" and ?m = "(frame ''NUKE_RECIPIENT'')\<lparr>m_RecipientID := ''entitlement:u''\<rparr>"
  have "fst (checkPremiumSubscription ?e1 ''u'' ?s) = Inr False"
    by (simp add: checkPremiumSubscription_def GetEntitlementHash_def GetEntitlement_def rdb_StoreEntitlement_def
        env0_def)
  moreover have "fst (checkPremiumSubscription ?e1 ''u'' (handleNukeRecipient ?e1 0 ?m ?s)) = Inr True"
    by (rule nuke_revives_entitlement [where h = "''h''"])
      (simp_all add: rdb_StoreEntitlement_def AllowNuke_def Let_def env0_def less_imp_le)
  ultimately show ?thesis by (simp add: Let_def)
qed

end
