(* ===== verification/Http_Types.thy ===== *)
theory Http_Types
  imports Ws_Stories
begin

text \<open>
  What the HTTP side of the relay is given and gives back: the two functions of \<open>net\<close> and
  \<open>strings\<close> that \<open>clientIP\<close> calls, the request structs of main.go, push.go and
  social_stories.go, requests and responses.
\<close>

section \<open>Packages strings and net\<close>

text \<open>
  \<open>strings.TrimSpace\<close> cuts the white space of \<open>unicode.IsSpace\<close> off both ends. These are its
  runes in UTF-8; no other byte sequence decodes to one.
\<close>

definition space_runes :: "string list" where
  "space_runes =
     [[CHR 0x09], [CHR 0x0A], [CHR 0x0B], [CHR 0x0C], [CHR 0x0D], [CHR 0x20],
      [CHR 0xC2, CHR 0x85], [CHR 0xC2, CHR 0xA0], [CHR 0xE1, CHR 0x9A, CHR 0x80]]
     @ map (\<lambda>c. [CHR 0xE2, CHR 0x80, c])
         [CHR 0x80, CHR 0x81, CHR 0x82, CHR 0x83, CHR 0x84, CHR 0x85, CHR 0x86, CHR 0x87,
          CHR 0x88, CHR 0x89, CHR 0x8A, CHR 0xA8, CHR 0xA9, CHR 0xAF]
     @ [[CHR 0xE2, CHR 0x81, CHR 0x9F], [CHR 0xE3, CHR 0x80, CHR 0x80]]"

text \<open>Cuts the given non-empty prefixes off as long as one matches.\<close>

function trim_left :: "string list \<Rightarrow> string \<Rightarrow> string" where
  "trim_left rs s =
     (case find (\<lambda>r. r \<noteq> [] \<and> HasPrefix s r) rs of
        None \<Rightarrow> s
      | Some r \<Rightarrow> trim_left rs (drop (length r) s))"
  by pat_completeness auto
termination
proof (relation "measure (\<lambda>(rs, s). length s)")
  fix rs s r
  assume "find (\<lambda>r. r \<noteq> [] \<and> HasPrefix s r) rs = Some r"
  then have "r \<noteq> []" "HasPrefix s r" by (auto simp: find_Some_iff)
  then show "((rs, drop (length r) s), (rs, s)) \<in> measure (\<lambda>(rs, s). length s)"
    by (auto simp: HasPrefix_iff)
qed simp

declare trim_left.simps [simp del]

definition TrimSpace :: "string \<Rightarrow> string" where
  "TrimSpace s = rev (trim_left (map rev space_runes) (rev (trim_left space_runes s)))"

text \<open>The first index of a byte; \<open>None\<close> is Go's -1.\<close>

fun IndexByte :: "string \<Rightarrow> char \<Rightarrow> nat option" where
  "IndexByte [] c = None"
| "IndexByte (x # xs) c = (if x = c then Some 0 else map_option Suc (IndexByte xs c))"

text \<open>\<open>net.SplitHostPort\<close>: \<open>host:port\<close>, with brackets around a host that has colons.\<close>

definition SplitHostPort :: "string \<Rightarrow> (string \<times> string) result" where
  "SplitHostPort hostport =
     (case LastIndex hostport (CHR '':'') of
        None \<Rightarrow> Inl ''missing port in address''
      | Some i \<Rightarrow>
          let bracketed = (hd hostport = CHR ''['');
              finish = (\<lambda>host j k.
                if CHR ''['' \<in> set (drop j hostport) then Inl (''unexpected '' @ [CHR 0x27, CHR ''['', CHR 0x27] @ '' in address'')
                else if CHR '']'' \<in> set (drop k hostport) then Inl (''unexpected '' @ [CHR 0x27, CHR '']'', CHR 0x27] @ '' in address'')
                else Inr (host, drop (i + 1) hostport))
          in if bracketed then
               (case IndexByte hostport (CHR '']'') of
                  None \<Rightarrow> Inl (''missing '' @ [CHR 0x27, CHR '']'', CHR 0x27] @ '' in address'')
                | Some end \<Rightarrow>
                    if end + 1 = length hostport then Inl ''missing port in address''
                    else if end + 1 = i then finish (take (end - 1) (drop 1 hostport)) 1 (end + 1)
                    else if hostport ! (end + 1) = CHR '':'' then Inl ''too many colons in address''
                    else Inl ''missing port in address'')
             else if CHR '':'' \<in> set (take i hostport) then Inl ''too many colons in address''
             else finish (take i hostport) 0 0)"

section \<open>Request bodies\<close>

record PostMessageRequest =
  pr_RecipientID :: string
  pr_Envelope :: string
  pr_Challenge :: string
  pr_Nonce :: int
  pr_Voucher :: "Voucher option"

record PushRequest =
  pu_ID :: string
  pu_Pubkey :: string
  pu_Timestamp :: int
  pu_Sig :: string
  pu_Token :: string
  pu_DeviceToken :: string

record EntitlementRequest =
  er_UserID :: string
  er_Pubkey :: string
  er_Signature :: string
  er_Timestamp :: int
  er_PurchaseToken :: string
  er_SubscriptionHash :: string

record IntegrityChallengeRequest =
  ic_UserID :: string
  ic_Pubkey :: string
  ic_Signature :: string
  ic_Timestamp :: int

record IntegrityAttestRequest =
  ia_UserID :: string
  ia_Pubkey :: string
  ia_IntegrityToken :: string
  ia_Signature :: string
  ia_Timestamp :: int

text \<open>Only the four authentication fields of \<open>SocialRequest\<close> are read by a handler.\<close>

record SocialRequest =
  so_ID :: string
  so_Pubkey :: string
  so_Timestamp :: int
  so_Sig :: string

section \<open>Requests and responses\<close>

text \<open>
  A request: the method, the address of the peer, \<open>r.Header.Get\<close> and \<open>r.URL.Query().Get\<close> as
  functions (the empty string when absent), and what decoding the JSON body into each of the
  request structs gives (\<open>None\<close> is a decoding error).
\<close>

record http_request =
  rq_Method :: string
  rq_RemoteAddr :: string
  rq_Header :: "string \<Rightarrow> string"
  rq_Query :: "string \<Rightarrow> string"
  rq_post :: "PostMessageRequest option"
  rq_push :: "PushRequest option"
  rq_entitlement :: "EntitlementRequest option"
  rq_challenge :: "IntegrityChallengeRequest option"
  rq_attest :: "IntegrityAttestRequest option"
  rq_social :: "SocialRequest option"

text \<open>
  A response: the status and the body, which is the text of \<open>http.Error\<close> (written with a final
  newline), a literal JSON text, a JSON object by its members, or the bytes of a file.
\<close>

datatype json_value = JStr string | JInt int | JBool bool

datatype http_body =
    ErrorText string
  | RawJson string
  | Json "(string \<times> json_value) list"
  | Octets "string option"

type_synonym http_response = "nat \<times> http_body"

definition http_Error :: "string \<Rightarrow> nat \<Rightarrow> http_response" where
  "http_Error text code = (code, ErrorText text)"

definition method_not_allowed :: http_response where
  "method_not_allowed = http_Error ''Method not allowed'' 405"

section \<open>The address of a client\<close>

definition remote_host :: "http_request \<Rightarrow> string" where
  "remote_host r =
     (case SplitHostPort (rq_RemoteAddr r) of Inl _ \<Rightarrow> rq_RemoteAddr r | Inr (host, _) \<Rightarrow> host)"

definition clientIP :: "http_request \<Rightarrow> string" where
  "clientIP r =
     (let host = remote_host r in
      if host = ''127.0.0.1'' \<or> host = ''::1'' then
        let xr = TrimSpace (rq_Header r ''X-Real-IP'') in
        if xr \<noteq> [] then xr
        else let xff = rq_Header r ''X-Forwarded-For'' in
             if xff \<noteq> [] then TrimSpace (hd (Split xff (CHR '','')))
             else host
      else host)"

lemma IndexByte_append: "c \<notin> set u \<Longrightarrow> IndexByte (u @ c # v) c = Some (length u)"
  by (induction u) auto

lemma SplitHostPort_plain:
  assumes "set h \<inter> {CHR '':'', CHR ''['', CHR '']''} = {}" "h \<noteq> []"
    and "set p \<inter> {CHR '':'', CHR ''['', CHR '']''} = {}"
  shows "SplitHostPort (h @ CHR '':'' # p) = Inr (h, p)"
  using assms
  by (cases h) (auto simp: SplitHostPort_def Let_def LastIndex_append
      LastIndex_append [of "CHR '':''" p "x # xs" for x xs, simplified])

lemma SplitHostPort_bracketed:
  assumes "set h \<inter> {CHR ''['', CHR '']''} = {}"
    and "set p \<inter> {CHR '':'', CHR ''['', CHR '']''} = {}"
  shows "SplitHostPort (CHR ''['' # h @ CHR '']'' # CHR '':'' # p) = Inr (h, p)"
  using assms IndexByte_append [of "CHR '']''" "CHR ''['' # h" "CHR '':'' # p"]
    LastIndex_append [of "CHR '':''" p "CHR ''['' # h @ [CHR '']'']"]
  by (auto simp: SplitHostPort_def Let_def)

lemma clientIP_body [simp]: "clientIP (r\<lparr>rq_post := x\<rparr>) = clientIP (r :: http_request)"
  by (cases "SplitHostPort (rq_RemoteAddr r)") (simp_all add: clientIP_def remote_host_def Let_def split_beta)

lemma clientIP_direct:
  "remote_host r \<notin> {''127.0.0.1'', ''::1''} \<Longrightarrow> clientIP r = remote_host r"
  by (auto simp: clientIP_def Let_def)

end
