(* ===== verification/Http_Guard.thy ===== *)
theory Http_Guard
  imports Http_Types
begin

text \<open>
  What stands before every HTTP endpoint: the middleware with the ban and the request rate of an
  address, the penalty for a failed validation (main.go), and the checks of an identity by
  timestamp, key and signature with the device-token gate (push.go, social_stories.go, main.go).
  A check that fails gives the response that was written; \<open>None\<close> is the answer true.
\<close>

section \<open>Rate limit and bans\<close>

definition rateLimitMiddleware ::
  "env \<Rightarrow> http_request \<Rightarrow> (relay \<Rightarrow> http_response \<times> relay) \<Rightarrow> relay \<Rightarrow> http_response \<times> relay" where
  "rateLimitMiddleware e r nxt s =
     (let ip = clientIP r in
      case CheckIPBan e ip (rdb s) of
        Inl _ \<Rightarrow> (http_Error ''{\"error\":\"Database error check ban\"}'' 500, s)
      | Inr True \<Rightarrow> ((403, RawJson ''{\"error\":\"Banned\"}''), s)
      | Inr False \<Rightarrow>
          (case on_rdb (CheckIPRateLimit e ip 10) s of
             (Inl _, s1) \<Rightarrow> (http_Error ''{\"error\":\"Database error check rate limit\"}'' 500, s1)
           | (Inr False, s1) \<Rightarrow> ((429, RawJson ''{\"error\":\"Rate limit exceeded\"}''), s1)
           | (Inr True, s1) \<Rightarrow> nxt s1))"

definition registerIPFailure :: "env \<Rightarrow> string \<Rightarrow> relay \<Rightarrow> relay" where
  "registerIPFailure e ip s =
     (let (answer, s1) = on_rdb (IncrementIPFailure e ip) s;
          fails = (case answer of Inl _ \<Rightarrow> 0 | Inr n \<Rightarrow> n);
          banDuration = (if fails = 1 then 5 * Minute else if 2 \<le> fails then 30 * Minute else 0)
      in if 0 < banDuration then snd (on_rdb (BanIP e ip banDuration) s1) else s1)"

definition handleValidationFailure :: "env \<Rightarrow> string \<Rightarrow> string \<Rightarrow> relay \<Rightarrow> http_response \<times> relay" where
  "handleValidationFailure e ip reason s =
     ((400, RawJson (''{\"error\":\"Validation failed: '' @ reason @ ''\"}'')), registerIPFailure e ip s)"

section \<open>Identity checks\<close>

text \<open>The answer of a check: the response that refuses, or \<open>None\<close>.\<close>

type_synonym check_answer = "http_response option \<times> relay"

definition refuse :: "http_response \<Rightarrow> relay \<Rightarrow> check_answer" where
  "refuse resp s = (Some resp, s)"

definition punish :: "env \<Rightarrow> string \<Rightarrow> string \<Rightarrow> relay \<Rightarrow> check_answer" where
  "punish e ip reason s = (let (resp, s') = handleValidationFailure e ip reason s in (Some resp, s'))"

definition verifyDeviceTokenGate :: "env \<Rightarrow> string \<Rightarrow> string \<Rightarrow> relay \<Rightarrow> http_response option" where
  "verifyDeviceTokenGate e userID deviceToken s =
     (case pg s of
        None \<Rightarrow> Some (http_Error ''{\"error\":\"token store unavailable\"}'' 503)
      | Some db \<Rightarrow>
          if deviceToken = [] then Some (403, RawJson ''{\"error\":\"device_token_required\"}'')
          else (case VerifyDeviceToken e userID deviceToken db of
                  Inl _ \<Rightarrow> Some (http_Error ''{\"error\":\"token store error\"}'' 500)
                | Inr (valid, _) \<Rightarrow>
                    if \<not> valid then Some (403, RawJson ''{\"error\":\"device_token_invalid\"}'')
                    else None))"

definition verifyPushIdentity ::
  "env \<Rightarrow> string \<Rightarrow> PushRequest \<Rightarrow> string \<Rightarrow> relay \<Rightarrow> check_answer" where
  "verifyPushIdentity e ip req signedMessage s =
     (if pu_ID req = [] \<or> pu_Pubkey req = [] \<or> pu_Sig req = [] \<or> pu_Timestamp req = 0
      then refuse (http_Error ''Missing fields'' 400) s
      else if 30 < drift (now e) (pu_Timestamp req) then punish e ip ''timestamp drift too high'' s
      else (case DecodeString (pu_Pubkey req) of
              None \<Rightarrow> refuse (http_Error ''Invalid pubkey hex format'' 400) s
            | Some pubBytes \<Rightarrow>
                if GenerateUserID pubBytes \<noteq> pu_ID req
                then punish e ip ''identity public key mismatch'' s
                else if VerifySignature (ed_verify e) (pu_Pubkey req) (pu_Sig req)
                          (bytes_of signedMessage) \<noteq> Inr True
                then punish e ip ''invalid authentication signature'' s
                else (None, s)))"

definition verifySocialIdentity ::
  "env \<Rightarrow> string \<Rightarrow> SocialRequest \<Rightarrow> string \<Rightarrow> relay \<Rightarrow> check_answer" where
  "verifySocialIdentity e ip req signedMessage s =
     (if so_ID req = [] \<or> so_Pubkey req = [] \<or> so_Sig req = [] \<or> so_Timestamp req = 0
      then refuse (http_Error ''{\"error\":\"Missing required authentication fields\"}'' 400) s
      else if 60 < drift (now e) (so_Timestamp req) then punish e ip ''timestamp drift too high'' s
      else (case DecodeString (so_Pubkey req) of
              None \<Rightarrow> refuse (http_Error ''{\"error\":\"Invalid pubkey hex\"}'' 400) s
            | Some pubBytes \<Rightarrow>
                if GenerateUserID pubBytes \<noteq> so_ID req
                then punish e ip ''identity public key mismatch'' s
                else if VerifySignature (ed_verify e) (so_Pubkey req) (so_Sig req)
                          (bytes_of signedMessage) \<noteq> Inr True
                then punish e ip ''invalid cryptographic signature'' s
                else (None, s)))"

definition verifyQueryIdentity ::
  "env \<Rightarrow> string \<Rightarrow> string \<Rightarrow> string \<Rightarrow> string \<Rightarrow> string \<Rightarrow> string \<Rightarrow> relay \<Rightarrow> check_answer" where
  "verifyQueryIdentity e ip userID pubkey timestampStr sig signedMessage s =
     (if userID = [] \<or> pubkey = [] \<or> timestampStr = [] \<or> sig = []
      then refuse (http_Error ''{\"error\":\"Missing authentication query parameters\"}'' 400) s
      else (case ParseInt timestampStr of
              None \<Rightarrow> refuse (http_Error ''{\"error\":\"Invalid timestamp\"}'' 400) s
            | Some ts \<Rightarrow>
                if 60 < drift (now e) ts then punish e ip ''timestamp drift too high'' s
                else (case DecodeString pubkey of
                        None \<Rightarrow> refuse (http_Error ''{\"error\":\"Invalid pubkey hex\"}'' 400) s
                      | Some pubBytes \<Rightarrow>
                          if GenerateUserID pubBytes \<noteq> userID
                          then punish e ip ''identity public key mismatch'' s
                          else if VerifySignature (ed_verify e) pubkey sig (bytes_of signedMessage) \<noteq> Inr True
                          then punish e ip ''invalid cryptographic signature'' s
                          else (None, s))))"

text \<open>The checks that \<open>handleQueueStatus\<close> (main.go) writes out, up to its device-token gate.\<close>

definition verifyStatusIdentity ::
  "env \<Rightarrow> string \<Rightarrow> string \<Rightarrow> string \<Rightarrow> string \<Rightarrow> string \<Rightarrow> relay \<Rightarrow> check_answer" where
  "verifyStatusIdentity e ip uid timestampStr sig pubkey s =
     (if uid = [] \<or> timestampStr = [] \<or> sig = [] \<or> pubkey = []
      then refuse (http_Error ''Missing query parameters'' 400) s
      else (case ParseInt timestampStr of
              None \<Rightarrow> refuse (http_Error ''Invalid timestamp'' 400) s
            | Some timestamp \<Rightarrow>
                if 30 < drift (now e) timestamp then punish e ip ''timestamp drift too high'' s
                else (case DecodeString pubkey of
                        None \<Rightarrow> refuse (http_Error ''Invalid pubkey hex format'' 400) s
                      | Some pubBytes \<Rightarrow>
                          if GenerateUserID pubBytes \<noteq> uid
                          then punish e ip ''identity public key mismatch'' s
                          else if VerifySignature (ed_verify e) pubkey sig
                                    (bytes_of (uid @ '':'' @ FormatInt timestamp)) \<noteq> Inr True
                          then punish e ip ''invalid authentication signature'' s
                          else (None, s))))"

text \<open>The checks that \<open>handlePostEntitlement\<close> (main.go) writes out.\<close>

definition verifyEntitlementIdentity :: "env \<Rightarrow> string \<Rightarrow> EntitlementRequest \<Rightarrow> relay \<Rightarrow> check_answer" where
  "verifyEntitlementIdentity e ip req s =
     (if er_UserID req = [] \<or> er_Pubkey req = [] \<or> er_Signature req = [] \<or> er_Timestamp req = 0
      then refuse (http_Error ''Missing authentication fields'' 400) s
      else if 30 < drift (now e) (er_Timestamp req) then punish e ip ''timestamp drift too high'' s
      else (case DecodeString (er_Pubkey req) of
              None \<Rightarrow> refuse (http_Error ''Invalid pubkey hex format'' 400) s
            | Some pubBytes \<Rightarrow>
                if GenerateUserID pubBytes \<noteq> er_UserID req
                then punish e ip ''identity public key mismatch'' s
                else if VerifySignature (ed_verify e) (er_Pubkey req) (er_Signature req)
                          (bytes_of (er_UserID req @ '':'' @ FormatInt (er_Timestamp req))) \<noteq> Inr True
                then punish e ip ''invalid authentication signature'' s
                else (None, s)))"

text \<open>
  The checks that \<open>handleIntegrityChallenge\<close> and \<open>handleIntegrityAttest\<close> (main.go) both write
  out, with the message that each of them signs.
\<close>

definition verifyIntegrityIdentity ::
  "env \<Rightarrow> string \<Rightarrow> string \<Rightarrow> string \<Rightarrow> string \<Rightarrow> int \<Rightarrow> string \<Rightarrow> relay \<Rightarrow> check_answer" where
  "verifyIntegrityIdentity e ip userID pubkey sig timestamp message s =
     (if 60 < drift (now e) timestamp then punish e ip ''timestamp drift too high'' s
      else (case DecodeString pubkey of
              None \<Rightarrow> refuse (http_Error ''Invalid pubkey hex format'' 400) s
            | Some pubBytes \<Rightarrow>
                let computedID = hexEncode (sha256 pubBytes) in
                if computedID \<noteq> userID
                then punish e ip ''user_id does not match sha256(pubkey)'' s
                else if VerifySignature (ed_verify e) pubkey sig (bytes_of message) \<noteq> Inr True
                then punish e ip ''invalid authentication signature'' s
                else (None, s)))"

end
