(* ===== verification/Http_Handlers.thy ===== *)
theory Http_Handlers
  imports Http_Guard
begin

text \<open>
  The HTTP endpoints of main.go, push.go and social_stories.go, one definition per handler; the
  long \<open>handlePostQueue\<close> in the four stages that its comments number. A handler gives the
  response it writes and the state it leaves. The route table is \<open>serve_http\<close>.
\<close>

section \<open>Proof-of-work challenges\<close>

definition GenerateChallenge :: "relay \<Rightarrow> string result \<times> relay" where
  "GenerateChallenge s =
     (case rand_Read 16 s of
        (None, s') \<Rightarrow> (Inl ''crypto/rand: read failed'', s')
      | (Some b, s') \<Rightarrow> (Inr (hexEncode b), s'))"

definition handleGetChallenge :: "env \<Rightarrow> http_request \<Rightarrow> relay \<Rightarrow> http_response \<times> relay" where
  "handleGetChallenge e r s =
     (if rq_Method r \<noteq> ''GET'' then (method_not_allowed, s)
      else (case GenerateChallenge s of
              (Inl _, s1) \<Rightarrow> (http_Error ''Failed to generate challenge'' 500, s1)
            | (Inr challenge, s1) \<Rightarrow>
                let difficulty = 5 in
                (case on_rdb (StorePoWChallenge e challenge difficulty) s1 of
                   (Inl _, s2) \<Rightarrow> (http_Error ''Failed to store challenge'' 500, s2)
                 | (Inr _, s2) \<Rightarrow>
                     ((200, Json [(''challenge'', JStr challenge), (''difficulty'', JInt (int difficulty))]), s2))))"

section \<open>Posting to a queue\<close>

text \<open>The spam protection: proof of work, a voucher, or neither.\<close>

definition check_pow :: "env \<Rightarrow> string \<Rightarrow> PostMessageRequest \<Rightarrow> relay \<Rightarrow> check_answer" where
  "check_pow e ip req s =
     (if pr_Challenge req = [] \<or> pr_Nonce req = 0 then punish e ip ''missing pow fields'' s
      else (case on_rdb (GetPoWChallengeDifficulty e (pr_Challenge req)) s of
              (Inl _, s1) \<Rightarrow> punish e ip ''invalid/expired challenge'' s1
            | (Inr difficulty, s1) \<Rightarrow>
                (case on_rdb (IsNonceUnique e (FormatInt (pr_Nonce req))) s1 of
                   (Inr True, s2) \<Rightarrow>
                     if \<not> VerifyPoW (pr_Challenge req) (pr_Nonce req) (pr_Envelope req) difficulty
                     then punish e ip ''incorrect proof of work'' s2
                     else (None, s2)
                 | (_, s2) \<Rightarrow> punish e ip ''replay attack detected (used nonce)'' s2)))"

definition check_voucher :: "env \<Rightarrow> string \<Rightarrow> PostMessageRequest \<Rightarrow> relay \<Rightarrow> check_answer" where
  "check_voucher e ip req s =
     (case pr_Voucher req of
        None \<Rightarrow> punish e ip ''missing voucher structure'' s
      | Some v \<Rightarrow>
          (case VerifyVoucher (ed_verify e) (now e) (pr_RecipientID req) v of
             Inl err \<Rightarrow> punish e ip err s
           | Inr False \<Rightarrow> punish e ip ''invalid voucher'' s
           | Inr True \<Rightarrow>
               (case on_rdb (ConsumeVoucher e (Signature v) (Expiry v)) s of
                  (Inl _, s1) \<Rightarrow> refuse (http_Error ''Database error'' 500) s1
                | (Inr False, s1) \<Rightarrow> punish e ip ''voucher already used or expired'' s1
                | (Inr True, s1) \<Rightarrow> (None, s1))))"

definition spam_protection :: "env \<Rightarrow> string \<Rightarrow> string \<Rightarrow> PostMessageRequest \<Rightarrow> relay \<Rightarrow> check_answer" where
  "spam_protection e ip header req s =
     (let protection = (if header = [] then ''pow'' else header) in
      if protection = ''pow'' then check_pow e ip req s
      else if protection = ''voucher'' then check_voucher e ip req s
      else refuse (http_Error ''Unsupported spam protection mechanism'' 400) s)"

text \<open>Who the message is said to come from: the sender a voucher names, whatever protected the request.\<close>

definition post_sender :: "PostMessageRequest \<Rightarrow> string" where
  "post_sender req =
     (case pr_Voucher req of None \<Rightarrow> ''offline_queue_router'' | Some v \<Rightarrow> SenderKeyHash v)"

definition queue_locked :: http_response where
  "queue_locked = (423, RawJson ''{\"error\":\"Recipient queue is locked due to active Nuke command\"}'')"

text \<open>The lock of the queue, the ceiling and the subscription gate.\<close>

definition post_gates :: "env \<Rightarrow> PostMessageRequest \<Rightarrow> relay \<Rightarrow> check_answer" where
  "post_gates e req s =
     (let payloadSize = int (length (pr_Envelope req)) in
      case IsQueueBlocked e (pr_RecipientID req) (rdb s) of
        Inl _ \<Rightarrow> refuse (http_Error ''Database error'' 500) s
      | Inr True \<Rightarrow> refuse queue_locked s
      | Inr False \<Rightarrow>
          if plusMaxPayload < payloadSize
          then refuse (413, RawJson ''{\"error\":\"Payload exceeds the 50MB maximum\"}'') s
          else if freeMaxPayload \<le> payloadSize then
            (if pr_Voucher req = None
             then refuse (403, RawJson ''{\"error\":\"Payload >= 5MB requires sender identity via voucher for subscription check\"}'') s
             else (case checkPremiumSubscription e (post_sender req) s of
                     (Inr True, s1) \<Rightarrow> (None, s1)
                   | (_, s1) \<Rightarrow>
                       refuse (403, RawJson ''{\"error\":\"Payload >= 5MB requires an active premium subscription\"}'') s1))
          else (None, s))"

definition post_message :: "string \<Rightarrow> string \<Rightarrow> string \<Rightarrow> string \<Rightarrow> WSMessage" where
  "post_message sender envelope contentType messageID =
     (frame ''NEW_MESSAGE'')
       \<lparr>m_SenderID := sender, m_Envelope := envelope, m_ContentType := contentType, m_MessageID := messageID\<rparr>"

text \<open>A file: the bucket, a row, and the recipient if online.\<close>

definition post_large :: "env \<Rightarrow> PostMessageRequest \<Rightarrow> relay \<Rightarrow> http_response \<times> relay" where
  "post_large e req s =
     (if pg s = None
      then (http_Error ''Postgres and storage must be configured to process large payloads'' 500, s)
      else
        let (storageKey, s1) = uuid_New s in
        (case on_storage (Upload e storageKey (pr_Envelope req)) s1 of
           (Inl _, s2) \<Rightarrow> (http_Error ''Failed to upload large file to storage'' 500, s2)
         | (Inr bucketURL, s2) \<Rightarrow>
             let (ttl, s3) = holdTTLForRecipient e (pr_RecipientID req) s2;
                 (mid, s4) = uuid_New s3 in
             (case on_pg (StoreMessage e mid (pr_RecipientID req) (post_sender req) None (Some bucketURL)
                            ''file'' ttl) s4 of
                (Inl _, s5) \<Rightarrow>
                  (http_Error ''Failed to store message metadata in database'' 500,
                   snd (on_storage (Storage_Delete e storageKey) s5))
              | (Inr messageID, s5) \<Rightarrow>
                  ((202, RawJson (''{\"status\":\"Accepted\",\"message_id\":\"'' @ messageID @ ''\"}'')),
                   (case getClient (pr_RecipientID req) s5 of
                      Some target \<Rightarrow>
                        SendJSON target (post_message (post_sender req) (pr_Envelope req) ''file'' messageID) s5
                    | None \<Rightarrow> go_sendWakePush (pr_RecipientID req) (post_sender req) ''file'' s5)))))"

definition accepted :: http_response where
  "accepted = (202, RawJson ''{\"status\":\"Accepted\"}'')"

text \<open>Under memory pressure: a row that holds the envelope, deleted once it is sent.\<close>

definition post_high_ram :: "env \<Rightarrow> PostMessageRequest \<Rightarrow> relay \<Rightarrow> http_response \<times> relay" where
  "post_high_ram e req s =
     (let (ttl, s1) = holdTTLForRecipient e (pr_RecipientID req) s;
          (mid, s2) = uuid_New s1 in
      (case on_pg (StoreMessage e mid (pr_RecipientID req) (post_sender req) (Some (pr_Envelope req)) None
                     ''text'' ttl) s2 of
         (Inl _, s3) \<Rightarrow> (http_Error ''Failed to store message in database'' 500, s3)
       | (Inr messageID, s3) \<Rightarrow>
           (accepted,
            (case getClient (pr_RecipientID req) s3 of
               Some target \<Rightarrow>
                 snd (on_pg (DeleteMessage e messageID)
                   (SendJSON target (post_message (post_sender req) (pr_Envelope req) ''text'' []) s3))
             | None \<Rightarrow> go_sendWakePush (pr_RecipientID req) (post_sender req) ''text'' s3))))"

definition post_normal :: "env \<Rightarrow> PostMessageRequest \<Rightarrow> relay \<Rightarrow> http_response \<times> relay" where
  "post_normal e req s =
     (case getClient (pr_RecipientID req) s of
        Some target \<Rightarrow>
          (accepted, SendJSON target (post_message (post_sender req) (pr_Envelope req) [] []) s)
      | None \<Rightarrow>
          let (ttl, s1) = holdTTLForRecipient e (pr_RecipientID req) s in
          (case on_rdb (AddMessageToQueue e (pr_RecipientID req) (post_sender req) (pr_Envelope req) [] ttl) s1 of
             (Inl _, s2) \<Rightarrow> (http_Error ''Failed to store message offline'' 500, s2)
           | (Inr _, s2) \<Rightarrow>
               (accepted, go_sendWakePush (pr_RecipientID req) (post_sender req) [] s2)))"

definition post_route :: "env \<Rightarrow> PostMessageRequest \<Rightarrow> relay \<Rightarrow> http_response \<times> relay" where
  "post_route e req s =
     (if largePayloadThreshold \<le> int (length (pr_Envelope req)) then post_large e req s
      else if pg s \<noteq> None \<and> isHighRAMLoad e then post_high_ram e req s
      else post_normal e req s)"

text \<open>A check first, then the rest with the state it leaves.\<close>

definition after_check ::
  "check_answer \<Rightarrow> (relay \<Rightarrow> http_response \<times> relay) \<Rightarrow> http_response \<times> relay" where
  "after_check c body = (case c of (Some resp, s') \<Rightarrow> (resp, s') | (None, s') \<Rightarrow> body s')"

definition handlePostQueue :: "env \<Rightarrow> http_request \<Rightarrow> relay \<Rightarrow> http_response \<times> relay" where
  "handlePostQueue e r s =
     (if rq_Method r \<noteq> ''POST'' then (method_not_allowed, s)
      else (case rq_post r of
              None \<Rightarrow> (http_Error ''Invalid request body'' 400, s)
            | Some req \<Rightarrow>
                if pr_RecipientID req = [] \<or> pr_Envelope req = []
                then (http_Error ''Missing recipient_id or envelope'' 400, s)
                else after_check (spam_protection e (clientIP r) (rq_Header r ''X-Wiltkey-Spam-Protection'') req s)
                       (\<lambda>s1. after_check (post_gates e req s1) (post_route e req))))"

section \<open>Queue status\<close>

definition handleQueueStatus :: "env \<Rightarrow> http_request \<Rightarrow> relay \<Rightarrow> http_response \<times> relay" where
  "handleQueueStatus e r s =
     (if rq_Method r \<noteq> ''GET'' then (method_not_allowed, s)
      else
        let uid = rq_Query r ''id'' in
        after_check (verifyStatusIdentity e (clientIP r) uid (rq_Query r ''timestamp'')
                       (rq_Query r ''sig'') (rq_Query r ''pubkey'') s)
          (\<lambda>s1. case verifyDeviceTokenGate e uid (rq_Header r ''X-Device-Token'') s1 of
             Some resp \<Rightarrow> (resp, s1)
           | None \<Rightarrow>
               (case IsQueueBlocked e uid (rdb s1) of
                  Inl _ \<Rightarrow> (http_Error ''Database error checking block status'' 500, s1)
                | Inr blocked \<Rightarrow>
                    (case GetNotifiableQueueCount e uid (rdb s1) of
                       Inl _ \<Rightarrow> (http_Error ''Database error fetching queue count'' 500, s1)
                     | Inr count \<Rightarrow>
                         ((200, Json [(''has_payload'', JBool (0 < count)), (''blocked'', JBool blocked)]), s1)))))"

section \<open>Push registration\<close>

definition handlePushRegister :: "env \<Rightarrow> http_request \<Rightarrow> relay \<Rightarrow> http_response \<times> relay" where
  "handlePushRegister e r s =
     (if rq_Method r \<noteq> ''POST'' then (method_not_allowed, s)
      else (case rq_push r of
              None \<Rightarrow> (http_Error ''Invalid request body'' 400, s)
            | Some req \<Rightarrow>
                if pu_Token req = [] then (http_Error ''Missing token'' 400, s)
                else
                  let signed = pu_ID req @ '':'' @ FormatInt (pu_Timestamp req) @ '':'' @ pu_Token req in
                  after_check (verifyPushIdentity e (clientIP r) req signed s)
                    (\<lambda>s1. case verifyDeviceTokenGate e (pu_ID req) (pu_DeviceToken req) s1 of
                       Some resp \<Rightarrow> (resp, s1)
                     | None \<Rightarrow>
                         (case on_rdb (SetPushToken e (pu_ID req) (pu_Token req)) s1 of
                            (Inl _, s2) \<Rightarrow> (http_Error ''Database error storing token'' 500, s2)
                          | (Inr _, s2) \<Rightarrow> ((200, RawJson ''{\"status\":\"registered\"}''), s2)))))"

definition handlePushUnregister :: "env \<Rightarrow> http_request \<Rightarrow> relay \<Rightarrow> http_response \<times> relay" where
  "handlePushUnregister e r s =
     (if rq_Method r \<noteq> ''POST'' then (method_not_allowed, s)
      else (case rq_push r of
              None \<Rightarrow> (http_Error ''Invalid request body'' 400, s)
            | Some req \<Rightarrow>
                let signed = pu_ID req @ '':'' @ FormatInt (pu_Timestamp req) in
                after_check (verifyPushIdentity e (clientIP r) req signed s)
                  (\<lambda>s1. case verifyDeviceTokenGate e (pu_ID req) (pu_DeviceToken req) s1 of
                     Some resp \<Rightarrow> (resp, s1)
                   | None \<Rightarrow>
                       (case on_rdb (DeletePushToken e (pu_ID req)) s1 of
                          (Inl _, s2) \<Rightarrow> (http_Error ''Database error clearing token'' 500, s2)
                        | (Inr _, s2) \<Rightarrow> ((200, RawJson ''{\"status\":\"unregistered\"}''), s2)))))"

section \<open>Entitlements\<close>

definition on_play :: "(token_cache \<Rightarrow> 'a \<times> token_cache) \<Rightarrow> relay \<Rightarrow> 'a \<times> relay" where
  "on_play f s = (let (a, g) = f (play_cache s) in (a, s\<lparr>play_cache := g\<rparr>))"

text \<open>The hash to store and its expiry: what Google says, or on a relay without Play what the client says.\<close>

definition resolve_purchase ::
  "env \<Rightarrow> EntitlementRequest \<Rightarrow> relay \<Rightarrow> (http_response + string \<times> int) \<times> relay" where
  "resolve_purchase e req s =
     (if er_PurchaseToken req = [] \<and> er_SubscriptionHash req = []
      then (Inl (http_Error ''Missing subscription token or hash'' 400), s)
      else if play_enabled e then
        (if er_PurchaseToken req = [] then (Inl (http_Error ''A Play purchase token is required'' 400), s)
         else (case on_play (PlayVerifier_Verify e (er_PurchaseToken req)) s of
                 (Inl NotEntitled, s1) \<Rightarrow>
                   (Inl (http_Error ''{\"error\":\"No active subscription for this purchase token\"}'' 402), s1)
               | (Inl (PlayFailed _), s1) \<Rightarrow>
                   (Inl (http_Error ''{\"error\":\"Could not verify the purchase right now, please try again\"}'' 503), s1)
               | (Inr verifiedExpiry, s1) \<Rightarrow> (Inr (tokenHash (er_PurchaseToken req), verifiedExpiry), s1)))
      else
        (Inr (if er_SubscriptionHash req \<noteq> [] then er_SubscriptionHash req
              else tokenHash (er_PurchaseToken req), now e + 30 * 24 * Hour), s))"

definition grant_entitlement :: "env \<Rightarrow> string \<Rightarrow> string \<Rightarrow> int \<Rightarrow> relay \<Rightarrow> http_response \<times> relay" where
  "grant_entitlement e userID hashToStore expiry s =
     (case on_pg (pg_StoreEntitlement e userID hashToStore expiry) s of
        (Inl _, s1) \<Rightarrow> (http_Error ''Database error storing entitlement'' 500, s1)
      | (Inr _, s1) \<Rightarrow>
          ((200, RawJson (''{\"status\":\"success\",\"expires_at\":'' @ FormatInt (unix expiry) @ ''}'')),
           if 0 < time_Until (now e) expiry
           then snd (on_rdb (rdb_StoreEntitlement e userID hashToStore (time_Until (now e) expiry)) s1)
           else s1))"

definition handlePostEntitlement :: "env \<Rightarrow> http_request \<Rightarrow> relay \<Rightarrow> http_response \<times> relay" where
  "handlePostEntitlement e r s =
     (if rq_Method r \<noteq> ''POST'' then (method_not_allowed, s)
      else if pg s = None then (http_Error ''{\"error\":\"Postgres is not configured\"}'' 500, s)
      else (case rq_entitlement r of
              None \<Rightarrow> (http_Error ''Invalid request body'' 400, s)
            | Some req \<Rightarrow>
                after_check (verifyEntitlementIdentity e (clientIP r) req s)
                  (\<lambda>s1. case resolve_purchase e req s1 of
                     (Inl resp, s2) \<Rightarrow> (resp, s2)
                   | (Inr (hashToStore, expiry), s2) \<Rightarrow> grant_entitlement e (er_UserID req) hashToStore expiry s2)))"

section \<open>Integrity attestation\<close>

definition handleIntegrityChallenge :: "env \<Rightarrow> http_request \<Rightarrow> relay \<Rightarrow> http_response \<times> relay" where
  "handleIntegrityChallenge e r s =
     (if rq_Method r \<noteq> ''POST'' then (method_not_allowed, s)
      else (case rq_challenge r of
              None \<Rightarrow> (http_Error ''Invalid request body'' 400, s)
            | Some req \<Rightarrow>
                after_check (verifyIntegrityIdentity e (clientIP r) (ic_UserID req) (ic_Pubkey req)
                    (ic_Signature req) (ic_Timestamp req)
                    (''INTEGRITY_CHALLENGE:'' @ ic_UserID req @ '':'' @ FormatInt (ic_Timestamp req)) s)
                  (\<lambda>s1. case rand_Read 32 s1 of
                     (None, s2) \<Rightarrow> (http_Error ''Failed to generate nonce'' 500, s2)
                   | (Some nonceBytes, s2) \<Rightarrow>
                       let serverNonce = hexEncode nonceBytes in
                       (case on_rdb (StoreIntegrityNonce e (ic_UserID req) serverNonce kChallengeTTL) s2 of
                          (Inl _, s3) \<Rightarrow> (http_Error ''Database error storing nonce'' 500, s3)
                        | (Inr _, s3) \<Rightarrow>
                            ((200, Json [(''expected_nonce'', JStr (ComputeIntegrityNonce serverNonce (ic_UserID req))),
                                         (''relay_pubkey'', JStr (PublicKeyHex e)),
                                         (''server_nonce'', JStr serverNonce),
                                         (''timestamp'', JInt (unix (now e)))]), s3)))))"

definition on_integrity :: "(token_cache \<Rightarrow> 'a \<times> token_cache) \<Rightarrow> relay \<Rightarrow> 'a \<times> relay" where
  "on_integrity f s = (let (a, g) = f (integrity_cache s) in (a, s\<lparr>integrity_cache := g\<rparr>))"

text \<open>The type of client: with a live entitlement \<open>play_plus\<close>.\<close>

definition attested_client_type :: "env \<Rightarrow> string \<Rightarrow> relay \<Rightarrow> string" where
  "attested_client_type e userID s =
     (case pg s of
        Some db \<Rightarrow>
          (case GetEntitlement e userID db of
             Inr (Some ent) \<Rightarrow> if now e < ent_ExpiresAt ent then ''play_plus'' else ''play_official''
           | _ \<Rightarrow> ''play_official'')
      | None \<Rightarrow>
          (case GetEntitlementHash e userID (rdb s) of
             Inr h \<Rightarrow> if h \<noteq> [] then ''play_plus'' else ''play_official''
           | Inl _ \<Rightarrow> ''play_official''))"

text \<open>The challenge is consumed before the token is looked at.\<close>

definition attest_verdict :: "env \<Rightarrow> string \<Rightarrow> string \<Rightarrow> string \<Rightarrow> relay \<Rightarrow> unit result \<times> relay" where
  "attest_verdict e userID integrityToken serverNonce s =
     (let (_, s1) = on_rdb (DeleteIntegrityNonce e userID) s in
      if integrity_enabled e
      then on_integrity (VerifyIntegrityToken e integrityToken (ComputeIntegrityNonce serverNonce userID)) s1
      else (Inr (), s1))"

definition issue_attestation :: "env \<Rightarrow> string \<Rightarrow> relay \<Rightarrow> http_response \<times> relay" where
  "issue_attestation e userID s =
     (let clientType = attested_client_type e userID s;
          issuedAt = unix (now e);
          expiresAt = unix (now e + kAttestationTTL);
          certSig = SignAttestation e userID clientType issuedAt expiresAt
      in ((200, Json [(''client_type'', JStr clientType), (''expires_at'', JInt expiresAt),
                      (''issued_at'', JInt issuedAt), (''relay_public_key'', JStr (PublicKeyHex e)),
                      (''relay_signature'', JStr certSig), (''user_id'', JStr userID)]),
          if pg s \<noteq> None
          then snd (on_pg (StoreClientAttestation e userID clientType (time_Unix issuedAt) (time_Unix expiresAt)
                             certSig (PublicKeyHex e)) s)
          else s))"

definition handleIntegrityAttest :: "env \<Rightarrow> http_request \<Rightarrow> relay \<Rightarrow> http_response \<times> relay" where
  "handleIntegrityAttest e r s =
     (if rq_Method r \<noteq> ''POST'' then (method_not_allowed, s)
      else (case rq_attest r of
              None \<Rightarrow> (http_Error ''Invalid request body'' 400, s)
            | Some req \<Rightarrow>
                if ia_IntegrityToken req = [] then (http_Error ''Missing integrity token'' 400, s)
                else
                after_check (verifyIntegrityIdentity e (clientIP r) (ia_UserID req) (ia_Pubkey req)
                    (ia_Signature req) (ia_Timestamp req)
                    (''INTEGRITY_ATTEST:'' @ ia_UserID req @ '':'' @ tokenHash (ia_IntegrityToken req) @ '':''
                       @ FormatInt (ia_Timestamp req)) s)
                  (\<lambda>s1. let serverNonce = (case GetIntegrityNonce e (ia_UserID req) (rdb s1) of
                                             Inl _ \<Rightarrow> [] | Inr n \<Rightarrow> n) in
                     if serverNonce = []
                     then (http_Error ''{\"error\":\"Invalid or expired integrity challenge\"}'' 400, s1)
                     else (case attest_verdict e (ia_UserID req) (ia_IntegrityToken req) serverNonce s1 of
                             (Inl err, s2) \<Rightarrow>
                               (http_Error (''{\"error\":\"Integrity verification failed: '' @ err @ ''\"}'') 403, s2)
                           | (Inr _, s2) \<Rightarrow> issue_attestation e (ia_UserID req) s2))))"

definition handleIntegrityQuery :: "env \<Rightarrow> http_request \<Rightarrow> relay \<Rightarrow> http_response \<times> relay" where
  "handleIntegrityQuery e r s =
     (if rq_Method r \<noteq> ''GET'' then (method_not_allowed, s)
      else
        let userID = rq_Query r ''user_id'';
            tinkerer = ((200, Json [(''client_type'', JStr ''tinkerer''), (''user_id'', JStr userID)]), s)
        in if userID = [] then (http_Error ''Missing user_id'' 400, s)
           else (case pg s of
                   None \<Rightarrow> tinkerer
                 | Some db \<Rightarrow>
                     (case GetClientAttestation e userID db of
                        Inr (Some att) \<Rightarrow>
                          if now e < att_ExpiresAt att then
                            ((200, Json [(''client_type'', JStr (att_ClientType att)),
                                         (''expires_at'', JInt (unix (att_ExpiresAt att))),
                                         (''issued_at'', JInt (unix (att_IssuedAt att))),
                                         (''relay_public_key'',
                                            JStr (if att_RelayPubkey att = [] then PublicKeyHex e else att_RelayPubkey att)),
                                         (''relay_signature'', JStr (att_CertSig att)),
                                         (''user_id'', JStr (att_UserID att))]), s)
                          else tinkerer
                      | _ \<Rightarrow> tinkerer)))"

section \<open>Social budget and wipe\<close>

definition handleGetSocialBudget :: "env \<Rightarrow> http_request \<Rightarrow> relay \<Rightarrow> http_response \<times> relay" where
  "handleGetSocialBudget e r s =
     (if rq_Method r \<noteq> ''GET'' then (method_not_allowed, s)
      else
        let userID = rq_Query r ''user_id'';
            timestamp = rq_Query r ''timestamp'';
            signedMsg = ''WILTKEY_SOCIAL_BUDGET:'' @ userID @ '':'' @ timestamp
        in after_check (verifyQueryIdentity e (clientIP r) userID (rq_Query r ''pubkey'') timestamp
                          (rq_Query r ''sig'') signedMsg s)
             (\<lambda>s1. if pg s1 = None then (http_Error ''{\"error\":\"PostgreSQL unavailable\"}'' 503, s1)
                else
                  let (sub, s2) = checkPremiumSubscription e userID s1;
                      isPlus = (sub = Inr True);
                      maxBudget = (if isPlus then plusBudget else freeBudget)
                  in (case on_pg (GetOrCreateSocialBudget e userID) s2 of
                        (Inl _, s3) \<Rightarrow> (http_Error ''Database error retrieving budget'' 500, s3)
                      | (Inr budget, s3) \<Rightarrow>
                          let since = time_Sub (now e) (sb_WeekStart budget);
                              seconds = (if 0 \<le> since then since div Second else - ((- since) div Second));
                              resetInSecs = max 0 (7 * 24 * 3600 - seconds)
                          in ((200, Json [(''bytes_used'', JInt (sb_BytesUsed budget)),
                                          (''is_plus'', JBool isPlus), (''max_bytes'', JInt maxBudget),
                                          (''reset_in_seconds'', JInt resetInSecs), (''status'', JStr ''ok''),
                                          (''user_id'', JStr userID),
                                          (''week_start'', JInt (unix (sb_WeekStart budget)))]), s3))))"

fun delete_social_objects :: "env \<Rightarrow> string list \<Rightarrow> relay \<Rightarrow> relay" where
  "delete_social_objects e [] s = s"
| "delete_social_objects e (u # us) s =
     (let key = storageKeyFromURL u in
      delete_social_objects e us (if key \<noteq> [] then snd (on_storage (Storage_Delete e key) s) else s))"

definition handleSocialWipe :: "env \<Rightarrow> http_request \<Rightarrow> relay \<Rightarrow> http_response \<times> relay" where
  "handleSocialWipe e r s =
     (if rq_Method r \<noteq> ''POST'' then (method_not_allowed, s)
      else (case rq_social r of
              None \<Rightarrow> (http_Error ''{\"error\":\"Invalid JSON\"}'' 400, s)
            | Some req \<Rightarrow>
                let signedMessage = ''WILTKEY_SOCIAL_WIPE:'' @ so_ID req @ '':'' @ FormatInt (so_Timestamp req) in
                after_check (verifySocialIdentity e (clientIP r) req signedMessage s)
                  (\<lambda>s1. if pg s1 = None
                     then (http_Error ''{\"error\":\"PostgreSQL storage unavailable\"}'' 503, s1)
                     else (case on_pg (WipeUserSocialData e (so_ID req)) s1 of
                             (Inl _, s2) \<Rightarrow> (http_Error ''{\"error\":\"Failed to wipe social data\"}'' 500, s2)
                           | (Inr deletedURLs, s2) \<Rightarrow>
                               ((200, Json [(''message'', JStr ''All social data wiped successfully''),
                                            (''status'', JStr ''ok'')]),
                                delete_social_objects e deletedURLs s2)))))"

section \<open>Routes\<close>

definition file_response :: "download_answer \<Rightarrow> http_response" where
  "file_response a =
     (case a of DownloadRefused code text \<Rightarrow> http_Error text code | DownloadServed body \<Rightarrow> (200, Octets body))"

datatype route =
    PowChallenge | QueuePost | QueueStatus | PushRegister | PushUnregister | Entitlement
  | IntegrityChallenge | IntegrityAttest | IntegrityQuery | File | SocialBudget | SocialWipe

definition endpoint :: "route \<Rightarrow> env \<Rightarrow> http_request \<Rightarrow> relay \<Rightarrow> http_response \<times> relay" where
  "endpoint p =
     (case p of
        PowChallenge \<Rightarrow> handleGetChallenge
      | QueuePost \<Rightarrow> handlePostQueue
      | QueueStatus \<Rightarrow> handleQueueStatus
      | PushRegister \<Rightarrow> handlePushRegister
      | PushUnregister \<Rightarrow> handlePushUnregister
      | Entitlement \<Rightarrow> handlePostEntitlement
      | IntegrityChallenge \<Rightarrow> handleIntegrityChallenge
      | IntegrityAttest \<Rightarrow> handleIntegrityAttest
      | IntegrityQuery \<Rightarrow> handleIntegrityQuery
      | File \<Rightarrow> (\<lambda>e r s. (file_response (handleFileDownload e (rq_Method r) (rq_Query r ''token'') s), s))
      | SocialBudget \<Rightarrow> handleGetSocialBudget
      | SocialWipe \<Rightarrow> handleSocialWipe)"

definition serve_http :: "route \<Rightarrow> env \<Rightarrow> http_request \<Rightarrow> relay \<Rightarrow> http_response \<times> relay" where
  "serve_http p e r s = rateLimitMiddleware e r (endpoint p e r) s"

definition serve_ping :: "env \<Rightarrow> http_response" where
  "serve_ping e =
     (200, RawJson (if testMode (globals e) then ''{\"status\":\"ok\",\"mode\":\"test\"}''
                    else ''{\"status\":\"ok\",\"mode\":\"production\"}''))"

end
