(* ===== verification/Http_Facts.thy ===== *)
theory Http_Facts
  imports Http_Handlers
begin

text \<open>
  Facts of the HTTP side: what a failed validation costs an address, the contract of the identity
  checks (a locale, interpreted on each of the six) and the evidence that they ask for.
\<close>

section \<open>What a failed validation changes\<close>

lemma registerIPFailure_frame [simp]:
  "pg (registerIPFailure e ip s) = pg s" "storage (registerIPFailure e ip s) = storage s"
  "clients (registerIPFailure e ip s) = clients s" "conns (registerIPFailure e ip s) = conns s"
  "next_conn (registerIPFailure e ip s) = next_conn s" "wakes (registerIPFailure e ip s) = wakes s"
  "pushed (registerIPFailure e ip s) = pushed s" "drawn (registerIPFailure e ip s) = drawn s"
  "uuid_supply (registerIPFailure e ip s) = uuid_supply s"
  "rand_supply (registerIPFailure e ip s) = rand_supply s"
  "memoryQueue (rdb (registerIPFailure e ip s)) = memoryQueue (rdb s)"
  "memoryBlocks (rdb (registerIPFailure e ip s)) = memoryBlocks (rdb s)"
  "memoryPushTokens (rdb (registerIPFailure e ip s)) = memoryPushTokens (rdb s)"
  "memoryEntitlements (rdb (registerIPFailure e ip s)) = memoryEntitlements (rdb s)"
  "memoryTunnels (rdb (registerIPFailure e ip s)) = memoryTunnels (rdb s)"
  by (simp_all add: registerIPFailure_def on_stores IncrementIPFailure_def BanIP_def Let_def split: option.splits)

lemma punish_simps [simp]:
  "fst (punish e ip reason s) = Some (400, RawJson (''{\"error\":\"Validation failed: '' @ reason @ ''\"}''))"
  "snd (punish e ip reason s) = registerIPFailure e ip s"
  by (simp_all add: punish_def handleValidationFailure_def)

lemma refuse_simps [simp]: "fst (refuse r s) = Some r" "snd (refuse r s) = s"
  by (simp_all add: refuse_def)

lemma ban_after_failure:
  assumes "\<not> fault e (Rdb OpIncrementIPFailure ip)" "\<not> fault e (Rdb OpBanIP ip)"
    and "\<And>v. memoryFails (rdb s) ip = Some v \<Longrightarrow> 0 \<le> fail_count v"
  shows "memoryBans (rdb (registerIPFailure e ip s)) ip =
    Some (now e + (case memoryFails (rdb s) ip of
       Some v \<Rightarrow> if now e \<le> fail_expires v \<and> 1 \<le> fail_count v then 30 * Minute else 5 * Minute
     | None \<Rightarrow> 5 * Minute))"
  using assms(3)
  by (auto simp: registerIPFailure_def on_stores IncrementIPFailure_def BanIP_def assms(1,2)
      split: option.splits)

section \<open>The contract of an identity check\<close>

text \<open>
  A check passes exactly on evidence and then leaves the state alone; a refusal leaves it alone
  or costs the penalty. A handler that is guarded by such a check changes nothing beyond the
  penalty without the evidence.
\<close>

locale identity_check =
  fixes check :: "'e \<Rightarrow> 'q \<Rightarrow> 's \<Rightarrow> 'r option \<times> 's"
    and proves :: "'e \<Rightarrow> 'q \<Rightarrow> bool"
    and penalty :: "'e \<Rightarrow> 'q \<Rightarrow> 's \<Rightarrow> 's"
  assumes passes_iff: "fst (check e q s) = None \<longleftrightarrow> proves e q"
    and passes_same: "fst (check e q s) = None \<Longrightarrow> snd (check e q s) = s"
    and refuses_at: "fst (check e q s) \<noteq> None \<Longrightarrow> snd (check e q s) \<in> {s, penalty e q s}"
begin

lemma guarded:
  assumes "s' = (case check e q s of (Some r, t) \<Rightarrow> (r, t) | (None, t) \<Rightarrow> body t)"
  shows "proves e q \<and> s' = body s \<or> \<not> proves e q \<and> snd s' \<in> {s, penalty e q s}"
proof (cases "fst (check e q s)")
  case None
  then have "check e q s = (None, s)" using passes_same by (metis prod.collapse)
  with None assms passes_iff [of e q s] show ?thesis by auto
next
  case (Some r)
  then have "check e q s = (Some r, snd (check e q s))" by (metis prod.collapse)
  with Some assms show ?thesis
    using refuses_at [of e q s] passes_iff [of e q s]
    by (metis (mono_tags, lifting) case_prod_conv option.case(2) option.distinct(1) snd_conv)
qed

lemma evidence_needed:
  assumes "snd (case check e q s of (Some r, t) \<Rightarrow> (r, t) | (None, t) \<Rightarrow> body t) \<notin> {s, penalty e q s}"
  shows "proves e q"
  using guarded [OF refl, where e = e and q = q and s = s and body = body] assms by auto

lemma passed: "check e q s = (None, t) \<Longrightarrow> t = s \<and> proves e q"
  using passes_iff [of e q s] passes_same [of e q s] by simp

lemma penalised: "snd (check e q s) = s \<or> snd (check e q s) = penalty e q s"
  using passes_same [of e q s] refuses_at [of e q s] by (cases "fst (check e q s)") auto

lemma kept:
  assumes "f (penalty e q s) = f s" shows "f (snd (check e q s)) = f s"
  using penalised [of e q s] assms by auto

end

text \<open>The evidence: a fresh timestamp, a key with the identity as its hash, a signature under it.\<close>

definition signed_by ::
  "env \<Rightarrow> int \<Rightarrow> string \<Rightarrow> string \<Rightarrow> string \<Rightarrow> int \<Rightarrow> string \<Rightarrow> bool" where
  "signed_by e window uid pubkey sig ts msg =
     (drift (now e) ts \<le> window \<and>
      (case DecodeString pubkey of
         None \<Rightarrow> False
       | Some pub \<Rightarrow> GenerateUserID pub = uid \<and> length pub = 32 \<and>
           (case DecodeString sig of
              None \<Rightarrow> False
            | Some sg \<Rightarrow> length sg = 64 \<and> ed_verify e pub (bytes_of msg) sg)))"

lemma signed_by_iff:
  "signed_by e k uid pubkey sig ts msg \<longleftrightarrow>
     drift (now e) ts \<le> k \<and> (\<exists>pub. DecodeString pubkey = Some pub \<and> GenerateUserID pub = uid) \<and>
     VerifySignature (ed_verify e) pubkey sig (bytes_of msg) = Inr True"
  by (auto simp: signed_by_def VerifySignature_def split: option.splits)

section \<open>The six checks meet it\<close>

interpretation push_check: identity_check
  "\<lambda>e (ip, req, msg). verifyPushIdentity e ip req msg"
  "\<lambda>e (ip, req, msg). pu_ID req \<noteq> [] \<and> pu_Pubkey req \<noteq> [] \<and> pu_Sig req \<noteq> [] \<and> pu_Timestamp req \<noteq> 0 \<and>
     signed_by e 30 (pu_ID req) (pu_Pubkey req) (pu_Sig req) (pu_Timestamp req) msg"
  "\<lambda>e (ip, req, msg). registerIPFailure e ip"
  by unfold_locales
    (auto simp: verifyPushIdentity_def signed_by_iff not_le split: option.splits if_splits)

interpretation social_check: identity_check
  "\<lambda>e (ip, req, msg). verifySocialIdentity e ip req msg"
  "\<lambda>e (ip, req, msg). so_ID req \<noteq> [] \<and> so_Pubkey req \<noteq> [] \<and> so_Sig req \<noteq> [] \<and> so_Timestamp req \<noteq> 0 \<and>
     signed_by e 60 (so_ID req) (so_Pubkey req) (so_Sig req) (so_Timestamp req) msg"
  "\<lambda>e (ip, req, msg). registerIPFailure e ip"
  by unfold_locales
    (auto simp: verifySocialIdentity_def signed_by_iff not_le split: option.splits if_splits)

interpretation query_check: identity_check
  "\<lambda>e (ip, uid, pubkey, tss, sig, msg). verifyQueryIdentity e ip uid pubkey tss sig msg"
  "\<lambda>e (ip, uid, pubkey, tss, sig, msg). uid \<noteq> [] \<and> pubkey \<noteq> [] \<and> tss \<noteq> [] \<and> sig \<noteq> [] \<and>
     (case ParseInt tss of None \<Rightarrow> False | Some ts \<Rightarrow> signed_by e 60 uid pubkey sig ts msg)"
  "\<lambda>e (ip, uid, pubkey, tss, sig, msg). registerIPFailure e ip"
  by unfold_locales
    (auto simp: verifyQueryIdentity_def signed_by_iff not_le split: option.splits if_splits)

interpretation status_check: identity_check
  "\<lambda>e (ip, uid, tss, sig, pubkey). verifyStatusIdentity e ip uid tss sig pubkey"
  "\<lambda>e (ip, uid, tss, sig, pubkey). uid \<noteq> [] \<and> pubkey \<noteq> [] \<and> tss \<noteq> [] \<and> sig \<noteq> [] \<and>
     (case ParseInt tss of None \<Rightarrow> False
      | Some ts \<Rightarrow> signed_by e 30 uid pubkey sig ts (uid @ '':'' @ FormatInt ts))"
  "\<lambda>e (ip, uid, tss, sig, pubkey). registerIPFailure e ip"
  by unfold_locales
    (auto simp: verifyStatusIdentity_def signed_by_iff not_le split: option.splits if_splits)

interpretation entitlement_check: identity_check
  "\<lambda>e (ip, req). verifyEntitlementIdentity e ip req"
  "\<lambda>e (ip, req). er_UserID req \<noteq> [] \<and> er_Pubkey req \<noteq> [] \<and> er_Signature req \<noteq> [] \<and> er_Timestamp req \<noteq> 0 \<and>
     signed_by e 30 (er_UserID req) (er_Pubkey req) (er_Signature req) (er_Timestamp req)
       (er_UserID req @ '':'' @ FormatInt (er_Timestamp req))"
  "\<lambda>e (ip, req). registerIPFailure e ip"
  by unfold_locales
    (auto simp: verifyEntitlementIdentity_def signed_by_iff not_le split: option.splits if_splits)

interpretation integrity_check: identity_check
  "\<lambda>e (ip, uid, pubkey, sig, ts, msg). verifyIntegrityIdentity e ip uid pubkey sig ts msg"
  "\<lambda>e (ip, uid, pubkey, sig, ts, msg). signed_by e 60 uid pubkey sig ts msg"
  "\<lambda>e (ip, uid, pubkey, sig, ts, msg). registerIPFailure e ip"
  by unfold_locales
    (auto simp: verifyIntegrityIdentity_def signed_by_iff GenerateUserID_def not_le Let_def
       split: option.splits if_splits)

section \<open>Bans\<close>

definition banned :: http_response where
  "banned = (403, RawJson ''{\"error\":\"Banned\"}'')"

definition peer_request :: "string \<Rightarrow> http_request" where
  "peer_request addr =
     \<lparr> rq_Method = ''GET'', rq_RemoteAddr = addr, rq_Header = (\<lambda>_. ''8.8.8.8''), rq_Query = (\<lambda>_. []),
       rq_post = None, rq_push = None, rq_entitlement = None, rq_challenge = None, rq_attest = None,
       rq_social = None \<rparr>"

lemma remote_host_peer: "remote_host (peer_request ''9.9.9.9:80'') = ''9.9.9.9''"
  using SplitHostPort_plain [of "''9.9.9.9''" "''80''"] by (simp add: remote_host_def peer_request_def)

end
