(* ===== verification/Http_Authority.thy ===== *)
theory Http_Authority
  imports Http_Facts
begin

text \<open>
  Least authority of the HTTP endpoints: what is stored on behalf of a user (\<open>owned\<close>) changes only
  with that user's fresh signature over the text that the endpoint prescribes (\<open>http_consent\<close>). That text names
  the action for three of the six endpoints only.
\<close>

section \<open>What is stored on behalf of a user\<close>

text \<open>
  The push token, the subscription, the attestation, the device token, the stories and the
  story budget of a user.
\<close>

definition own_rows ::
  "string \<Rightarrow> PostgresClient \<Rightarrow> PGEntitlement option \<times> PGClientAttestation option \<times>
     device_token_row option \<times> PGStory list \<times> PGSocialBudget option" where
  "own_rows u d =
     (entitlements d u, client_attestations d u, device_tokens d u,
      filter (\<lambda>st. st_SenderID st = u) (stories d), social_budgets d u)"

definition owned ::
  "string \<Rightarrow> relay \<Rightarrow> string option \<times> (PGEntitlement option \<times> PGClientAttestation option \<times>
     device_token_row option \<times> PGStory list \<times> PGSocialBudget option) option" where
  "owned u s = (memoryPushTokens (rdb s) u, map_option (own_rows u) (pg s))"

lemma owned_cong: "memoryPushTokens (rdb s') = memoryPushTokens (rdb s) \<Longrightarrow> pg s' = pg s \<Longrightarrow> owned u s' = owned u s"
  by (simp add: owned_def)

text \<open>
  The user's consent that an endpoint needs: a fresh signature over the text it prescribes. An attestation, a
  budget and a wipe sign a text that begins with the name of the action; a push registration signs the identity, the
  time and the token. Posting an entitlement and unregistering a push token sign the bare \<open>id:timestamp\<close>, which
  names neither the action nor the purchase, and is the text of a poll of \<open>/queue/status\<close> too.
\<close>

definition http_consent :: "route \<Rightarrow> env \<Rightarrow> http_request \<Rightarrow> string \<Rightarrow> bool" where
  "http_consent p e r u =
     (case p of
        PushRegister \<Rightarrow> (\<exists>q. rq_push r = Some q \<and> signed_by e 30 u (pu_Pubkey q) (pu_Sig q) (pu_Timestamp q)
          (u @ '':'' @ FormatInt (pu_Timestamp q) @ '':'' @ pu_Token q))
      | PushUnregister \<Rightarrow> (\<exists>q. rq_push r = Some q \<and> signed_by e 30 u (pu_Pubkey q) (pu_Sig q) (pu_Timestamp q)
          (u @ '':'' @ FormatInt (pu_Timestamp q)))
      | Entitlement \<Rightarrow> (\<exists>q. rq_entitlement r = Some q \<and>
          signed_by e 30 u (er_Pubkey q) (er_Signature q) (er_Timestamp q) (u @ '':'' @ FormatInt (er_Timestamp q)))
      | IntegrityAttest \<Rightarrow> (\<exists>q. rq_attest r = Some q \<and>
          signed_by e 60 u (ia_Pubkey q) (ia_Signature q) (ia_Timestamp q)
            (''INTEGRITY_ATTEST:'' @ u @ '':'' @ tokenHash (ia_IntegrityToken q) @ '':'' @ FormatInt (ia_Timestamp q)))
      | SocialBudget \<Rightarrow> (\<exists>ts. ParseInt (rq_Query r ''timestamp'') = Some ts \<and>
          signed_by e 60 u (rq_Query r ''pubkey'') (rq_Query r ''sig'') ts
            (''WILTKEY_SOCIAL_BUDGET:'' @ u @ '':'' @ rq_Query r ''timestamp''))
      | SocialWipe \<Rightarrow> (\<exists>q. rq_social r = Some q \<and> signed_by e 60 u (so_Pubkey q) (so_Sig q) (so_Timestamp q)
          (''WILTKEY_SOCIAL_WIPE:'' @ u @ '':'' @ FormatInt (so_Timestamp q)))
      | _ \<Rightarrow> False)"

lemma owned_simps [simp]:
  "owned u (registerIPFailure e ip s) = owned u s"
  "owned u (SendJSON q v s) = owned u s"
  "owned u (go_sendWakePush a b c s) = owned u s"
  "owned u (s\<lparr>drawn := k\<rparr>) = owned u s"
  "owned u (s\<lparr>storage := st\<rparr>) = owned u s"
  "owned u (s\<lparr>play_cache := g\<rparr>) = owned u s"
  "owned u (s\<lparr>integrity_cache := g\<rparr>) = owned u s"
  by (simp_all add: owned_def)

lemma owned_rdb: "memoryPushTokens r u = memoryPushTokens (rdb s) u \<Longrightarrow> owned u (s\<lparr>rdb := r\<rparr>) = owned u s"
  by (simp add: owned_def)

lemma owned_premium [simp]: "owned u (snd (checkPremiumSubscription e x s)) = owned u s"
  by (rule disjE [OF checkPremium_rdb [of e x s]]) (auto simp: owned_def)

lemma push_tokens_kept [simp]:
  "memoryPushTokens (snd (CheckIPRateLimit e ip n r)) = memoryPushTokens r"
  "memoryPushTokens (snd (StorePoWChallenge e c d r)) = memoryPushTokens r"
  "memoryPushTokens (snd (GetPoWChallengeDifficulty e c r)) = memoryPushTokens r"
  "memoryPushTokens (snd (IsNonceUnique e c r)) = memoryPushTokens r"
  "memoryPushTokens (snd (ConsumeVoucher e c x r)) = memoryPushTokens r"
  "memoryPushTokens (snd (AddMessageToQueue e a b c ct ttl r)) = memoryPushTokens r"
  "memoryPushTokens (snd (rdb_StoreEntitlement e a h ttl r)) = memoryPushTokens r"
  "memoryPushTokens (snd (StoreIntegrityNonce e a h ttl r)) = memoryPushTokens r"
  "memoryPushTokens (snd (DeleteIntegrityNonce e a r)) = memoryPushTokens r"
  by (simp_all add: CheckIPRateLimit_def StorePoWChallenge_def GetPoWChallengeDifficulty_def IsNonceUnique_def
      ConsumeVoucher_def AddMessageToQueue_def rdb_StoreEntitlement_def StoreIntegrityNonce_def
      DeleteIntegrityNonce_def Let_def split: option.splits)

lemma owned_on_rdb [simp]:
  "(\<And>r. memoryPushTokens (snd (f r)) = memoryPushTokens r) \<Longrightarrow> owned u (snd (on_rdb f s)) = owned u s"
  by (simp add: on_stores owned_rdb)

lemma owned_on_storage [simp]: "owned u (snd (on_storage f s)) = owned u s"
  by (simp add: on_stores)

lemma owned_on_pg:
  "pg s \<noteq> None \<Longrightarrow> (\<And>d. own_rows u (snd (f d)) = own_rows u d) \<Longrightarrow> owned u (snd (on_pg f s)) = owned u s"
  by (auto simp: on_stores owned_def)

lemma own_rows_kept [simp]:
  "own_rows u (snd (StoreMessage e mid a b c d' ct ttl d)) = own_rows u d"
  "own_rows u (snd (DeleteMessage e mid d)) = own_rows u d"
  by (simp_all add: own_rows_def StoreMessage_def StoreMessageSized_def DeleteMessage_def Let_def)

lemma own_rows_other:
  "x \<noteq> u \<Longrightarrow> own_rows u (snd (pg_StoreEntitlement e x h t d)) = own_rows u d"
  "x \<noteq> u \<Longrightarrow> own_rows u (snd (StoreClientAttestation e x ct i t sg pk d)) = own_rows u d"
  "x \<noteq> u \<Longrightarrow> own_rows u (snd (GetOrCreateSocialBudget e x d)) = own_rows u d"
  "x \<noteq> u \<Longrightarrow> own_rows u (snd (WipeUserSocialData e x d)) = own_rows u d"
  by (auto simp: own_rows_def pg_StoreEntitlement_def StoreClientAttestation_def GetOrCreateSocialBudget_def
      WipeUserSocialData_def delete_stories_def Let_def intro!: filter_cong split: option.splits)

text \<open>The same facts as rules for an equation of the form \<open>step s = (answer, s')\<close>.\<close>

lemma owned_rdbD: "on_rdb f s = (a, s') \<Longrightarrow> (\<And>r. memoryPushTokens (snd (f r)) = memoryPushTokens r) \<Longrightarrow> owned u s' = owned u s"
  using owned_on_rdb [of f u s] by simp

lemma owned_storageD: "on_storage f s = (a, s') \<Longrightarrow> owned u s' = owned u s \<and> pg s' = pg s"
  by (auto simp: on_stores)

lemma owned_holdD: "holdTTLForRecipient e x s = (a, s') \<Longrightarrow> owned u s' = owned u s \<and> pg s' = pg s"
  by (metis holdTTL_snd owned_premium checkPremium_frame(1) snd_conv)

lemma owned_premiumD: "checkPremiumSubscription e x s = (a, s') \<Longrightarrow> owned u s' = owned u s \<and> pg s' = pg s"
  by (metis owned_premium checkPremium_frame(1) snd_conv)

lemma owned_uuidD: "uuid_New s = (a, s') \<Longrightarrow> owned u s' = owned u s \<and> pg s' = pg s"
  by (auto simp: uuid_New_def)

lemma owned_randD: "rand_Read n s = (a, s') \<Longrightarrow> owned u s' = owned u s \<and> pg s' = pg s"
  by (auto simp: rand_Read_def)

lemma owned_pgD:
  "on_pg f s = (a, s') \<Longrightarrow> pg s \<noteq> None \<Longrightarrow> (\<And>d. own_rows u (snd (f d)) = own_rows u d) \<Longrightarrow>
     owned u s' = owned u s \<and> pg s' \<noteq> None"
  by (auto simp: on_stores owned_def)

lemma owned_post_large: "owned u (snd (post_large e q s)) = owned u s"
proof (cases "pg s")
  case (Some d)
  show ?thesis
    by (auto simp: post_large_def Let_def Some split: prod.splits sum.splits option.splits
       dest!: owned_storageD [where u = u] owned_holdD [where u = u] owned_uuidD [where u = u] owned_pgD [where u = u])
qed (simp add: post_large_def)

section \<open>Every endpoint\<close>

lemma owned_post_high_ram: "pg s \<noteq> None \<Longrightarrow> owned u (snd (post_high_ram e q s)) = owned u s"
  by (auto simp: post_high_ram_def Let_def owned_on_pg split: prod.splits sum.splits option.splits
      dest!: owned_holdD [where u = u] owned_uuidD [where u = u] owned_pgD [where u = u])

lemma owned_post_normal: "owned u (snd (post_normal e q s)) = owned u s"
  by (auto simp: post_normal_def Let_def split: prod.splits sum.splits option.splits
      dest!: owned_holdD [where u = u] owned_rdbD [where u = u])

lemma owned_check_pow: "owned u (snd (check_pow e ip q s)) = owned u s"
  by (auto simp: check_pow_def split: prod.splits sum.splits option.splits bool.splits
      dest!: owned_rdbD [where u = u])

lemma owned_check_voucher: "owned u (snd (check_voucher e ip q s)) = owned u s"
  by (auto simp: check_voucher_def split: prod.splits sum.splits option.splits bool.splits
      dest!: owned_rdbD [where u = u])

lemma owned_post_gates: "owned u (snd (post_gates e q s)) = owned u s"
  by (auto simp: post_gates_def Let_def split: prod.splits sum.splits option.splits bool.splits
      dest!: owned_premiumD [where u = u])

lemma owned_spam: "owned u (snd (spam_protection e ip h q s)) = owned u s"
  by (simp add: spam_protection_def Let_def owned_check_pow owned_check_voucher)

lemma owned_after_check:
  assumes "owned u (snd c) = owned u s"
    and "\<And>s1. c = (None, s1) \<Longrightarrow> owned u (snd (body s1)) = owned u s1"
  shows "owned u (snd (after_check c body)) = owned u s"
  using assms by (auto simp: after_check_def split: prod.splits option.splits)

lemma owned_post_route: "owned u (snd (post_route e q s)) = owned u s"
  by (simp add: post_route_def owned_post_large owned_post_high_ram owned_post_normal)

lemma owned_handlePostQueue: "owned u (snd (handlePostQueue e r s)) = owned u s"
  by (auto simp: handlePostQueue_def owned_spam owned_post_gates owned_post_route
      intro!: owned_after_check split: option.splits)

lemma owned_handleGetChallenge: "owned u (snd (handleGetChallenge e r s)) = owned u s"
  by (auto simp: handleGetChallenge_def GenerateChallenge_def Let_def split: prod.splits sum.splits option.splits
      dest!: owned_randD [where u = u] owned_rdbD [where u = u])

lemma owned_checks [simp]:
  "owned u (snd (verifyPushIdentity e ip req msg s)) = owned u s"
  "owned u (snd (verifySocialIdentity e ip sreq msg s)) = owned u s"
  "owned u (snd (verifyQueryIdentity e ip uid pubkey tss sig msg s)) = owned u s"
  "owned u (snd (verifyStatusIdentity e ip uid tss sig pubkey s)) = owned u s"
  "owned u (snd (verifyEntitlementIdentity e ip ereq s)) = owned u s"
  "owned u (snd (verifyIntegrityIdentity e ip uid pubkey sig ts msg s)) = owned u s"
  using push_check.kept [where f = "owned u" and e = e and q = "(ip, req, msg)" and s = s]
    social_check.kept [where f = "owned u" and e = e and q = "(ip, sreq, msg)" and s = s]
    query_check.kept [where f = "owned u" and e = e and q = "(ip, uid, pubkey, tss, sig, msg)" and s = s]
    status_check.kept [where f = "owned u" and e = e and q = "(ip, uid, tss, sig, pubkey)" and s = s]
    entitlement_check.kept [where f = "owned u" and e = e and q = "(ip, ereq)" and s = s]
    integrity_check.kept [where f = "owned u" and e = e and q = "(ip, uid, pubkey, sig, ts, msg)" and s = s]
  by simp_all

lemma owned_handleQueueStatus: "owned u (snd (handleQueueStatus e r s)) = owned u s"
  by (auto simp: handleQueueStatus_def Let_def split: sum.splits option.splits intro!: owned_after_check)

lemma owned_handleIntegrityChallenge: "owned u (snd (handleIntegrityChallenge e r s)) = owned u s"
  by (auto simp: handleIntegrityChallenge_def Let_def split: sum.splits option.splits prod.splits
      intro!: owned_after_check dest!: owned_randD [where u = u] owned_rdbD [where u = u])

text \<open>A guarded body that touches what is stored for \<open>x\<close> only, where passing as \<open>u\<close> gives consent.\<close>

lemma owned_consent:
  assumes "\<And>t. c = (None, t) \<Longrightarrow> t = s \<and> (x = u \<longrightarrow> consent)" "owned u (snd c) = owned u s"
    and "x \<noteq> u \<Longrightarrow> owned u (snd (body s)) = owned u s"
  shows "consent \<or> owned u (snd (after_check c body)) = owned u s"
proof (cases "x = u")
  case True
  with assms(1,2) show ?thesis by (auto simp: after_check_def split: prod.splits option.splits)
next
  case False
  with assms have "owned u (snd (after_check c body)) = owned u s"
    by (auto intro!: owned_after_check)
  then show ?thesis by blast
qed

lemma owned_push_token_other:
  "on_rdb (SetPushToken e x v) s = (a, s') \<Longrightarrow> x \<noteq> u \<Longrightarrow> owned u s' = owned u s"
  "on_rdb (DeletePushToken e x) s = (a, s') \<Longrightarrow> x \<noteq> u \<Longrightarrow> owned u s' = owned u s"
  by (auto simp: on_stores SetPushToken_def DeletePushToken_def owned_def split: if_splits)

lemma checks_passed:
  "verifyPushIdentity e ip q msg s = (None, t) \<Longrightarrow>
     t = s \<and> signed_by e 30 (pu_ID q) (pu_Pubkey q) (pu_Sig q) (pu_Timestamp q) msg"
  "verifySocialIdentity e ip sq msg s = (None, t) \<Longrightarrow>
     t = s \<and> signed_by e 60 (so_ID sq) (so_Pubkey sq) (so_Sig sq) (so_Timestamp sq) msg"
  "verifyQueryIdentity e ip uid pubkey tss sig msg s = (None, t) \<Longrightarrow>
     t = s \<and> (\<exists>ts. ParseInt tss = Some ts \<and> signed_by e 60 uid pubkey sig ts msg)"
  "verifyEntitlementIdentity e ip eq s = (None, t) \<Longrightarrow>
     t = s \<and> signed_by e 30 (er_UserID eq) (er_Pubkey eq) (er_Signature eq) (er_Timestamp eq)
       (er_UserID eq @ '':'' @ FormatInt (er_Timestamp eq))"
  "verifyIntegrityIdentity e ip uid pubkey sig ts msg s = (None, t) \<Longrightarrow>
     t = s \<and> signed_by e 60 uid pubkey sig ts msg"
  using push_check.passed [where q = "(ip, q, msg)" and e = e and s = s and t = t]
    social_check.passed [where q = "(ip, sq, msg)" and e = e and s = s and t = t]
    query_check.passed [where q = "(ip, uid, pubkey, tss, sig, msg)" and e = e and s = s and t = t]
    entitlement_check.passed [where q = "(ip, eq)" and e = e and s = s and t = t]
    integrity_check.passed [where q = "(ip, uid, pubkey, sig, ts, msg)" and e = e and s = s and t = t]
  by (auto split: option.splits)

lemma if_neq_refl: "(if x \<noteq> x then a else b) = b" and if_Some_None: "(if Some d = None then a else b) = b"
  by simp_all

lemma consent_PushRegister: "http_consent PushRegister e r u \<or> owned u (snd (handlePushRegister e r s)) = owned u s"
proof (cases "rq_Method r = ''POST'' \<and> (\<exists>q. rq_push r = Some q \<and> pu_Token q \<noteq> [])")
  case True
  then obtain q where q: "rq_Method r = ''POST''" "rq_push r = Some q" "pu_Token q \<noteq> []" by blast
  show ?thesis
    unfolding handlePushRegister_def Let_def q option.case if_not_P [OF q(3)] if_False if_neq_refl
    by (rule owned_consent [where x = "pu_ID q"])
      (auto simp: http_consent_def q split: option.splits prod.splits sum.splits
        dest: checks_passed(1) owned_push_token_other)
qed (auto simp: handlePushRegister_def split: option.splits)

lemma consent_PushUnregister: "http_consent PushUnregister e r u \<or> owned u (snd (handlePushUnregister e r s)) = owned u s"
proof (cases "rq_Method r = ''POST'' \<and> (\<exists>q. rq_push r = Some q)")
  case True
  then obtain q where q: "rq_Method r = ''POST''" "rq_push r = Some q" by blast
  show ?thesis
    unfolding handlePushUnregister_def Let_def q option.case if_neq_refl
    by (rule owned_consent [where x = "pu_ID q"])
      (auto simp: http_consent_def q split: option.splits prod.splits sum.splits
        dest: checks_passed(1) owned_push_token_other)
qed (auto simp: handlePushUnregister_def split: option.splits)

lemma consent_Entitlement: "http_consent Entitlement e r u \<or> owned u (snd (handlePostEntitlement e r s)) = owned u s"
proof (cases "rq_Method r = ''POST'' \<and> pg s \<noteq> None \<and> (\<exists>q. rq_entitlement r = Some q)")
  case True
  then obtain q d where q: "rq_Method r = ''POST''" "pg s = Some d" "rq_entitlement r = Some q" by blast
  have res: "resolve_purchase e q t = (a, t') \<Longrightarrow> owned u t' = owned u t \<and> pg t' = pg t" for t a t'
    by (auto simp: resolve_purchase_def on_play_def Let_def split: if_splits prod.splits sum.splits play_error.splits)
  show ?thesis
    unfolding handlePostEntitlement_def Let_def q option.case if_neq_refl if_Some_None
    by (rule owned_consent [where x = "er_UserID q"])
      (auto simp: http_consent_def q own_rows_other grant_entitlement_def split: option.splits prod.splits sum.splits
        dest: checks_passed(4) dest!: res owned_pgD [where u = u] owned_rdbD [where u = u])
qed (auto simp: handlePostEntitlement_def split: option.splits)

lemma consent_IntegrityAttest: "http_consent IntegrityAttest e r u \<or> owned u (snd (handleIntegrityAttest e r s)) = owned u s"
proof (cases "rq_Method r = ''POST'' \<and> (\<exists>q. rq_attest r = Some q \<and> ia_IntegrityToken q \<noteq> [])")
  case True
  then obtain q where q: "rq_Method r = ''POST''" "rq_attest r = Some q" "ia_IntegrityToken q \<noteq> []" by blast
  have del: "on_rdb (DeleteIntegrityNonce e x) t = (a, t') \<Longrightarrow> owned u t' = owned u t \<and> pg t' = pg t" for x t a t'
    using owned_rdbD [of "DeleteIntegrityNonce e x" t a t' u] by (auto simp: on_stores)
  have verd: "attest_verdict e x tk n t = (a, t') \<Longrightarrow> owned u t' = owned u t \<and> pg t' = pg t" for t t' a x tk n
    using del [of x t] by (auto simp: attest_verdict_def on_integrity_def split: if_splits prod.splits)
  show ?thesis
    unfolding handleIntegrityAttest_def Let_def q option.case if_neq_refl if_not_P [OF q(3)]
    by (rule owned_consent [where x = "ia_UserID q"])
      (auto simp: http_consent_def q issue_attestation_def Let_def owned_on_pg own_rows_other
        split: option.splits prod.splits sum.splits dest: checks_passed(5) dest!: verd)
qed (auto simp: handleIntegrityAttest_def split: option.splits)

lemma consent_SocialBudget: "http_consent SocialBudget e r u \<or> owned u (snd (handleGetSocialBudget e r s)) = owned u s"
proof (cases "rq_Method r = ''GET''")
  case True
  show ?thesis
    unfolding handleGetSocialBudget_def Let_def True if_neq_refl
    by (rule owned_consent [where x = "rq_Query r ''user_id''"])
      (auto simp: http_consent_def own_rows_other split: option.splits prod.splits sum.splits
        dest: checks_passed(3) dest!: owned_premiumD [where u = u] owned_pgD [where u = u])
qed (simp add: handleGetSocialBudget_def)

lemma owned_delete_social_objects [simp]: "owned u (delete_social_objects e us s) = owned u s"
  by (induction us arbitrary: s) (simp_all add: Let_def)

lemma consent_SocialWipe: "http_consent SocialWipe e r u \<or> owned u (snd (handleSocialWipe e r s)) = owned u s"
proof (cases "rq_Method r = ''POST'' \<and> (\<exists>q. rq_social r = Some q)")
  case True
  then obtain q where q: "rq_Method r = ''POST''" "rq_social r = Some q" by blast
  show ?thesis
    unfolding handleSocialWipe_def Let_def q option.case if_neq_refl
    by (rule owned_consent [where x = "so_ID q"])
      (auto simp: http_consent_def q own_rows_other split: option.splits prod.splits sum.splits
        dest: checks_passed(2) dest!: owned_pgD [where u = u])
qed (auto simp: handleSocialWipe_def split: option.splits)
lemma endpoint_authority: "http_consent p e r u \<or> owned u (snd (endpoint p e r s)) = owned u s"
  using consent_PushRegister consent_PushUnregister consent_Entitlement consent_IntegrityAttest
    consent_SocialBudget consent_SocialWipe
  by (cases p) (simp_all add: endpoint_def owned_handleGetChallenge owned_handlePostQueue
      owned_handleQueueStatus owned_handleIntegrityChallenge handleIntegrityQuery_def Let_def
      split: option.split sum.split)

section \<open>Properties\<close>

text \<open>
  The signature of a poll that \<open>/queue/status\<close> accepts is accepted, while it is fresh, by the checks of the two
  endpoints that sign the same text: there is no domain separation between reading and changing.
\<close>

lemma poll_signs_more:
  assumes "verifyStatusIdentity e ip u tss sig pubkey s = (None, t)" "ParseInt tss = Some ts" "ts \<noteq> 0"
    and "drift (now e') ts \<le> 30" "ed_verify e' = ed_verify e"
  shows "verifyPushIdentity e' ip' \<lparr>pu_ID = u, pu_Pubkey = pubkey, pu_Timestamp = ts, pu_Sig = sig, pu_Token = k,
           pu_DeviceToken = d\<rparr> (u @ '':'' @ FormatInt ts) s' = (None, s')"
    and "verifyEntitlementIdentity e' ip' \<lparr>er_UserID = u, er_Pubkey = pubkey, er_Signature = sig, er_Timestamp = ts,
           er_PurchaseToken = k, er_SubscriptionHash = h\<rparr> s' = (None, s')"
proof -
  have "u \<noteq> []" "pubkey \<noteq> []" "sig \<noteq> []" "signed_by e 30 u pubkey sig ts (u @ '':'' @ FormatInt ts)"
    using status_check.passed [where q = "(ip, u, tss, sig, pubkey)" and e = e and s = s and t = t] assms(1,2) by auto
  then show "verifyPushIdentity e' ip' \<lparr>pu_ID = u, pu_Pubkey = pubkey, pu_Timestamp = ts, pu_Sig = sig, pu_Token = k,
           pu_DeviceToken = d\<rparr> (u @ '':'' @ FormatInt ts) s' = (None, s')"
    and "verifyEntitlementIdentity e' ip' \<lparr>er_UserID = u, er_Pubkey = pubkey, er_Signature = sig, er_Timestamp = ts,
           er_PurchaseToken = k, er_SubscriptionHash = h\<rparr> s' = (None, s')"
    using assms(3-5) by (auto simp: verifyPushIdentity_def verifyEntitlementIdentity_def signed_by_iff)
qed

text \<open>
  C21. Least authority over HTTP. Whatever request reaches whatever route behind the rate-limit middleware
  (all but \<open>/ping\<close> and the socket), from whatever address and under whatever outages, what is stored on
  behalf of a user (push token, subscription, attestation, device token, stories, story budget) changes
  only if the request carries a fresh signature by that user's own key over the text that the endpoint
  prescribes, and only past the ban and the request rate of the address. The text names the action for an
  attestation, the story budget and a wipe, and the new token for a push registration; for a subscription
  and the removal of a push token it is the bare \<open>id:timestamp\<close>, so that \<open>poll_signs_more\<close> below holds.
\<close>

theorem http_authority:
  assumes "owned u (snd (serve_http p e r s)) \<noteq> owned u s"
  shows "http_consent p e r u \<and> CheckIPBan e (clientIP r) (rdb s) = Inr False \<and>
    fst (CheckIPRateLimit e (clientIP r) 10 (rdb s)) = Inr True"
proof -
  let ?ip = "clientIP r"
  have o: "owned u (snd (on_rdb (CheckIPRateLimit e ?ip 10) s)) = owned u s" by simp
  have ban: "CheckIPBan e ?ip (rdb s) = Inr False"
    using assms by (auto simp: serve_http_def rateLimitMiddleware_def Let_def split: sum.splits bool.splits)
  have rate: "fst (CheckIPRateLimit e ?ip 10 (rdb s)) = Inr True"
    using assms ban o by (auto simp: serve_http_def rateLimitMiddleware_def Let_def on_stores
        split: sum.splits bool.splits prod.splits)
  from ban rate have "serve_http p e r s = endpoint p e r (snd (on_rdb (CheckIPRateLimit e ?ip 10) s))"
    by (simp add: serve_http_def rateLimitMiddleware_def on_stores split: sum.splits bool.splits)
  with assms o endpoint_authority [of p e r u "snd (on_rdb (CheckIPRateLimit e ?ip 10) s)"] ban rate
  show ?thesis by auto
qed

text \<open>A user wipes its own data.\<close>

definition wipe_user :: string where "wipe_user = GenerateUserID (replicate 32 0)"

definition wipe_request :: http_request where
  "wipe_request = (peer_request ''9.9.9.9:80'')\<lparr>rq_Method := ''POST'', rq_social := Some
     \<lparr>so_ID = wipe_user, so_Pubkey = hexEncode (replicate 32 0), so_Timestamp = 1,
      so_Sig = hexEncode (replicate 64 0)\<rparr>\<rparr>"

definition wipe_state :: relay where
  "wipe_state = relay0\<lparr>pg := Some (pg_empty\<lparr>social_budgets := [wipe_user \<mapsto>
     \<lparr>sb_UserID = wipe_user, sb_BytesUsed = 7, sb_WeekStart = 0, sb_UpdatedAt = 0\<rparr>]\<rparr>)\<rparr>"

theorem http_authority_witness:
  "http_consent SocialWipe env0 wipe_request wipe_user \<and>
   CheckIPBan env0 (clientIP wipe_request) (rdb wipe_state) = Inr False \<and>
   fst (CheckIPRateLimit env0 (clientIP wipe_request) 10 (rdb wipe_state)) = Inr True"
proof (rule http_authority [where s = wipe_state])
  have h: "remote_host wipe_request = ''9.9.9.9''"
    using SplitHostPort_plain [of "''9.9.9.9''" "''80''"]
    by (simp add: remote_host_def wipe_request_def peer_request_def)
  have ip: "clientIP wipe_request = ''9.9.9.9''"
    by (subst clientIP_direct) (simp_all add: h)
  have len: "hexEncode (replicate 32 0) \<noteq> []" "hexEncode (replicate 64 0) \<noteq> []" "wipe_user \<noteq> []"
    using length_hexEncode [of "replicate 32 0"] length_hexEncode [of "replicate 64 0"] hex_roundtrip [of "replicate 32 0"]
    by (auto simp: wipe_user_def simp del: length_hexEncode)
  show "owned wipe_user (snd (serve_http SocialWipe env0 wipe_request wipe_state)) \<noteq> owned wipe_user wipe_state"
    using len hex_roundtrip
    by (simp add: serve_http_def rateLimitMiddleware_def ip CheckIPBan_def on_stores CheckIPRateLimit_def Let_def
        endpoint_def handleSocialWipe_def wipe_request_def after_check_def verifySocialIdentity_def 
        VerifySignature_def wipe_state_def wipe_user_def [symmetric] drift_def wrap64_def unix_def NewRedisClient_def
        WipeUserSocialData_def delete_stories_def bucket_urls_def owned_def own_rows_def)
qed
end
