(* ===== verification/Http_Post.thy ===== *)
theory Http_Post
  imports Http_Facts
begin

text \<open>
  Properties of posting to a queue over HTTP (\<open>handlePostQueue\<close>): what an accepted post does, what
  the proof of work and its nonce guarantee, and two places where they do not do what they mean to.
\<close>

lemma after_check_None: "c = (None, s1) \<Longrightarrow> after_check c body = body s1"
  by (simp add: after_check_def)

text \<open>
  C26. A proof-of-work post says whom it comes from, and nobody checks. If a request passes the
  proof of work, the same request with any voucher attached, signed by whomever or not at all, is
  accepted too, and the recipient gets it as coming from the sender that the voucher names.
\<close>

theorem pow_post_forges_sender:
  fixes r :: http_request and q :: PostMessageRequest and v :: Voucher
  assumes "rq_Method r = ''POST''" "rq_Header r ''X-Wiltkey-Spam-Protection'' = []"
    and "rq_post r = Some q" "pr_RecipientID q \<noteq> []" "pr_Envelope q \<noteq> []"
    and "check_pow e (clientIP r) q s = (None, s1)"
    and "IsQueueBlocked e (pr_RecipientID q) (rdb s1) = Inr False"
    and "int (length (pr_Envelope q)) < 500 * 1024" "pg s1 = None \<or> \<not> isHighRAMLoad e"
    and "clients s1 (pr_RecipientID q) = Some p" "\<not> cl_closed (conns s1 p)" "length (cl_send (conns s1 p)) < 512"
  shows "handlePostQueue e (r\<lparr>rq_post := Some (q\<lparr>pr_Voucher := Some v\<rparr>)\<rparr>) s =
     (accepted, SendJSON p (post_message (SenderKeyHash v) (pr_Envelope q) [] []) s1) \<and>
    cl_send (conns (snd (handlePostQueue e (r\<lparr>rq_post := Some (q\<lparr>pr_Voucher := Some v\<rparr>)\<rparr>) s)) p) =
     cl_send (conns s1 p) @ [post_message (SenderKeyHash v) (pr_Envelope q) [] []]"
proof -
  let ?q = "q\<lparr>pr_Voucher := Some v\<rparr>"
  have pow: "check_pow e ip ?q s = check_pow e ip q s" for ip
    by (simp add: check_pow_def split: sum.split prod.split bool.split)
  have small: "\<not> plusMaxPayload < int (length (pr_Envelope q))" "\<not> freeMaxPayload \<le> int (length (pr_Envelope q))"
      "\<not> largePayloadThreshold \<le> int (length (pr_Envelope q))"
    using assms(8) by (simp_all add: plusMaxPayload_def freeMaxPayload_def largePayloadThreshold_def)
  have "handlePostQueue e (r\<lparr>rq_post := Some ?q\<rparr>) s = post_route e ?q s1"
    using assms(1-7) small
    by (simp add: handlePostQueue_def spam_protection_def pow post_gates_def after_check_def)
  also have "post_route e ?q s1 = (accepted, SendJSON p (post_message (SenderKeyHash v) (pr_Envelope q) [] []) s1)"
    using small assms(9,10) by (auto simp: post_route_def post_normal_def getClient_def post_sender_def)
  finally show ?thesis using assms(11,12) by (simp add: SendJSON_def Let_def send_buffer_def)
qed


definition post_request :: "string \<Rightarrow> string \<Rightarrow> int \<Rightarrow> string \<Rightarrow> http_request" where
  "post_request addr chal nonce to =
     (peer_request addr)\<lparr>rq_Method := ''POST'', rq_Header := (\<lambda>_. []), rq_post := Some
       \<lparr>pr_RecipientID = to, pr_Envelope = ''hi'', pr_Challenge = chal, pr_Nonce = nonce, pr_Voucher = None\<rparr>\<rparr>"

text \<open>Two issued challenges that any proof of work solves, and bob online.\<close>

definition post_state :: relay where
  "post_state = hub_register 0 (snd (new_Client env0 ''bob'' (relay0\<lparr>rdb := NewRedisClient
     \<lparr>memoryPoW := [''c1'' \<mapsto> \<lparr>pow_difficulty = 0, pow_expires = Minute\<rparr>,
                    ''c2'' \<mapsto> \<lparr>pow_difficulty = 0, pow_expires = Minute\<rparr>]\<rparr>\<rparr>)))"

lemma clientIP_plain:
  assumes "SplitHostPort (rq_RemoteAddr r) = Inr (h, p)" "h \<notin> {''127.0.0.1'', ''::1''}"
  shows "clientIP r = h"
  using assms clientIP_direct [of r] by (simp add: remote_host_def)

definition stolen_voucher :: Voucher where
  "stolen_voucher = \<lparr>RecipientPublicKey = [], SenderKeyHash = ''alice'', Expiry = - 1, Signature = []\<rparr>"

theorem pow_post_forges_sender_witness:
  "VerifyVoucher (ed_verify env0) (now env0) ''bob'' stolen_voucher \<noteq> Inr True \<and>
   (\<exists>s1. handlePostQueue env0 ((post_request ''9.9.9.9:80'' ''c1'' 1 ''bob'')\<lparr>rq_post := Some
        (\<lparr>pr_RecipientID = ''bob'', pr_Envelope = ''hi'', pr_Challenge = ''c1'', pr_Nonce = 1, pr_Voucher = None\<rparr>
         \<lparr>pr_Voucher := Some stolen_voucher\<rparr>)\<rparr>) post_state = 
      (accepted, SendJSON 0 (post_message ''alice'' ''hi'' [] []) s1))"
proof -
  let ?r = "post_request ''9.9.9.9:80'' ''c1'' 1 ''bob''"
  let ?q = "\<lparr>pr_RecipientID = ''bob'', pr_Envelope = ''hi'', pr_Challenge = ''c1'', pr_Nonce = 1, pr_Voucher = None\<rparr>"
  define s1 where "s1 = snd (check_pow env0 (clientIP ?r) ?q post_state)"
  have st: "rdb post_state = NewRedisClient\<lparr>memoryPoW := [''c1'' \<mapsto> \<lparr>pow_difficulty = 0, pow_expires = Minute\<rparr>,
                    ''c2'' \<mapsto> \<lparr>pow_difficulty = 0, pow_expires = Minute\<rparr>]\<rparr>"
    "clients post_state ''bob'' = Some 0" "\<not> cl_closed (conns post_state 0)" "cl_send (conns post_state 0) = []"
    by (simp_all add: post_state_def new_Client_def hub_register_def)
  have pow: "check_pow env0 (clientIP ?r) ?q post_state = (None, s1) \<and> clients s1 = clients post_state \<and>
      conns s1 = conns post_state \<and> memoryBlocks (rdb s1) = Map.empty"
    by (simp add: s1_def check_pow_def on_stores GetPoWChallengeDifficulty_def IsNonceUnique_def VerifyPoW_def
        HasPrefix_def st NewRedisClient_def time_units)
  have "handlePostQueue env0 (?r\<lparr>rq_post := Some (?q\<lparr>pr_Voucher := Some stolen_voucher\<rparr>)\<rparr>) post_state = 
      (accepted, SendJSON 0 (post_message (SenderKeyHash stolen_voucher) (pr_Envelope ?q) [] []) s1) \<and>
    cl_send (conns (snd (handlePostQueue env0 (?r\<lparr>rq_post := Some (?q\<lparr>pr_Voucher := Some stolen_voucher\<rparr>)\<rparr>) post_state)) 0) =
     cl_send (conns s1 0) @ [post_message (SenderKeyHash stolen_voucher) (pr_Envelope ?q) [] []]"
    by (rule pow_post_forges_sender)
      (use pow st in \<open>auto simp: post_request_def IsQueueBlocked_def isHighRAMLoad_def\<close>)
  then show ?thesis
    by (auto simp: stolen_voucher_def VerifyVoucher_def unix_def)
qed
lemma check_pow_passed:
  assumes "check_pow e ip q s = (None, s1)"
  shows "memoryNonces (rdb s1) (FormatInt (pr_Nonce q)) = Some (now e + 10 * Minute)"
    "memoryPoW (rdb s1) = (memoryPoW (rdb s))(pr_Challenge q := None)"
    "\<exists>v. memoryPoW (rdb s) (pr_Challenge q) = Some v \<and> now e \<le> pow_expires v \<and>
       VerifyPoW (pr_Challenge q) (pr_Nonce q) (pr_Envelope q) (pow_difficulty v)"
    "pr_Challenge q \<noteq> []" "pr_Nonce q \<noteq> 0"
  using assms
  by (auto simp: check_pow_def on_stores GetPoWChallengeDifficulty_def IsNonceUnique_def refuse_def punish_def
      handleValidationFailure_def split: if_splits option.splits sum.splits bool.splits)

text \<open>
  Honest proofs collide. The relay remembers the nonces of all posts as plain numbers for ten
  minutes, whatever challenge they solved. So a client that solved its own fresh challenge is
  refused as a replay, and its address banned, if any other client's accepted post happened to
  have the same nonce number.
\<close>

theorem nonce_collision_bans:
  assumes "check_pow e1 ip1 q1 s = (None, s1)" "pr_Nonce q2 = pr_Nonce q1"
    and "pr_Challenge q2 \<noteq> []" "memoryPoW (rdb s1) (pr_Challenge q2) = Some v" "now e2 \<le> pow_expires v"
    and "VerifyPoW (pr_Challenge q2) (pr_Nonce q2) (pr_Envelope q2) (pow_difficulty v)"
    and "now e2 < now e1 + 10 * Minute" "\<And>c. \<not> fault e2 c" "memoryFails (rdb s1) ip2 = None"
    and "now e3 \<le> now e2 + 5 * Minute" "\<not> fault e3 (Rdb OpCheckIPBan ip2)"
  shows "fst (check_pow e2 ip2 q2 s1) =
      Some (400, RawJson ''{\"error\":\"Validation failed: replay attack detected (used nonce)\"}'') \<and>
    CheckIPBan e3 ip2 (rdb (snd (check_pow e2 ip2 q2 s1))) = Inr True"
proof -
  note p = check_pow_passed [OF assms(1)]
  define s2 where "s2 = s1\<lparr>rdb := (rdb s1)\<lparr>memoryPoW := (memoryPoW (rdb s1))(pr_Challenge q2 := None)\<rparr>\<rparr>"
  have c: "check_pow e2 ip2 q2 s1 = punish e2 ip2 ''replay attack detected (used nonce)'' s2"
    using p assms(2-8)
    by (auto simp: check_pow_def on_stores GetPoWChallengeDifficulty_def IsNonceUnique_def s2_def not_less
        split: sum.splits bool.splits prod.splits)
  have "memoryFails (rdb s2) ip2 = None" using assms(9) by (simp add: s2_def)
  then have "memoryBans (rdb (registerIPFailure e2 ip2 s2)) ip2 = Some (now e2 + 5 * Minute)"
    using ban_after_failure [of e2 ip2 s2] assms(8) by simp
  with assms(10,11) show ?thesis by (simp add: c CheckIPBan_def)
qed

text \<open>
  C25. A post is queued once. A request whose proof solves an issued challenge within its five
  minutes, for a recipient that is offline and not locked, is accepted and is the newest entry of
  that recipient's queue, as an anonymous message, with a wake-up on its way; and the same
  request, sent again at any time, changes no queue.
\<close>

theorem pow_post_queued_once:
  fixes q :: PostMessageRequest
  assumes "rq_Method r = ''POST''" "rq_Header r ''X-Wiltkey-Spam-Protection'' = []" "rq_post r = Some q"
    and "pr_RecipientID q = u" "u \<noteq> []" "pr_Envelope q \<noteq> []" "pr_Voucher q = None"
    and "pr_Challenge q \<noteq> []" "memoryPoW (rdb s) (pr_Challenge q) = Some v" "now e \<le> pow_expires v"
    and "pr_Nonce q \<noteq> 0" "VerifyPoW (pr_Challenge q) (pr_Nonce q) (pr_Envelope q) (pow_difficulty v)"
    and "memoryNonces (rdb s) (FormatInt (pr_Nonce q)) = None" "\<And>c. \<not> fault e c"
    and "memoryBlocks (rdb s) u = None" "clients s u = None"
    and "int (length (pr_Envelope q)) < 500 * 1024" "pg s = None \<or> \<not> isHighRAMLoad e"
  shows "\<exists>s1. handlePostQueue e r s = (accepted, s1) \<and>
    (\<exists>es. memoryQueue (rdb s1) u = Some es \<and> length es \<le> 1000 \<and>
       entry_of (last es) = (''offline_queue_router'', pr_Envelope q, [])) \<and>
    wakes s1 = wakes s @ [(u, ''offline_queue_router'', [])] \<and>
    memoryQueue (rdb (snd (handlePostQueue e' r s1))) = memoryQueue (rdb s1) \<and>
    fst (handlePostQueue e' r s1) \<noteq> accepted"
proof -
  define t where "t = s\<lparr>rdb := (rdb s)\<lparr>memoryPoW := (memoryPoW (rdb s))(pr_Challenge q := None),
      memoryNonces := (memoryNonces (rdb s))(FormatInt (pr_Nonce q) \<mapsto> now e + 10 * Minute)\<rparr>\<rparr>"
  have pow: "check_pow e ip q s = (None, t)" for ip
    using assms(8-14) by (simp add: check_pow_def on_stores GetPoWChallengeDifficulty_def IsNonceUnique_def t_def not_less)
  have small: "\<not> plusMaxPayload < int (length (pr_Envelope q))" "\<not> freeMaxPayload \<le> int (length (pr_Envelope q))"
      "\<not> largePayloadThreshold \<le> int (length (pr_Envelope q))"
    using assms(17) by (simp_all add: plusMaxPayload_def freeMaxPayload_def largePayloadThreshold_def)
  have gates: "post_gates e q t = (None, t)"
    using assms(4,14,15) small by (simp add: post_gates_def IsQueueBlocked_def t_def)
  obtain ttl t1 where hold: "holdTTLForRecipient e u t = (ttl, t1)" by fastforce
  have t1: "t1 = snd (checkPremiumSubscription e u t)" "24 * Hour \<le> ttl"
    using hold holdTTL_snd [of e u t] holdTTL_ge [of e u t] by auto
  have pow1: "memoryPoW (rdb t1) = memoryPoW (rdb t)"
    unfolding t1(1) by (rule disjE [OF checkPremium_rdb [of e u t]]) auto
  obtain r2 where add: "AddMessageToQueue e u ''offline_queue_router'' (pr_Envelope q) [] ttl (rdb t1) = (Inr (), r2)"
    using assms(14) by (simp add: AddMessageToQueue_def Let_def)
  have ram: "\<not> (pg t \<noteq> None \<and> isHighRAMLoad e)" and off: "clients t u = None"
    using assms(16,18) by (auto simp: t_def)
  define s1 where "s1 = go_sendWakePush u ''offline_queue_router'' [] (t1\<lparr>rdb := r2\<rparr>)"
  have run: "handlePostQueue e r s = (accepted, s1)"
    using assms(1-7) gates small add hold ram off
    by (auto simp: handlePostQueue_def spam_protection_def pow after_check_def post_route_def post_normal_def
        getClient_def post_sender_def on_rdb_def s1_def)
  from AddMessageToQueue_bounded_aux [OF add] t1(2) have
    queued: "\<exists>es. memoryQueue r2 u = Some es \<and> length es \<le> 1000 \<and>
       entry_of (last es) = (''offline_queue_router'', pr_Envelope q, [])"
    by (auto simp: time_units)
  have "memoryPoW r2 = memoryPoW (rdb t)"
    using add pow1 by (auto simp: AddMessageToQueue_def Let_def split: if_splits)
  then have gone: "memoryPoW (rdb s1) (pr_Challenge q) = None"
    by (simp add: s1_def t_def)
  then have "check_pow e' ip q s1 = punish e' ip ''invalid/expired challenge'' s1" for ip
    using assms(8,11) by (simp add: check_pow_def on_stores GetPoWChallengeDifficulty_def)
  then have "handlePostQueue e' r s1 = handleValidationFailure e' (clientIP r) ''invalid/expired challenge'' s1"
    using assms(1-6) by (simp add: handlePostQueue_def spam_protection_def after_check_def punish_def
        handleValidationFailure_def)
  with run queued t1(1) show ?thesis
    by (simp add: s1_def handleValidationFailure_def accepted_def go_sendWakePush_def t_def)
qed

lemma post_request_simps [simp]:
  "rq_Method (post_request a c n u) = ''POST''" "rq_Header (post_request a c n u) h = []"
  "rq_post (post_request a c n u) = Some \<lparr>pr_RecipientID = u, pr_Envelope = ''hi'', pr_Challenge = c,
     pr_Nonce = n, pr_Voucher = None\<rparr>"
  by (simp_all add: post_request_def)

lemma post_state_simps [simp]:
  "rdb post_state = NewRedisClient\<lparr>memoryPoW := [''c1'' \<mapsto> \<lparr>pow_difficulty = 0, pow_expires = Minute\<rparr>,
                    ''c2'' \<mapsto> \<lparr>pow_difficulty = 0, pow_expires = Minute\<rparr>]\<rparr>"
  "clients post_state ''bob'' = Some 0" "\<not> cl_closed (conns post_state 0)" "cl_send (conns post_state 0) = []"
  "clients post_state ''carol'' = None" "wakes post_state = []"
  by (simp_all add: post_state_def new_Client_def hub_register_def)

theorem pow_post_queued_once_witness:
  "\<exists>s1. handlePostQueue env0 (post_request ''9.9.9.9:80'' ''c1'' 1 ''carol'') post_state = (accepted, s1) \<and>
    (\<exists>es. memoryQueue (rdb s1) ''carol'' = Some es \<and> length es \<le> 1000 \<and>
       entry_of (last es) = (''offline_queue_router'', ''hi'', [])) \<and>
    wakes s1 = wakes post_state @ [(''carol'', ''offline_queue_router'', [])] \<and>
    memoryQueue (rdb (snd (handlePostQueue env0 (post_request ''9.9.9.9:80'' ''c1'' 1 ''carol'') s1))) = memoryQueue (rdb s1) \<and>
    fst (handlePostQueue env0 (post_request ''9.9.9.9:80'' ''c1'' 1 ''carol'') s1) \<noteq> accepted"
  using pow_post_queued_once [of "post_request ''9.9.9.9:80'' ''c1'' 1 ''carol''" _ "''carol''" post_state
      "\<lparr>pow_difficulty = 0, pow_expires = Minute\<rparr>" env0 env0]
  by (simp add: VerifyPoW_def HasPrefix_def NewRedisClient_def isHighRAMLoad_def time_units)

theorem nonce_collision_bans_witness:
  "fst (check_pow env0 ''9.9.9.9'' (the (rq_post (post_request [] ''c1'' 1 ''bob''))) post_state) = None \<and>
   fst (check_pow env0 ''7.7.7.7'' (the (rq_post (post_request [] ''c2'' 1 ''bob'')))
      (snd (check_pow env0 ''9.9.9.9'' (the (rq_post (post_request [] ''c1'' 1 ''bob''))) post_state))) =
    Some (400, RawJson ''{\"error\":\"Validation failed: replay attack detected (used nonce)\"}'')"
proof -
  let ?q1 = "the (rq_post (post_request [] ''c1'' 1 ''bob''))" and ?q2 = "the (rq_post (post_request [] ''c2'' 1 ''bob''))"
  define s1 where "s1 = snd (check_pow env0 ''9.9.9.9'' ?q1 post_state)"
  have s1: "check_pow env0 ''9.9.9.9'' ?q1 post_state = (None, s1)"
    "memoryPoW (rdb s1) ''c2'' = Some \<lparr>pow_difficulty = 0, pow_expires = Minute\<rparr>"
    "memoryFails (rdb s1) ''7.7.7.7'' = None"
    by (simp_all add: s1_def check_pow_def on_stores GetPoWChallengeDifficulty_def IsNonceUnique_def VerifyPoW_def
        HasPrefix_def NewRedisClient_def time_units)
  from nonce_collision_bans [OF s1(1), of ?q2 "\<lparr>pow_difficulty = 0, pow_expires = Minute\<rparr>" env0 "''7.7.7.7''" env0] s1
  show ?thesis by (simp add: VerifyPoW_def HasPrefix_def time_units)
qed
end
