(* ===== verification/Http_Google.thy ===== *)
theory Http_Google
  imports Http_Facts
begin

text \<open>
  Properties of the two endpoints that rest on Google's word: a subscription lasts as long as
  Google says, and an attestation needs a verdict on a challenge that this relay issued.
\<close>

section \<open>Subscriptions\<close>

lemma hexEncode_Nil_iff: "hexEncode b = [] \<longleftrightarrow> b = []"
  using length_hexEncode [of b] by (cases b) (auto simp: hexEncode_Cons)

lemma tokenHash_not_Nil [simp]: "tokenHash t \<noteq> []"
  unfolding tokenHash_def hexEncode_Nil_iff using length_sha256 [of "bytes_of t"] by fastforce

lemma latest_expiry_cases:
  "latest_expiry ts x = x \<or> x < latest_expiry ts x \<and> Some (latest_expiry ts x) \<in> parse_RFC3339 ` set ts"
proof (induction ts arbitrary: x)
  case (Cons t ts)
  show ?case
  proof (cases "parse_RFC3339 t")
    case None
    with Cons [of x] show ?thesis by auto
  next
    case (Some y)
    show ?thesis
    proof (cases "t \<noteq> [] \<and> x < y")
      case True
      with Cons [of y] Some show ?thesis by (auto simp: image_iff)
    next
      case False
      with Cons [of x] Some show ?thesis by auto
    qed
  qed
qed simp

lemma PlayVerifier_Verify_Inr:
  assumes "PlayVerifier_Verify e token g = (Inr expiry, g')"
  shows "\<exists>access body sub. play_api e access (play_package e) token = Reply 200 body (Some sub) \<and>
    sv_SubscriptionState sub \<in> set entitled_states \<and>
    Some expiry \<in> parse_RFC3339 ` set (sv_ExpiryTimes sub) \<and> now e < expiry"
proof -
  obtain access body sub where r: "play_api e access (play_package e) token = Reply 200 body (Some sub)"
      "play_verdict e sub = Inr expiry"
    using assms by (auto simp: PlayVerifier_Verify_def split: if_splits prod.splits sum.splits http_reply.splits option.splits)
  then have "sv_SubscriptionState sub \<in> set entitled_states" "now e < expiry"
      "expiry = latest_expiry (sv_ExpiryTimes sub) zero_time" "expiry \<noteq> zero_time"
    by (auto simp: play_verdict_def Let_def split: if_splits)
  with r latest_expiry_cases [of "sv_ExpiryTimes sub" zero_time] show ?thesis by auto
qed

lemma refusals_400:
  "verifyEntitlementIdentity e ip req s = (Some resp, t) \<Longrightarrow> fst resp = 400"
  "verifyIntegrityIdentity e ip uid pubkey sig ts msg s = (Some resp, t) \<Longrightarrow> fst resp = 400"
  by (auto simp: verifyEntitlementIdentity_def verifyIntegrityIdentity_def Let_def http_Error_def refuse_def punish_def
      handleValidationFailure_def split: if_splits option.splits)

lemma entitlement_accepted:
  assumes "handlePostEntitlement e r s = ((200, b), s')" "rq_entitlement r = Some req"
  shows "verifyEntitlementIdentity e (clientIP r) req s = (None, s)"
proof -
  obtain a t where c: "verifyEntitlementIdentity e (clientIP r) req s = (a, t)" by fastforce
  have "a = None"
    using assms c refusals_400(1) [of e "clientIP r" req s _ t]
    by (cases a) (auto simp: handlePostEntitlement_def after_check_def method_not_allowed_def http_Error_def
        split: if_splits)
  with c show ?thesis
    using entitlement_check.passed [where e = e and q = "(clientIP r, req)" and s = s and t = t] by simp
qed

lemma granted_until:
  assumes "grant_entitlement e u h expiry s = ((200, b), s')" "pg s \<noteq> None" "\<And>c. \<not> fault e c" "h \<noteq> []" "now e < expiry"
    and "\<forall>c. \<not> fault e' c" "now e \<le> now e'" "now e' \<noteq> expiry"
  shows "fst (checkPremiumSubscription e' u s') = Inr (now e' < expiry)"
proof -
  obtain d where d: "pg s = Some d" using assms(2) by blast
  have ttl: "0 < time_Until (now e) expiry" "now e + time_Until (now e) expiry \<le> expiry"
    using assms(5) by (simp_all add: time_Until_pos time_Until_le)
  have "pg s' = Some (d\<lparr>entitlements := (entitlements d)(u \<mapsto>
      \<lparr>ent_UserID = u, ent_VerificationKeyHash = h, ent_ExpiresAt = expiry\<rparr>)\<rparr>)"
    "memoryEntitlements (rdb s') u = Some h"
    "memoryBlocks (rdb s') (''entitlement:'' @ u) = Some (now e + time_Until (now e) expiry)"
    using assms(1) ttl(1)
    by (auto simp: grant_entitlement_def d on_stores assms(3) pg_StoreEntitlement_def rdb_StoreEntitlement_def)
  then show ?thesis
    using assms(4,6-8) ttl(2)
    by (auto simp: checkPremiumSubscription_def Let_def GetEntitlementHash_def GetEntitlement_def on_stores)
qed

text \<open>
  C23. Plus for as long as Google says. On a relay with Play verification, an accepted entitlement
  request rests on Google's answer to its purchase token, in an entitled state and with an expiry
  that lies ahead; afterwards, without outages, the premium check of that user answers yes up to
  that expiry and no from then on.
\<close>

theorem entitlement_until_google_expiry:
  assumes "play_enabled e" "handlePostEntitlement e r s = ((200, b), s')" "\<And>c. \<not> fault e c"
  shows "\<exists>req access body sub expiry. rq_entitlement r = Some req \<and>
    play_api e access (play_package e) (er_PurchaseToken req) = Reply 200 body (Some sub) \<and>
    sv_SubscriptionState sub \<in> set entitled_states \<and>
    Some expiry \<in> parse_RFC3339 ` set (sv_ExpiryTimes sub) \<and> now e < expiry \<and>
    (\<forall>e'. (\<forall>c. \<not> fault e' c) \<longrightarrow> now e \<le> now e' \<longrightarrow> now e' \<noteq> expiry \<longrightarrow>
       fst (checkPremiumSubscription e' (er_UserID req) s') = Inr (now e' < expiry))"
proof -
  obtain req where req: "rq_entitlement r = Some req" "rq_Method r = ''POST''" "pg s \<noteq> None"
    using assms(2) by (auto simp: handlePostEntitlement_def method_not_allowed_def http_Error_def split: if_splits option.splits)
  let ?u = "er_UserID req" and ?h = "tokenHash (er_PurchaseToken req)"
  have run: "handlePostEntitlement e r s = (case resolve_purchase e req s of
       (Inl resp, s2) \<Rightarrow> (resp, s2) | (Inr (h, expiry), s2) \<Rightarrow> grant_entitlement e ?u h expiry s2)"
    using entitlement_accepted [OF assms(2) req(1)] req by (auto simp: handlePostEntitlement_def after_check_def)
  obtain expiry g where v: "PlayVerifier_Verify e (er_PurchaseToken req) (play_cache s) = (Inr expiry, g)"
     "resolve_purchase e req s = (Inr (?h, expiry), s\<lparr>play_cache := g\<rparr>)"
    using assms(1,2) run
    by (auto simp: resolve_purchase_def on_play_def http_Error_def split: if_splits prod.splits sum.splits play_error.splits)
  from PlayVerifier_Verify_Inr [OF v(1)] obtain access body sub where g:
    "play_api e access (play_package e) (er_PurchaseToken req) = Reply 200 body (Some sub)"
    "sv_SubscriptionState sub \<in> set entitled_states"
    "Some expiry \<in> parse_RFC3339 ` set (sv_ExpiryTimes sub)" "now e < expiry" by blast
  have "grant_entitlement e ?u ?h expiry (s\<lparr>play_cache := g\<rparr>) = ((200, b), s')"
    using assms(2) run v(2) by simp
  from granted_until [OF this _ _ tokenHash_not_Nil g(4)] req(3) assms(3)
  have "\<forall>e'. (\<forall>c. \<not> fault e' c) \<longrightarrow> now e \<le> now e' \<longrightarrow> now e' \<noteq> expiry \<longrightarrow>
       fst (checkPremiumSubscription e' ?u s') = Inr (now e' < expiry)"
    by simp
  with req(1) g show ?thesis by blast
qed


definition env_play :: env where
  "env_play = env0\<lparr>play_enabled := True, oauth_api := (\<lambda>_ _. Reply 200 [] (Some (''at'', 3600))),
     play_api := (\<lambda>_ _ _. Reply 200 [] (Some \<lparr>sv_SubscriptionState = ''SUBSCRIPTION_STATE_ACTIVE'',
       sv_ExpiryTimes = [''1970-01-31T00:00:00Z'']\<rparr>))\<rparr>"

definition plus_request :: http_request where
  "plus_request = (peer_request ''9.9.9.9:80'')\<lparr>rq_Method := ''POST'', rq_entitlement := Some
     \<lparr>er_UserID = GenerateUserID (replicate 32 0), er_Pubkey = hexEncode (replicate 32 0),
      er_Signature = hexEncode (replicate 64 0), er_Timestamp = 1, er_PurchaseToken = ''tok'',
      er_SubscriptionHash = []\<rparr>\<rparr>"

lemma GenerateUserID_not_Nil: "GenerateUserID b \<noteq> []"
  using tokenHash_not_Nil by (metis GenerateUserID_def hexEncode_Nil_iff length_0_conv length_sha256 zero_neq_numeral)

lemma expiry_example: "parse_RFC3339 ''1970-01-31T00:00:00Z'' = Some (30 * 86400 * Second)"
  by (simp add: parse_RFC3339_def expect_def num2_def num12_def digits_value_def is_digit_def take_frac_def
      frac_nanos_def zone_offset_def days_in_def days_before_def leap_def Let_def upt_rec)

theorem entitlement_until_google_expiry_witness:
  "fst (fst (handlePostEntitlement env_play plus_request relay0)) = 200 \<and>
   fst (checkPremiumSubscription (env0\<lparr>now := Hour\<rparr>) (GenerateUserID (replicate 32 0))
     (snd (handlePostEntitlement env_play plus_request relay0))) = Inr True"
proof -
  have e: "now env_play = 0" "fault env_play c = False" "play_enabled env_play" "rsa_sign env_play z y = Some (replicate 256 0)"
      "oauth_api env_play w x = Reply 200 [] (Some (''at'', 3600))" "ed_verify env_play = (\<lambda>_ _ _. True)"
      "play_api env_play a p tk = Reply 200 [] (Some \<lparr>sv_SubscriptionState = ''SUBSCRIPTION_STATE_ACTIVE'',
       sv_ExpiryTimes = [''1970-01-31T00:00:00Z'']\<rparr>)" for c x a p tk w y z
    by (simp_all add: env_play_def env0_def)
  have verdict: "play_verdict env_play \<lparr>sv_SubscriptionState = ''SUBSCRIPTION_STATE_ACTIVE'',
       sv_ExpiryTimes = [''1970-01-31T00:00:00Z'']\<rparr> = Inr (30 * 86400 * Second)"
    by (simp add: play_verdict_def entitled_states_def expiry_example zero_time_def e Second_def)
  have res: "resolve_purchase env_play (the (rq_entitlement plus_request)) relay0 =
      (Inr (tokenHash ''tok'', 30 * 86400 * Second), relay0\<lparr>play_cache := \<lparr>tc_token = ''at'', tc_expiry = token_lifetime 3600\<rparr>\<rparr>)"
    by (simp add: resolve_purchase_def plus_request_def e on_play_def PlayVerifier_Verify_def googleTokenSource_get_def
        no_token_def relay0_def verdict assertion_def)
  have len: "hexEncode (replicate 32 (0::u8)) \<noteq> []" "hexEncode (replicate 64 (0::u8)) \<noteq> []"
    unfolding hexEncode_Nil_iff by simp_all
  have check: "verifyEntitlementIdentity env_play ip (the (rq_entitlement plus_request)) relay0 = (None, relay0)" for ip
    using len GenerateUserID_not_Nil
    by (simp add: verifyEntitlementIdentity_def plus_request_def e drift_def wrap64_def unix_def VerifySignature_def)
  obtain b s' where run: "handlePostEntitlement env_play plus_request relay0 = ((200, b), s')"
    using check [of "clientIP plus_request"] res
    by (simp add: handlePostEntitlement_def after_check_def plus_request_def grant_entitlement_def on_stores
        pg_StoreEntitlement_def e)
  from entitlement_until_google_expiry [OF e(3) run] e(2) obtain req expiry where req: "rq_entitlement plus_request = Some req"
    and x: "Some expiry \<in> parse_RFC3339 ` {''1970-01-31T00:00:00Z''}"
    and p: "\<forall>e'. (\<forall>c. \<not> fault e' c) \<longrightarrow> now env_play \<le> now e' \<longrightarrow> now e' \<noteq> expiry \<longrightarrow>
       fst (checkPremiumSubscription e' (er_UserID req) s') = Inr (now e' < expiry)"
    by (auto simp: e)
  have "er_UserID req = GenerateUserID (replicate 32 0)" using req by (auto simp: plus_request_def)
  moreover have "expiry = 30 * 86400 * Second" using x by (simp add: expiry_example)
  ultimately have "fst (checkPremiumSubscription (env0\<lparr>now := Hour\<rparr>) (GenerateUserID (replicate 32 0)) s') = Inr True"
    using p [rule_format, of "env0\<lparr>now := Hour\<rparr>"] by (simp add: e time_units)
  with run show ?thesis by simp
qed

section \<open>Attestations\<close>

lemma attest_accepted:
  assumes "handleIntegrityAttest e r s = ((200, b), s')"
  shows "\<exists>q n s1. rq_attest r = Some q \<and> GetIntegrityNonce e (ia_UserID q) (rdb s) = Inr n \<and> n \<noteq> [] \<and>
    attest_verdict e (ia_UserID q) (ia_IntegrityToken q) n s = (Inr (), s1) \<and>
    issue_attestation e (ia_UserID q) s1 = ((200, b), s')"
proof -
  obtain q where q: "rq_attest r = Some q" "rq_Method r = ''POST''" "ia_IntegrityToken q \<noteq> []"
    using assms by (auto simp: handleIntegrityAttest_def method_not_allowed_def http_Error_def split: if_splits option.splits)
  let ?msg = "''INTEGRITY_ATTEST:'' @ ia_UserID q @ '':'' @ tokenHash (ia_IntegrityToken q) @ '':'' @ FormatInt (ia_Timestamp q)"
  obtain a t where c: "verifyIntegrityIdentity e (clientIP r) (ia_UserID q) (ia_Pubkey q) (ia_Signature q) (ia_Timestamp q) ?msg s = (a, t)"
    by fastforce
  have "a = None"
    using assms q c refusals_400(2) [of e "clientIP r" "ia_UserID q" "ia_Pubkey q" "ia_Signature q" "ia_Timestamp q" ?msg s _ t]
    by (cases a) (auto simp: handleIntegrityAttest_def after_check_def)
  moreover from this c have "t = s"
    using integrity_check.passed [where e = e and s = s and t = t and
      q = "(clientIP r, ia_UserID q, ia_Pubkey q, ia_Signature q, ia_Timestamp q, ?msg)"] by simp
  ultimately show ?thesis
    using assms q c
    by (auto simp: handleIntegrityAttest_def after_check_def Let_def http_Error_def split: if_splits sum.splits prod.splits)
qed

lemma VerifyIntegrityToken_Inr:
  assumes "VerifyIntegrityToken e token nonce g = (Inr (), g')"
  shows "\<exists>access body parsed. integrity_api e access (integrity_package e) token = Reply 200 body (Some parsed) \<and>
    it_Error parsed = None \<and> it_RequestPackageName parsed = integrity_package e \<and>
    nonce_matches (it_Nonce parsed) nonce \<and> it_AppRecognitionVerdict parsed = ''PLAY_RECOGNIZED'' \<and>
    (\<exists>v \<in> set (it_DeviceRecognitionVerdict parsed). v \<in> set accepted_device_verdicts)"
proof -
  obtain access body parsed where "integrity_api e access (integrity_package e) token = Reply 200 body (Some parsed)"
      "integrity_verdict e nonce parsed = Inr ()"
    using assms by (auto simp: VerifyIntegrityToken_def split: if_splits prod.splits sum.splits http_reply.splits option.splits)
  then show ?thesis
    by (auto simp: integrity_verdict_def list_ex_iff split: if_splits option.splits)
qed

text \<open>
  C24. An attestation answers a challenge of this relay, once. On a relay with Play Integrity, and
  without an outage of a store during the request, an accepted attestation rests on Google's verdict on the token: the relay's package, the official
  app, a device of the accepted kinds, and as its nonce the digest of a challenge that this relay
  stored for that very user and that had not expired. The challenge is gone afterwards, so the
  same token attests nothing again; and the row stored for the user runs for seven days.
\<close>

theorem attestation_answers_challenge:
  assumes "integrity_enabled e" "handleIntegrityAttest e r s = ((200, b), s')" "\<And>c. \<not> fault e c"
  shows "\<exists>q n access body parsed. rq_attest r = Some q \<and>
    GetIntegrityNonce e (ia_UserID q) (rdb s) = Inr n \<and> n \<noteq> [] \<and>
    integrity_api e access (integrity_package e) (ia_IntegrityToken q) = Reply 200 body (Some parsed) \<and>
    it_RequestPackageName parsed = integrity_package e \<and>
    nonce_matches (it_Nonce parsed) (ComputeIntegrityNonce n (ia_UserID q)) \<and>
    it_AppRecognitionVerdict parsed = ''PLAY_RECOGNIZED'' \<and>
    list_ex (\<lambda>v. v \<in> set accepted_device_verdicts) (it_DeviceRecognitionVerdict parsed) \<and>
    fst (fst (handleIntegrityAttest e' r s')) \<noteq> 200 \<and>
    (\<forall>d. pg s' = Some d \<longrightarrow> (\<exists>att. client_attestations d (ia_UserID q) = Some att \<and>
       att_ExpiresAt att = time_Unix (unix (now e + 7 * 24 * Hour))))"
proof -
  obtain q n s1 where q: "rq_attest r = Some q" "GetIntegrityNonce e (ia_UserID q) (rdb s) = Inr n" "n \<noteq> []"
      "attest_verdict e (ia_UserID q) (ia_IntegrityToken q) n s = (Inr (), s1)"
      "issue_attestation e (ia_UserID q) s1 = ((200, b), s')"
    using attest_accepted [OF assms(2)] by blast
  from q(4) assms(1) obtain g g' where "VerifyIntegrityToken e (ia_IntegrityToken q) (ComputeIntegrityNonce n (ia_UserID q)) g = (Inr (), g')"
    by (auto simp: attest_verdict_def on_integrity_def split: prod.splits)
  then obtain access body parsed where v: "integrity_api e access (integrity_package e) (ia_IntegrityToken q) = Reply 200 body (Some parsed)"
      "it_RequestPackageName parsed = integrity_package e"
      "nonce_matches (it_Nonce parsed) (ComputeIntegrityNonce n (ia_UserID q))"
      "it_AppRecognitionVerdict parsed = ''PLAY_RECOGNIZED''"
      "list_ex (\<lambda>v. v \<in> set accepted_device_verdicts) (it_DeviceRecognitionVerdict parsed)"
    using VerifyIntegrityToken_Inr unfolding list_ex_iff by metis
  have "memoryBlocks (rdb s1) (''integrity_nonce:'' @ ia_UserID q) = None"
    using q(4) assms(1,3) by (auto simp: attest_verdict_def on_integrity_def on_stores DeleteIntegrityNonce_def split: prod.splits)
  moreover have "rdb s' = rdb s1"
    using q(5) by (auto simp: issue_attestation_def Let_def on_stores)
  ultimately have gone: "GetIntegrityNonce e' (ia_UserID q) (rdb s') \<noteq> Inr m \<or> m = []" for m
    by (simp add: GetIntegrityNonce_def)
  have "fst (fst (handleIntegrityAttest e' r s')) \<noteq> 200"
  proof
    assume "fst (fst (handleIntegrityAttest e' r s')) = 200"
    then obtain b' s'' where "handleIntegrityAttest e' r s' = ((200, b'), s'')" by (metis prod.collapse)
    from attest_accepted [OF this] q(1) gone show False by auto
  qed
  moreover have "\<forall>d. pg s' = Some d \<longrightarrow> (\<exists>att. client_attestations d (ia_UserID q) = Some att \<and>
       att_ExpiresAt att = time_Unix (unix (now e + 7 * 24 * Hour)))"
    using q(5) by (auto simp: issue_attestation_def Let_def on_stores StoreClientAttestation_def assms(3)
        kAttestationTTL_def split: if_splits)
  ultimately show ?thesis using q(1-3) v by blast
qed

definition env_attest :: "string \<Rightarrow> env" where
  "env_attest nonce = env0\<lparr>integrity_enabled := True, integrity_package := ''app'',
     oauth_api := (\<lambda>_ _. Reply 200 [] (Some (''at'', 3600))),
     integrity_api := (\<lambda>_ _ _. Reply 200 [] (Some \<lparr>it_RequestPackageName = ''app'', it_Nonce = nonce,
       it_AppRecognitionVerdict = ''PLAY_RECOGNIZED'', it_DeviceRecognitionVerdict = [''MEETS_DEVICE_INTEGRITY''],
       it_Error = None\<rparr>))\<rparr>"

definition attest_request :: http_request where
  "attest_request = (peer_request ''9.9.9.9:80'')\<lparr>rq_Method := ''POST'', rq_attest := Some
     \<lparr>ia_UserID = GenerateUserID (replicate 32 0), ia_Pubkey = hexEncode (replicate 32 0),
      ia_IntegrityToken = ''tok'', ia_Signature = hexEncode (replicate 64 0), ia_Timestamp = 1\<rparr>\<rparr>"

definition challenged_relay :: relay where
  "challenged_relay = snd (on_rdb (StoreIntegrityNonce env0 (GenerateUserID (replicate 32 0)) ''n'' kChallengeTTL) relay0)"

theorem attestation_answers_challenge_witness:
  "fst (fst (handleIntegrityAttest (env_attest (ComputeIntegrityNonce ''n'' (GenerateUserID (replicate 32 0))))
       attest_request challenged_relay)) = 200 \<and>
   fst (fst (handleIntegrityAttest (env_attest (ComputeIntegrityNonce ''n'' (GenerateUserID (replicate 32 0))))
       attest_request (snd (handleIntegrityAttest
         (env_attest (ComputeIntegrityNonce ''n'' (GenerateUserID (replicate 32 0)))) attest_request challenged_relay)))) \<noteq> 200"
proof -
  let ?u = "GenerateUserID (replicate 32 0)"
  let ?N = "ComputeIntegrityNonce ''n'' ?u"
  let ?e = "env_attest ?N"
  let ?s = challenged_relay
  let ?q = "\<lparr>ia_UserID = ?u, ia_Pubkey = hexEncode (replicate 32 0),
      ia_IntegrityToken = ''tok'', ia_Signature = hexEncode (replicate 64 0), ia_Timestamp = 1\<rparr>"
  let ?reply = "\<lparr>it_RequestPackageName = ''app'', it_Nonce = ?N,
       it_AppRecognitionVerdict = ''PLAY_RECOGNIZED'', it_DeviceRecognitionVerdict = [''MEETS_DEVICE_INTEGRITY''],
       it_Error = None\<rparr>"
  have e: "now ?e = 0" "fault ?e c = False" "integrity_enabled ?e" "rsa_sign ?e z y = Some (replicate 256 0)"
      "oauth_api ?e w x = Reply 200 [] (Some (''at'', 3600))" "ed_verify (env_attest N) = (\<lambda>_ _ _. True)" "now (env_attest N) = 0"
      "integrity_package ?e = ''app''" "integrity_api ?e a p tk = Reply 200 [] (Some ?reply)" for c x a p tk w y z N
    by (simp_all add: env_attest_def env0_def)
  have rq: "rq_Method attest_request = ''POST''" "rq_attest attest_request = Some ?q"
    by (simp_all add: attest_request_def)
  have verdict: "integrity_verdict ?e ?N ?reply = Inr ()"
    by (simp add: integrity_verdict_def e nonce_matches_def accepted_device_verdicts_def)
  have st: "GetIntegrityNonce ?e ?u (rdb ?s) = Inr ''n''" "integrity_cache ?s = no_token" "pg ?s \<noteq> None"
    by (simp_all add: challenged_relay_def on_stores StoreIntegrityNonce_def GetIntegrityNonce_def e relay0_def
        env0_def kChallengeTTL_def time_units)
  obtain s1 where v: "attest_verdict ?e ?u ''tok'' ''n'' ?s = (Inr (), s1)"
    by (simp add: attest_verdict_def e on_integrity_def VerifyIntegrityToken_def googleTokenSource_get_def st
        no_token_def verdict assertion_def on_stores DeleteIntegrityNonce_def)
  have check: "verifyIntegrityIdentity ?e ip ?u (hexEncode (replicate 32 0)) (hexEncode (replicate 64 0)) 1 msg ?s = (None, ?s)"
    for ip msg
    by (simp add: verifyIntegrityIdentity_def e drift_def wrap64_def unix_def VerifySignature_def GenerateUserID_def)
  obtain b s' where run: "handleIntegrityAttest ?e attest_request ?s = ((200, b), s')"
    by (simp add: handleIntegrityAttest_def rq check after_check_def st v issue_attestation_def Let_def)
  have "\<not> fault ?e c" for c by (simp add: e)
  from attestation_answers_challenge [OF e(3) run this, of ?e] run show ?thesis by auto
qed

end
