(* ===== verification/Relay_Effects.thy ===== *)
theory Relay_Effects
  imports Http_Google File_Facts
begin

text \<open>
  What any step of the running relay but the handshake can do, as the inductive relation
  \<open>served b L e\<close> of basic effects in the environment \<open>e\<close>; \<open>b\<close> says whether stored files may be touched, \<open>L\<close>
  which keys of the subscription cache may be written with no subscription behind them. Every endpoint, every
  frame, the deliveries, the wake-ups and the cleanup are shown to consist of such effects, and
  what all of them keep (the hub, the identities, the device tokens) follows by rule induction.
\<close>

section \<open>The effects\<close>

text \<open>
  The key of a cached subscription, which a locked queue of that name would overwrite. The set \<open>L\<close> holds
  the keys that a step may write without an entitlement behind them: by a NUKE frame that names the key as
  its recipient, or because a purchase is stored while the cache is out.
\<close>

definition cache_key :: "string \<Rightarrow> string" where
  "cache_key u = ''entitlement:'' @ u"

definition key_value_step :: "string set \<Rightarrow> PostgresClient option \<Rightarrow> RedisClient \<Rightarrow> RedisClient \<Rightarrow> bool" where
  "key_value_step L db r r' = (cache_from L db r r' \<and> memoryBans r' = memoryBans r)"

inductive served :: "bool \<Rightarrow> string set \<Rightarrow> env \<Rightarrow> relay \<Rightarrow> relay \<Rightarrow> bool" for b L e where
  served_refl: "served b L e s s"
| served_send: "served b L e s s' \<Longrightarrow> served b L e s (SendJSON q v s')"
| served_rdb: "served b L e s s' \<Longrightarrow> key_value_step L (pg s') (rdb s') r \<Longrightarrow> served b L e s (s'\<lparr>rdb := r\<rparr>)"
| served_fail: "served b L e s s' \<Longrightarrow> served b L e s (registerIPFailure e ip s')"
| served_pg: "served b L e s s' \<Longrightarrow> pg s' = Some d \<Longrightarrow> device_tokens d' = device_tokens d \<Longrightarrow>
    entitlements d' = entitlements d \<Longrightarrow> b \<or> no_new_urls d d' \<Longrightarrow> served b L e s (s'\<lparr>pg := Some d'\<rparr>)"
| served_grant: "served b L e s s' \<Longrightarrow> now e < expiry \<Longrightarrow> cache_key u \<in> L \<or> \<not> fault e (Rdb OpEntitlement u) \<Longrightarrow>
    pg s' \<noteq> None \<Longrightarrow> served b L e s (snd (grant_entitlement e u h expiry s'))"
| served_objects: "served b L e s s' \<Longrightarrow> b \<Longrightarrow> served b L e s (s'\<lparr>storage := st\<rparr>)"
| served_supply: "served b L e s s' \<Longrightarrow> drawn s' \<le> n \<Longrightarrow> served b L e s (s'\<lparr>drawn := n\<rparr>)"
| served_wakes: "served b L e s s' \<Longrightarrow> served b L e s (s'\<lparr>wakes := w\<rparr>)"
| served_pushed: "served b L e s s' \<Longrightarrow> served b L e s (s'\<lparr>pushed := w\<rparr>)"
| served_fcm: "served b L e s s' \<Longrightarrow> served b L e s (s'\<lparr>fcm_cache := g\<rparr>)"
| served_play: "served b L e s s' \<Longrightarrow> served b L e s (s'\<lparr>play_cache := g\<rparr>)"
| served_integrity: "served b L e s s' \<Longrightarrow> served b L e s (s'\<lparr>integrity_cache := g\<rparr>)"
| served_bucket: "served b L e s s' \<Longrightarrow>
    served b L e s (s'\<lparr>conns := (conns s')(q := (conns s' q)\<lparr>cl_tokens := x, cl_lastRefill := y\<rparr>)\<rparr>)"

lemma key_value_step_refl [simp]: "key_value_step L db r r"
  by (simp add: key_value_step_def)

lemma key_value_step_trans: "key_value_step L db r r' \<Longrightarrow> key_value_step L db r' r'' \<Longrightarrow> key_value_step L db r r''"
  unfolding key_value_step_def using cache_from_trans by metis

lemma key_value_step_ops [simp]:
  "key_value_step L db r (snd (StorePoWChallenge e c n r))"
  "key_value_step L db r (snd (GetPoWChallengeDifficulty e c r))"
  "key_value_step L db r (snd (IsNonceUnique e c r))"
  "key_value_step L db r (snd (ConsumeVoucher e c y r))"
  "key_value_step L db r (snd (AddMessageToQueue e u x env ct ttl r))"
  "key_value_step L db r (snd (FetchAndClearQueue e u r))"
  "key_value_step L db r (snd (SetPushToken e u tk r))"
  "key_value_step L db r (snd (DeletePushToken e u r))"
  "key_value_step L db r (snd (StoreIntegrityNonce e u tk ttl r))"
  "key_value_step L db r (snd (DeleteIntegrityNonce e u r))"
  "key_value_step L db r (snd (StoreFileToken e tk i u r))"
  "key_value_step L db r (snd (CheckIPRateLimit e ip k r))"
  by (auto simp: key_value_step_def cache_from_def StorePoWChallenge_def GetPoWChallengeDifficulty_def IsNonceUnique_def
      ConsumeVoucher_def AddMessageToQueue_def FetchAndClearQueue_def SetPushToken_def DeletePushToken_def
      StoreIntegrityNonce_def DeleteIntegrityNonce_def StoreFileToken_def CheckIPRateLimit_def Let_def
      split: option.splits if_splits)

declare served_refl [simp, intro]

lemma served_trans: "served b L e s' s'' \<Longrightarrow> served b L e s s' \<Longrightarrow> served b L e s s''"
  by (induction rule: served.induct) (auto intro: served.intros)

lemma served_mono: "served b L e s s' \<Longrightarrow> served True L e s s'"
  by (induction rule: served.induct) (auto intro: served.intros)

lemma served_pg':
  "served b L e s s' \<Longrightarrow> pg s' \<noteq> None \<Longrightarrow> device_tokens d' = device_tokens (the (pg s')) \<Longrightarrow>
    entitlements d' = entitlements (the (pg s')) \<Longrightarrow> b \<or> no_new_urls (the (pg s')) d' \<Longrightarrow> served b L e s (s'\<lparr>pg := Some d'\<rparr>)"
  by (auto intro: served_pg)

lemma served_go: "served b L e s s' \<Longrightarrow> served b L e s (go_sendWakePush a x c s')"
  unfolding go_sendWakePush_def by (rule served_wakes)

lemma served_tokens:
  assumes "served b L e s s'" shows "served b L e s (charge_tokens q n s')"
  using served_bucket [OF assms, of q "cl_lastRefill (conns s' q)" "cl_tokens (conns s' q) - of_int n"]
  by (simp add: charge_tokens_def)

lemmas served_intros = served_refl served_send served_rdb served_pg' served_objects served_supply
  served_wakes served_pushed served_fcm served_play served_integrity served_tokens served_go

lemma caused_served: "caused b L x p s s' \<Longrightarrow> served b L e s s'"
  by (induction rule: caused.induct) (auto simp: rows_from_def key_value_step_def queue_from_def intro: served_intros)

text \<open>Rules for an equation of the form \<open>step s = (answer, s')\<close>.\<close>

lemma served_rdbD: "on_rdb f s' = (a, t) \<Longrightarrow> (\<And>r. key_value_step L (pg s') r (snd (f r))) \<Longrightarrow> served b L e s s' \<Longrightarrow>
    served b L e s t \<and> pg t = pg s'"
  by (auto simp: on_stores intro: served_rdb)

lemma served_pgD:
  "on_pg f s' = (a, t) \<Longrightarrow> pg s' \<noteq> None \<Longrightarrow> (\<And>d. device_tokens (snd (f d)) = device_tokens d) \<Longrightarrow>
    (\<And>d. entitlements (snd (f d)) = entitlements d) \<Longrightarrow>
    (\<And>d. b \<or> no_new_urls d (snd (f d))) \<Longrightarrow> served b L e s s' \<Longrightarrow> served b L e s t \<and> pg t \<noteq> None"
  by (auto simp: on_stores intro!: served_pg')

lemma served_premium: "served b L e s s' \<Longrightarrow> served b L e s (snd (checkPremiumSubscription e u s'))"
  by (rule served_trans [OF caused_served [OF caused_premium]])

lemma served_registerIPFailure: "served b L e s s' \<Longrightarrow> served b L e s (registerIPFailure e ip s')"
  by (rule served_fail)

lemma tokens_kept [simp]:
  "device_tokens (snd (StoreMessage e mid a x c d' ct ttl d)) = device_tokens d"
  "device_tokens (snd (DeleteMessage e mid d)) = device_tokens d"
  "device_tokens (snd (pg_StoreEntitlement e x h t d)) = device_tokens d"
  "device_tokens (snd (StoreClientAttestation e x ct i t sg pk d)) = device_tokens d"
  "device_tokens (snd (GetOrCreateSocialBudget e x d)) = device_tokens d"
  "device_tokens (snd (WipeUserSocialData e x d)) = device_tokens d"
  "device_tokens (snd (DeleteInlineMessages e x d)) = device_tokens d"
  "device_tokens (snd (PruneExpiredMessages e d)) = device_tokens d"
  "device_tokens (snd (PruneExpiredStories e d)) = device_tokens d"
  "entitlements (snd (StoreMessage e mid a x c d' ct ttl d)) = entitlements d"
  "entitlements (snd (DeleteMessage e mid d)) = entitlements d"
  "entitlements (snd (StoreClientAttestation e x ct i t sg pk d)) = entitlements d"
  "entitlements (snd (GetOrCreateSocialBudget e x d)) = entitlements d"
  "entitlements (snd (WipeUserSocialData e x d)) = entitlements d"
  "entitlements (snd (DeleteInlineMessages e x d)) = entitlements d"
  "entitlements (snd (PruneExpiredMessages e d)) = entitlements d"
  "entitlements (snd (PruneExpiredStories e d)) = entitlements d"
  by (auto simp: StoreMessage_def StoreMessageSized_def DeleteMessage_def pg_StoreEntitlement_def
      StoreClientAttestation_def GetOrCreateSocialBudget_def WipeUserSocialData_def delete_stories_def
      DeleteInlineMessages_def PruneExpiredMessages_def PruneExpiredStories_def Let_def split: option.splits)

lemma urls_kept [simp]:
  "no_new_urls d (snd (StoreMessage e mid a x c None ct ttl d))"
  "no_new_urls d (snd (DeleteMessage e mid d))"
  "no_new_urls d (snd (pg_StoreEntitlement e x h t d))"
  "no_new_urls d (snd (StoreClientAttestation e x ct i t sg pk d))"
  "no_new_urls d (snd (GetOrCreateSocialBudget e x d))"
  "no_new_urls d (snd (WipeUserSocialData e x d))"
  by (auto simp: no_new_urls_def row_urls_def StoreMessage_def StoreMessageSized_def DeleteMessage_def pg_StoreEntitlement_def
      StoreClientAttestation_def GetOrCreateSocialBudget_def WipeUserSocialData_def delete_stories_def
      Let_def split: option.splits)


lemma served_checkI: "served b L e s s \<Longrightarrow> served b L e s (snd c) \<Longrightarrow> (\<And>s1. c = (None, s1) \<Longrightarrow> served b L e s1 (snd (body s1))) \<Longrightarrow>
    served b L e s (snd (after_check c body))"
  by (auto simp: after_check_def intro: served_trans split: prod.splits option.splits)

lemmas served_after_check = served_checkI [OF served_refl]


lemma served_penalised: "t = s \<or> t = registerIPFailure e ip s \<Longrightarrow> served b L e s t"
  by (auto intro: served_refl served_registerIPFailure)

lemmas served_checks [simp] =
  push_check.penalised [where q = "(ip, req, msg)" for ip req msg, simplified, THEN served_penalised]
  social_check.penalised [where q = "(ip, req, msg)" for ip req msg, simplified, THEN served_penalised]
  query_check.penalised [where q = "(ip, uid, pubkey, tss, sig, msg)" for ip uid pubkey tss sig msg,
    simplified, THEN served_penalised]
  status_check.penalised [where q = "(ip, uid, tss, sig, pubkey)" for ip uid tss sig pubkey,
    simplified, THEN served_penalised]
  entitlement_check.penalised [where q = "(ip, req)" for ip req, simplified, THEN served_penalised]
  integrity_check.penalised [where q = "(ip, uid, pubkey, sig, ts, msg)" for ip uid pubkey sig ts msg,
    simplified, THEN served_penalised]

lemmas answer_splits = sum.split option.split bool.split prod.split play_error.split

lemma served_GetChallenge: "served b L e s (snd (handleGetChallenge e r s))"
  by (auto simp: handleGetChallenge_def GenerateChallenge_def handler_simps split: answer_splits intro!: served_intros)

lemma served_premiumD: "checkPremiumSubscription e u s = (a, s') \<Longrightarrow> served b L e s s' \<and> pg s' = pg s"
  using served_premium [OF served_refl, of b L e s u] checkPremium_frame(1) [of e u s] by simp

lemma served_after_rdb: "served b L e (s\<lparr>rdb := r\<rparr>) t \<Longrightarrow> key_value_step L (pg s) (rdb s) r \<Longrightarrow> served b L e s t"
  by (rule served_trans [OF _ served_rdb [OF served_refl]])

lemma served_after_objects: "served True L e (s\<lparr>storage := st\<rparr>) t \<Longrightarrow> served True L e s t"
  by (rule served_trans [OF _ served_objects [OF served_refl]]) simp_all

lemma served_check_pow: "served b L e s (snd (check_pow e ip q s))"
  by (auto simp: check_pow_def on_stores key_value_step_trans [OF key_value_step_ops(2) key_value_step_ops(3)]
      split: answer_splits intro!: served_rdb served_fail)

lemma served_check_voucher: "served b L e s (snd (check_voucher e ip q s))"
  by (auto simp: check_voucher_def on_stores split: answer_splits intro!: served_rdb served_fail)

lemma served_spam: "served b L e s (snd (spam_protection e ip h q s))"
  by (simp add: spam_protection_def Let_def served_check_pow served_check_voucher)

lemma served_post_gates: "served b L e s (snd (post_gates e q s))"
  by (auto simp: post_gates_def Let_def split: answer_splits dest!: served_premiumD [where b = b])

lemma served_holdD: "holdTTLForRecipient e u s = (a, s') \<Longrightarrow> served b L e s s' \<and> (pg s' = None) = (pg s = None)"
  using served_premium [OF served_refl, of b L e s u] holdTTL_snd [of e u s] checkPremium_frame(1) [of e u s] by simp

lemma served_post_normal: "served b L e s (snd (post_normal e q s))"
  by (auto simp: post_normal_def Let_def on_stores split: answer_splits intro!: served_send served_go served_rdb
      intro: served_refl dest: served_holdD)

lemma served_post_high_ram: "pg s \<noteq> None \<Longrightarrow> served b L e s (snd (post_high_ram e q s))"
  by (auto simp: post_high_ram_def Let_def on_stores uuid_New_def split: answer_splits
      intro!: served_send served_go served_pg' served_supply dest: served_holdD)

lemma served_post_large: "served True L e s (snd (post_large e q s))"
proof (cases "pg s")
  case (Some d)
  let ?s2 = "s\<lparr>drawn := drawn s + 1, storage := snd (Upload e (uuid_supply s (drawn s)) (pr_Envelope q) (storage s))\<rparr>"
  obtain ttl s3 where h: "holdTTLForRecipient e (pr_RecipientID q) ?s2 = (ttl, s3)" by fastforce
  have s2: "served True L e s ?s2" by (intro served_objects served_supply served_refl) simp_all
  have "served True L e ?s2 s3" "pg s3 \<noteq> None" using served_holdD [OF h] Some by auto
  then show ?thesis
    using s2 h Some served_trans [of True L e ?s2 s3 s]
    by (auto simp: post_large_def Let_def on_stores uuid_New_def split: answer_splits
        intro!: served_send served_go served_pg' served_objects served_supply)
qed (simp add: post_large_def served_refl)

lemma served_post_route: "largePayloadThreshold \<le> int (length (pr_Envelope q)) \<longrightarrow> b \<Longrightarrow> served b L e s (snd (post_route e q s))"
  using served_post_large [of L e s q]
  by (auto simp: post_route_def served_post_high_ram served_post_normal served_mono)


lemma served_PostQueue:
  assumes "\<And>q. rq_post r = Some q \<Longrightarrow> largePayloadThreshold \<le> int (length (pr_Envelope q)) \<Longrightarrow> b"
  shows "served b L e s (snd (handlePostQueue e r s))"
  using assms
  by (auto simp: handlePostQueue_def intro!: served_after_check served_spam served_post_gates served_post_route
      intro: served_refl split: option.splits)

lemma served_QueueStatus: "served b L e s (snd (handleQueueStatus e r s))"
  by (auto simp: handleQueueStatus_def Let_def intro!: served_after_check split: answer_splits intro: served_refl)

lemma served_push: "served b L e s (snd (handlePushRegister e r s))" "served b L e s (snd (handlePushUnregister e r s))"
  by (auto simp: handlePushRegister_def handlePushUnregister_def Let_def on_stores intro!: served_after_check served_rdb
      split: answer_splits intro: served_refl)

lemma served_purchase: "resolve_purchase e req t = (a, t') \<Longrightarrow> served b L e t t' \<and> pg t' = pg t"
  by (auto simp: resolve_purchase_def on_play_def Let_def intro!: served_play
      intro: served_refl split: if_splits prod.splits sum.splits play_error.splits)

lemma purchase_future: "resolve_purchase e req t = (Inr (h, expiry), t') \<Longrightarrow> now e < expiry"
  by (auto simp: resolve_purchase_def on_play_def Let_def time_units dest!: PlayVerifier_Verify_Inr
      split: if_splits prod.splits sum.splits play_error.splits)

lemma served_Entitlement:
  assumes "\<And>req. rq_entitlement r = Some req \<Longrightarrow>
    cache_key (er_UserID req) \<in> L \<or> \<not> fault e (Rdb OpEntitlement (er_UserID req))"
  shows "served b L e s (snd (handlePostEntitlement e r s))"
proof -
  have kept: "verifyEntitlementIdentity e ip req s = (a, t) \<Longrightarrow> pg t = pg s" for ip req a t
    using entitlement_check.kept [where q = "(ip, req)" and e = e and s = s and f = pg, simplified] by (metis snd_conv)
  have body: "served b L e t (snd (case resolve_purchase e req t of
       (Inl resp, s2) \<Rightarrow> (resp, s2) | (Inr (h, expiry), s2) \<Rightarrow> grant_entitlement e (er_UserID req) h expiry s2))"
    if "rq_entitlement r = Some req" "pg t \<noteq> None" for req t
  proof (cases "resolve_purchase e req t")
    case (Pair a t')
    have t': "served b L e t t'" "pg t' \<noteq> None" using served_purchase [OF Pair, of b L] that(2) by auto
    show ?thesis
    proof (cases a)
      case (Inr hx)
      then show ?thesis
        using served_grant [OF t'(1), of "snd hx" "er_UserID req" "fst hx"] purchase_future [of e req t "fst hx" "snd hx" t']
          t'(2) Pair assms [OF that(1)] by (simp add: split_beta)
    qed (use t' Pair in simp)
  qed
  show ?thesis
    by (auto simp: handlePostEntitlement_def intro!: served_after_check body split: option.split
        intro: served_refl dest: kept)
qed


lemma served_attest_verdict: "attest_verdict e u tok n t = (a, t') \<Longrightarrow> served b L e t t' \<and> pg t' = pg t"
  by (auto simp: attest_verdict_def on_integrity_def on_stores Let_def intro!: served_integrity served_rdb
      intro: served_refl split: if_splits prod.splits)

lemma served_issue_attestation: "served b L e t (snd (issue_attestation e u t))"
  by (auto simp: issue_attestation_def Let_def on_stores intro!: served_pg' intro: served_refl)

lemma served_Integrity:
  "served b L e s (snd (handleIntegrityChallenge e r s))" "served b L e s (snd (handleIntegrityAttest e r s))"
proof -
  show "served b L e s (snd (handleIntegrityChallenge e r s))"
    by (auto simp: handleIntegrityChallenge_def handler_simps intro!: served_after_check served_rdb served_supply
        intro: served_refl split: answer_splits)
  have body: "served b L e t (snd (case attest_verdict e u tok n t of
       (Inl err, s2) \<Rightarrow> (http_Error (f err) 403, s2) | (Inr _, s2) \<Rightarrow> issue_attestation e u s2))" for u tok n t f
  proof (cases "attest_verdict e u tok n t")
    case (Pair a t')
    then show ?thesis
      using served_attest_verdict [OF Pair, of b L] served_trans [OF served_issue_attestation] by (cases a) auto
  qed
  show "served b L e s (snd (handleIntegrityAttest e r s))"
    by (auto simp: handleIntegrityAttest_def Let_def intro!: served_after_check body intro: served_refl
        split: option.split)
qed


lemma served_SocialBudget: "served b L e s (snd (handleGetSocialBudget e r s))"
  unfolding handleGetSocialBudget_def Let_def
  by (auto simp: on_stores intro!: served_after_check served_pg' dest!: served_premiumD [where b = b]
      split: answer_splits)

lemma served_delete_social: "served True L e s (delete_social_objects e us s)"
  by (induction us arbitrary: s) (auto simp: Let_def on_stores intro: served_after_objects)

lemma delete_social_pg [simp]: "pg (delete_social_objects e us s) = pg s"
  by (induction us arbitrary: s) (auto simp: Let_def on_stores)

lemma on_pg_refused: "pg t = Some d \<Longrightarrow> on_pg (WipeUserSocialData e u) t = (Inl x, t') \<Longrightarrow> served True L e t t'"
  by (auto simp: on_stores intro!: served_pg')

lemma served_SocialWipe: "served True L e s (snd (handleSocialWipe e r s))"
proof -
  have "pg t \<noteq> None \<Longrightarrow> on_pg (WipeUserSocialData e u) t = (a, t') \<Longrightarrow> served True L e t (delete_social_objects e us t')"
    for t a t' u us
    by (auto simp: on_stores intro!: served_trans [OF served_delete_social] served_pg')
  then show ?thesis
    unfolding handleSocialWipe_def Let_def
    by (auto intro!: served_after_check split: answer_splits intro: on_pg_refused)
qed

lemma served_endpoint:
  assumes "\<And>req. p = Entitlement \<Longrightarrow> rq_entitlement r = Some req \<Longrightarrow>
    cache_key (er_UserID req) \<in> L \<or> \<not> fault e (Rdb OpEntitlement (er_UserID req))"
  shows "served True L e s (snd (endpoint p e r s))"
  by (cases p)
    (auto simp: assms endpoint_def served_GetChallenge served_QueueStatus served_push served_Entitlement served_Integrity
      served_SocialBudget served_SocialWipe handleIntegrityQuery_def Let_def
      intro!: served_PostQueue split: option.split sum.split)

lemma served_rateLimit:
  "(\<And>t. served b L e t (snd (nxt t))) \<Longrightarrow> served b L e s (snd (rateLimitMiddleware e r nxt s))"
proof -
  assume nxt: "\<And>t. served b L e t (snd (nxt t))"
  let ?s1 = "s\<lparr>rdb := snd (CheckIPRateLimit e (clientIP r) 10 (rdb s))\<rparr>"
  have s1: "served b L e s ?s1" by (intro served_rdb served_refl key_value_step_ops)
  have "served b L e s (snd (nxt ?s1))" by (rule served_trans [OF nxt s1])
  with s1 show ?thesis by (auto simp: rateLimitMiddleware_def Let_def on_stores split: answer_splits)
qed

lemma served_serve_http:
  assumes "\<And>req. p = Entitlement \<Longrightarrow> rq_entitlement r = Some req \<Longrightarrow>
    cache_key (er_UserID req) \<in> L \<or> \<not> fault e (Rdb OpEntitlement (er_UserID req))"
  shows "served True L e s (snd (serve_http p e r s))"
  unfolding serve_http_def by (rule served_rateLimit [OF served_endpoint [OF assms]])


section \<open>The other steps\<close>

lemma served_fold_send: "served b L e s s' \<Longrightarrow> served b L e s (fold (SendJSON p) fs s')"
  by (induction fs arbitrary: s') (auto intro: served_send)

lemma fold_send_pg [simp]: "pg (fold (SendJSON p) fs s) = pg s"
  by (induction fs arbitrary: s) auto

lemma served_deliver: "served b L e s (deliverOfflineQueue e p s)"
  by (auto simp: deliverOfflineQueue_def Let_def on_stores intro!: served_fold_send served_pg' served_rdb
      split: answer_splits)

lemma served_turn:
  assumes "\<And>m. decoded = Some m \<Longrightarrow> m_Type m = ''NUKE_RECIPIENT'' \<Longrightarrow> m_RecipientID m \<in> L"
  shows "served True L e s (snd (readPump_turn e p decoded s))"
proof -
  have g: "served True L e s (snd (flood_guard e p s))"
    by (auto simp: flood_guard_def Let_def intro!: served_bucket split: prod.splits)
  have "served True L e t (handleWSMessage e p m t)" if "decoded = Some m" for t m
    by (rule caused_served [OF caused_handleWSMessage [OF refl]]) (use assms that in blast)
  then show ?thesis
    using g by (auto simp: readPump_turn_def Let_def intro!: served_send elim: served_trans [rotated] split: answer_splits)
qed

lemma served_wake: "served b L e s (run_wake e s)"
proof -
  have "served b L e t (sendWakePush e r sd ct t)" for t r sd ct
    by (auto simp: sendWakePush_def PushSender_Send_def on_stores Let_def intro!: served_rdb served_fcm served_pushed
        split: answer_splits fcm_answer.splits)
  from served_trans [OF this served_wakes [OF served_refl]] show ?thesis
    by (auto simp: run_wake_def split: list.splits)
qed

lemma served_delete_objects: "served True L e s (delete_objects e us s)"
  unfolding delete_objects_def
  by (induction us arbitrary: s) (auto simp: Let_def on_stores intro: served_after_objects)

lemma delete_objects_pg [simp]: "pg (delete_objects e us s) = pg s"
  unfolding delete_objects_def by (induction us arbitrary: s) (auto simp: Let_def on_stores)

lemma served_cleanup: "served True L e s (cleanup_tick e s)"
proof -
  have del: "served True L e s t \<Longrightarrow> served True L e s (delete_objects e us t)" for us t
    by (rule served_trans [OF served_delete_objects])
  show ?thesis
    by (auto simp: cleanup_tick_def on_stores Let_def intro!: del served_pg' split: sum.splits)
qed


section \<open>What every effect keeps\<close>

text \<open>
  The users that have a device token; and what a step keeps of the hub and of the two supplies.
\<close>

definition token_users :: "relay \<Rightarrow> string set" where
  "token_users s = (case pg s of None \<Rightarrow> {} | Some d \<Rightarrow> dom (device_tokens d))"

definition hub_keeps :: "string set \<Rightarrow> relay \<Rightarrow> relay \<Rightarrow> bool" where
  "hub_keeps U s s' =
     (next_conn s' = next_conn s \<and> (\<forall>q. cid s' q = cid s q) \<and>
      (\<forall>u p. clients s' u = Some p \<longrightarrow> clients s u = Some p) \<and>
      uuid_supply s' = uuid_supply s \<and> rand_supply s' = rand_supply s \<and> drawn s \<le> drawn s' \<and>
      (hub_ok s \<longrightarrow> hub_ok s') \<and> (pg s' = None) = (pg s = None) \<and> token_users s' \<subseteq> token_users s \<union> U)"

lemma hub_keeps_refl [simp]: "hub_keeps U s s"
  by (simp add: hub_keeps_def)

lemma hub_keeps_trans: "hub_keeps U s s' \<Longrightarrow> hub_keeps U s' s'' \<Longrightarrow> hub_keeps U s s''"
  unfolding hub_keeps_def by (auto dest: subsetD)

lemma hub_keeps_mono: "hub_keeps U s s' \<Longrightarrow> U \<subseteq> U' \<Longrightarrow> hub_keeps U' s s'"
  unfolding hub_keeps_def by blast

lemma SendJSON_clients: "clients (SendJSON q v s) u = Some p \<Longrightarrow> clients s u = Some p"
  by (auto simp: SendJSON_def Let_def hub_unregister_def conn_Close_def split: if_splits option.splits)

lemma token_users_kept [simp]:
  "token_users (SendJSON q v s) = token_users s" "token_users (s\<lparr>rdb := r\<rparr>) = token_users s"
  "token_users (s\<lparr>storage := st\<rparr>) = token_users s" "token_users (s\<lparr>drawn := n\<rparr>) = token_users s"
  "token_users (s\<lparr>wakes := w\<rparr>) = token_users s" "token_users (s\<lparr>pushed := w\<rparr>) = token_users s"
  "token_users (s\<lparr>fcm_cache := g\<rparr>) = token_users s" "token_users (s\<lparr>play_cache := g\<rparr>) = token_users s"
  "token_users (s\<lparr>integrity_cache := g\<rparr>) = token_users s" "token_users (s\<lparr>conns := c\<rparr>) = token_users s"
  "token_users (s\<lparr>pg := Some d\<rparr>) = dom (device_tokens d)"
  by (simp_all add: token_users_def)

lemma hub_ok_bucket:
  "hub_ok s \<Longrightarrow> hub_ok (s\<lparr>conns := (conns s)(q := (conns s q)\<lparr>cl_tokens := x, cl_lastRefill := y\<rparr>)\<rparr>)"
  by (erule hub_ok_cong) auto

lemma grant_keeps: "pg s \<noteq> None \<Longrightarrow> hub_keeps U s (snd (grant_entitlement e u h x s))"
  by (auto simp: grant_entitlement_def on_stores hub_keeps_def hub_ok_def token_users_def pg_StoreEntitlement_def
      split: answer_splits)

lemma served_keeps: "served b L e s s' \<Longrightarrow> hub_keeps U s s'"
proof (induction rule: served.induct)
  case (served_send s s' q v)
  then show ?case by (auto simp: hub_keeps_def dest: SendJSON_clients)
next
  case (served_pg s s' d d')
  then show ?case by (simp add: hub_keeps_def) (simp add: token_users_def)
next
  case (served_bucket s s' q x y)
  then show ?case by (auto simp: hub_keeps_def hub_ok_bucket)
next
  case (served_fail s s' ip)
  have "hub_keeps U s' (registerIPFailure e ip s')" by (simp add: hub_keeps_def hub_ok_def token_users_def)
  then show ?case using served_fail hub_keeps_trans by blast
next
  case (served_grant s s' x u h)
  then show ?case using hub_keeps_trans grant_keeps by blast
qed (auto simp: hub_keeps_def hub_ok_def)


lemma hub_keeps_exit: "hub_keeps U s (readPump_exit p s)"
proof -
  have "hub_ok s \<longrightarrow> hub_ok (readPump_exit p s)" by simp
  then show ?thesis
    by (auto simp: hub_keeps_def readPump_exit_def hub_unregister_def conn_Close_def token_users_def Let_def
        split: option.splits if_splits)
qed

lemma hub_keeps_write: "hub_keeps U s (writePump p s)"
proof -
  have "hub_ok s \<longrightarrow> hub_ok (writePump p s)" by simp
  then show ?thesis
    by (auto simp: hub_keeps_def writePump_def conn_Close_def token_users_def Let_def
        split: list.splits if_splits)
qed

end
