(* ===== verification/Relay_Files.thy ===== *)
theory Relay_Files
  imports Relay_Effects
begin

text \<open>
  The invariant of the stored files over every step of the relay: the HTTP endpoints, the
  deliveries, the wake-ups and a turn of \<open>readPump\<close> keep that each row's URL names an object.
\<close>

section \<open>Every step keeps the files\<close>

lemma files_ok_upd [simp]:
  "files_ok (s\<lparr>wakes := w\<rparr>) = files_ok s" "files_ok (s\<lparr>pushed := w\<rparr>) = files_ok s"
  "files_ok (s\<lparr>fcm_cache := g\<rparr>) = files_ok s" "files_ok (s\<lparr>play_cache := g\<rparr>) = files_ok s"
  "files_ok (s\<lparr>integrity_cache := g\<rparr>) = files_ok s" "files_ok (s\<lparr>conns := c\<rparr>) = files_ok s"
  by (simp_all add: files_ok_def live_url_def)

lemma files_ok_grant:
  assumes "files_ok s" "pg s = Some d" shows "files_ok (snd (grant_entitlement e u h x s))"
proof -
  have "files_ok (s\<lparr>pg := Some (snd (pg_StoreEntitlement e u h x d))\<rparr>)"
    by (rule files_ok_rows [OF assms urls_kept(3)])
  then have "files_ok (s\<lparr>pg := Some (snd (pg_StoreEntitlement e u h x d)), rdb := r\<rparr>)" for r
    by (simp add: files_ok_def live_url_def)
  then show ?thesis
    using files_ok_rows [OF assms urls_kept(3) [of d e u h x]] assms(2)
    by (auto simp: grant_entitlement_def on_stores split: sum.split)
qed

lemma served_files: "served b UNIV e s s' \<Longrightarrow> \<not> b \<Longrightarrow> files_ok s \<Longrightarrow> files_ok s'"
proof (induction rule: served.induct)
  case (served_fail s s' ip)
  then show ?case by (simp add: files_ok_def live_url_def)
next
  case (served_grant s s' x u h)
  then show ?case using files_ok_grant by blast
qed (simp_all add: files_ok_drawn files_ok_rows)

lemma served_uuids: "served b UNIV e s s' \<Longrightarrow> uuids_ok s' = uuids_ok s"
  using served_keeps [of b UNIV e s s' "{}"] by (simp add: hub_keeps_def uuids_ok_def)

lemma files_ok_post_large:
  assumes "files_ok s" "uuids_ok s"
  shows "files_ok (snd (post_large e q s))"
proof (cases "pg s")
  case (Some d)
  let ?k = "uuid_supply s (drawn s)"
  obtain r st where up: "Upload e ?k (pr_Envelope q) (storage s) = (r, st)" by fastforce
  let ?s2 = "s\<lparr>drawn := drawn s + 1, storage := st\<rparr>"
  note s2 = files_ok_upload [OF assms up]
  show ?thesis
  proof (cases r)
    case (Inl err)
    then show ?thesis using Some up s2(1) by (simp add: post_large_def handler_simps)
  next
    case (Inr url)
    obtain ttl s3 where h: "holdTTLForRecipient e (pr_RecipientID q) ?s2 = (ttl, s3)" by fastforce
    then have s3: "s3 = snd (checkPremiumSubscription e (pr_RecipientID q) ?s2)"
      using holdTTL_snd [of e "pr_RecipientID q" ?s2] by simp
    let ?s4 = "s3\<lparr>drawn := drawn s + 2\<rparr>"
    let ?m = "StoreMessage e (uuid_supply s (drawn s + 1)) (pr_RecipientID q) (post_sender q) None (Some url) ''file'' ttl d"
    let ?s5 = "?s4\<lparr>pg := Some (snd ?m)\<rparr>"
    have fr: "drawn s3 = drawn s + 1" "uuid_supply s3 = uuid_supply s" "storage s3 = st" "pg s3 = Some d"
      using Some by (simp_all add: s3)
    have s4: "files_ok ?s4" using files_ok_drawn [of s3 "drawn s + 2"] s2(1) fr by (simp add: s3)
    have l4: "live_url ?s4 url"
      using live_url_drawn [of s3 url "drawn s + 2"] conjunct1 [OF s2(2) [OF Inr]] fr by (simp add: s3)
    have s5: "files_ok ?s5" using files_ok_store [OF s4 _ l4] fr by (simp add: StoreMessage_def)
    show ?thesis
    proof (cases "fst ?m")
      case (Inr mid)
      then show ?thesis
        using Some up \<open>r = Inr url\<close> s5 h fr by (auto simp: post_large_def handler_simps split: option.split)
    next
      case (Inl err)
      then have same: "?s5 = ?s4" using fr row_urls_store(3) [of e _ _ _ _ url] by (simp add: StoreMessage_def)
      have "obj_url (client_kind (storage ?s4)) ?k \<notin> row_urls d"
        using files_okD(1) [OF assms(1) Some] fresh_unreferenced [OF assms(2), of _ "drawn s"] fr
          Upload_frame(1) [of e ?k "pr_Envelope q" "storage s"] up by auto
      then have "files_ok (?s4\<lparr>storage := snd (Storage_Delete e (uuid_supply ?s4 (drawn s)) (storage ?s4))\<rparr>)"
        by (intro files_ok_delete_unreferenced s4) (use assms Some fr in \<open>auto simp: uuids_ok_def\<close>)
      then show ?thesis using Some up \<open>r = Inr url\<close> Inl same h fr by (simp add: post_large_def handler_simps)
    qed
  qed
qed (simp add: post_large_def assms)


lemma files_after_check:
  assumes "files_ok s" "uuids_ok s" "served False UNIV e s (snd c)"
    and "\<And>s1. c = (None, s1) \<Longrightarrow> files_ok s1 \<Longrightarrow> uuids_ok s1 \<Longrightarrow> files_ok (snd (body s1))"
  shows "files_ok (snd (after_check c body))"
  using assms(4) served_files [OF assms(3) _ assms(1)] served_uuids [OF assms(3)] assms(2)
  by (cases c; cases "fst c") (auto simp: after_check_def)

lemma files_ok_PostQueue:
  assumes "files_ok s" "uuids_ok s"
  shows "files_ok (snd (handlePostQueue e r s))"
proof -
  have route: "files_ok t \<Longrightarrow> uuids_ok t \<Longrightarrow> files_ok (snd (post_route e q t))" for q t
    using served_files [of False e t] served_post_high_ram [of t False UNIV e q] served_post_normal [of False UNIV e t q]
    by (simp add: post_route_def files_ok_post_large)
  have gates: "files_ok t \<Longrightarrow> uuids_ok t \<Longrightarrow> files_ok (snd (after_check (post_gates e q t) (post_route e q)))" for q t
    by (rule files_after_check [OF _ _ served_post_gates]) (auto intro: route)
  show ?thesis
    using assms by (auto simp: handlePostQueue_def intro!: files_after_check [where e = e] served_spam gates split: option.split)
qed

text \<open>No story has an object, so a wipe deletes none.\<close>

lemma wipe_urls:
  "(\<forall>st \<in> set (stories d). st_BucketURL st = None) \<Longrightarrow> fst (WipeUserSocialData e u d) = Inr []"
  by (auto simp: WipeUserSocialData_def bucket_urls_def Let_def concat_eq_Nil_conv)

lemma files_ok_SocialWipe:
  assumes "files_ok s" "uuids_ok s"
  shows "files_ok (snd (handleSocialWipe e r s))"
proof -
  have "files_ok t \<Longrightarrow> pg t = Some d \<Longrightarrow> on_pg (WipeUserSocialData e u) t =
      (Inr [], t\<lparr>pg := Some (snd (WipeUserSocialData e u d))\<rparr>)" for t d u
    using wipe_urls [of d e u] by (simp add: on_stores files_ok_def)
  moreover have "files_ok t \<Longrightarrow> pg t = Some d \<Longrightarrow> files_ok (t\<lparr>pg := Some (snd (WipeUserSocialData e u d))\<rparr>)" for t d u
    by (rule files_ok_rows, assumption, assumption, simp)
  ultimately show ?thesis
    using assms unfolding handleSocialWipe_def Let_def
    by (auto intro!: files_after_check [where e = e] split: option.split)
qed

lemma files_ok_serve_http:
  assumes "files_ok s" "uuids_ok s"
  shows "files_ok (snd (serve_http p e r s))"
proof -
  have ep: "files_ok (snd (endpoint p e r t))" if t: "files_ok t" "uuids_ok t" for t
  proof (cases "p = QueuePost \<or> p = SocialWipe")
    case True
    with t show ?thesis by (auto simp: endpoint_def files_ok_PostQueue files_ok_SocialWipe)
  next
    case False
    have "served False UNIV e t (snd (endpoint p e r t))"
      using False
      by (cases p) (auto simp: endpoint_def served_GetChallenge served_QueueStatus served_push served_Entitlement
          served_Integrity served_SocialBudget handleIntegrityQuery_def Let_def split: option.split sum.split)
    then show ?thesis using t served_files by blast
  qed
  show ?thesis
    using assms
    by (auto simp: serve_http_def rateLimitMiddleware_def Let_def on_stores ep uuids_ok_def split: answer_splits)
qed

lemma files_ok_deliver: "files_ok s \<Longrightarrow> files_ok (deliverOfflineQueue e p s)"
  using served_files [OF served_deliver [of False UNIV e s p]] by simp

lemma files_ok_wake: "files_ok s \<Longrightarrow> files_ok (run_wake e s)"
  using served_files [OF served_wake [of False UNIV e s]] by simp

lemma files_ok_turn:
  assumes "files_ok s" "uuids_ok s"
  shows "files_ok (snd (readPump_turn e p decoded s))"
proof -
  have g: "files_ok (snd (flood_guard e p s)) \<and> uuids_ok (snd (flood_guard e p s))"
    using assms by (auto simp: flood_guard_def Let_def files_ok_def live_url_def uuids_ok_def split: prod.splits)
  then show ?thesis
    by (auto simp: readPump_turn_def Let_def files_ok_handleWSMessage split: prod.splits option.splits)
qed

lemma files_ok_hub_steps [simp]:
  "files_ok (hub_unregister p s) = files_ok s" "files_ok (conn_Close p s) = files_ok s"
  "files_ok (writePump p s) = files_ok s" "files_ok (hub_register p s) = files_ok s"
  "files_ok (snd (new_Client e u s)) = files_ok s"
  by (auto simp: files_ok_def live_url_def hub_unregister_def conn_Close_def writePump_def hub_register_def
      new_Client_def Let_def split: option.splits list.splits)

end
