(* ===== verification/Ws_Auth.thy ===== *)
theory Ws_Auth
  imports Http_Guard
begin

text \<open>
  The authentication handshake of a socket: \<open>ServeWS\<close> and the puzzle of puzzle.go. The function
  reads frames one after another while the rest of the relay runs, so it is cut at its reads: a
  phase says what the goroutine waits for, and one step takes what the read returned. The frames
  it writes straight to the socket are part of the answer of a step.
\<close>

section \<open>The policy of the human challenge\<close>

definition puzzleStrips :: int where "puzzleStrips = PuzzleStrips"
definition puzzleSolutionDeadline :: int where "puzzleSolutionDeadline = 90 * Second"
definition puzzleTTLSeconds :: int where "puzzleTTLSeconds = 90"

definition clientAdvertisesChallenge :: "string list \<Rightarrow> bool" where
  "clientAdvertisesChallenge clientCaps = list_ex (\<lambda>c. c = ''human_challenge'') clientCaps"

definition challengeUpgradeRequired :: "env \<Rightarrow> string list \<Rightarrow> bool" where
  "challengeUpgradeRequired e clientCaps =
     (if challengeMode (globals e) = Off then False else \<not> clientAdvertisesChallenge clientCaps)"

text \<open>Whether the puzzle is required, given what the peek at the counter of the day returns.\<close>

definition puzzle_rule :: "env \<Rightarrow> string list \<Rightarrow> int result \<Rightarrow> bool" where
  "puzzle_rule e clientCaps peek =
     (if \<not> clientAdvertisesChallenge clientCaps then False
      else if challengeMode (globals e) = Always then True
      else (case peek of
              Inl _ \<Rightarrow> True
            | Inr count \<Rightarrow> 1 \<le> count))"

declare puzzle_rule_def [simp]

definition puzzleRequiredForClient :: "env \<Rightarrow> string list \<Rightarrow> string \<Rightarrow> relay \<Rightarrow> bool" where
  "puzzleRequiredForClient e clientCaps ip s = puzzle_rule e clientCaps (IssuanceCountToday e ip (rdb s))"

definition registerChallengeStrikeForRejection :: "env \<Rightarrow> string \<Rightarrow> relay \<Rightarrow> relay" where
  "registerChallengeStrikeForRejection e ip s =
     (case on_rdb (RegisterChallengeStrike e ip) s of
        (Inl _, s1) \<Rightarrow> s1
      | (Inr strikes, s1) \<Rightarrow>
          if 3 \<le> strikes then snd (on_rdb (SetChallengeCooldown e ip (30 * Minute)) s1) else s1)"

section \<open>Capabilities and device tokens\<close>

definition capabilitiesForThisRelay :: "env \<Rightarrow> string list" where
  "capabilitiesForThisRelay e =
     [''group_fanout'', ''social_stories'', ''stories_ws''] @ (if testMode (globals e) then [''test_mode''] else [])"

definition mintDeviceToken :: "env \<Rightarrow> string \<Rightarrow> relay \<Rightarrow> (string \<times> int) result \<times> relay" where
  "mintDeviceToken e userID s =
     (case rand_Read 32 s of
        (None, s1) \<Rightarrow> (Inl ''crypto/rand: read failed'', s1)
      | (Some raw, s1) \<Rightarrow>
          let token = hexEncode raw in
          (case on_pg (MintDeviceToken e userID token) s1 of
             (Inl err, s2) \<Rightarrow> (Inl err, s2)
           | (Inr expiresAt, s2) \<Rightarrow> (Inr (token, unix expiresAt), s2)))"

section \<open>Phases\<close>

text \<open>
  What the goroutine waits for: the \<open>AUTH\<close> frame for a challenge, the \<open>AUTH_TOKEN_ISSUE\<close> frame
  (with the accepted \<open>AUTH\<close> frame), the solution of a puzzle, each with its read deadline; the
  turn to send \<open>AUTH_OK\<close> to a registered client, with the new token and its expiry; nothing any
  more, the pumps having been started or the socket closed.
\<close>

datatype ws_phase =
    AwaitAuth string int
  | AwaitIssue string WSMessage int
  | AwaitSolution string string string int
  | Registered nat string int
  | Admitted nat
  | Refused

text \<open>What a read returns: an error (the deadline too), text that is no frame, or a frame.\<close>

datatype ws_input = ReadFails | Malformed | Received WSMessage

type_synonym ws_answer = "ws_phase \<times> WSMessage list \<times> relay"

definition rejected :: "string \<Rightarrow> WSMessage" where
  "rejected reason = (frame ''AUTH_REJECTED'')\<lparr>m_Message := reason\<rparr>"

definition close_with :: "WSMessage \<Rightarrow> relay \<Rightarrow> ws_answer" where
  "close_with v s = (Refused, [v], s)"

text \<open>The identity behind an accepted key, whose hex text has been decoded by then.\<close>

definition authenticated_id :: "string \<Rightarrow> string" where
  "authenticated_id pubkey = GenerateUserID (case DecodeString pubkey of None \<Rightarrow> [] | Some b \<Rightarrow> b)"

section \<open>Admission\<close>

text \<open>
  \<open>hub.register <- client\<close> returns once \<open>Run\<close> has taken the client; \<open>AUTH_OK\<close> is sent after that,
  and the hub may already have other frames for it.
\<close>

definition ServeWS_register :: "env \<Rightarrow> string \<Rightarrow> string \<Rightarrow> int \<Rightarrow> relay \<Rightarrow> ws_answer" where
  "ServeWS_register e userID newToken newTokenExpiresAt s =
     (let (client, s1) = new_Client e userID s
      in (Registered client newToken newTokenExpiresAt, [], hub_register client s1))"

definition auth_ok :: "env \<Rightarrow> string \<Rightarrow> string \<Rightarrow> int \<Rightarrow> WSMessage" where
  "auth_ok e userID newToken newTokenExpiresAt =
     (frame ''AUTH_OK'')\<lparr>m_UserID := userID, m_DeviceToken := newToken,
        m_DeviceTokenExpiresAt := newTokenExpiresAt, m_Capabilities := capabilitiesForThisRelay e\<rparr>"

definition ServeWS_ok :: "env \<Rightarrow> nat \<Rightarrow> string \<Rightarrow> int \<Rightarrow> relay \<Rightarrow> ws_answer" where
  "ServeWS_ok e client newToken newTokenExpiresAt s =
     (Admitted client, [], SendJSON client (auth_ok e (cl_id (conns s client)) newToken newTokenExpiresAt) s)"

text \<open>The daily cap and the minting that end the issuance path.\<close>

definition issue_token :: "env \<Rightarrow> string \<Rightarrow> string \<Rightarrow> relay \<Rightarrow> ws_answer" where
  "issue_token e ip userID s =
     (case on_rdb (AllowIssuance e ip (issuanceDailyIPCap (globals e))) s of
        (Inl _, s1) \<Rightarrow> close_with (rejected ''issuance_unavailable'') s1
      | (Inr False, s1) \<Rightarrow> close_with (rejected ''issuance_rate_limited'') s1
      | (Inr True, s1) \<Rightarrow>
          (case mintDeviceToken e userID s1 of
             (Inl _, s2) \<Rightarrow> close_with (ws_error ''Token store error'') s2
           | (Inr (tok, expires), s2) \<Rightarrow> ServeWS_register e userID tok expires s2))"

section \<open>The puzzle\<close>

text \<open>
  \<open>runPuzzleChallenge\<close> up to its read; a failed write of the puzzle ends it as a failed read does.
\<close>

definition puzzle_frame :: "string \<Rightarrow> string \<Rightarrow> WSMessage" where
  "puzzle_frame challengeID seed =
     (frame ''AUTH_CHALLENGE_REQUIRED'')\<lparr>m_ChallengeID := challengeID, m_PuzzleSeed := seed,
        m_PuzzleKind := ''strip_slide'', m_PuzzleStrips := puzzleStrips, m_TTL := puzzleTTLSeconds\<rparr>"

definition runPuzzleChallenge :: "env \<Rightarrow> string \<Rightarrow> relay \<Rightarrow> ws_answer" where
  "runPuzzleChallenge e userID s =
     (case randomHex 16 s of
        (Inl _, s1) \<Rightarrow> close_with (rejected ''challenge_failed'') s1
      | (Inr seed, s1) \<Rightarrow>
          (case randomHex 16 s1 of
             (Inl _, s2) \<Rightarrow> close_with (rejected ''challenge_failed'') s2
           | (Inr challengeID, s2) \<Rightarrow>
               (AwaitSolution userID seed challengeID (now e + puzzleSolutionDeadline),
                [puzzle_frame challengeID seed], s2)))"

text \<open>Its second half, on the solution.\<close>

definition puzzle_solution :: "env \<Rightarrow> string \<Rightarrow> string \<Rightarrow> string \<Rightarrow> string \<Rightarrow> ws_input \<Rightarrow> relay \<Rightarrow> ws_answer" where
  "puzzle_solution e ip userID seed challengeID input s =
     (case input of
        Received sol \<Rightarrow>
          if m_Type sol \<noteq> ''AUTH_CHALLENGE_SOLUTION'' then close_with (rejected ''challenge_failed'') s
          else if m_ChallengeID sol \<noteq> challengeID then
            close_with (rejected ''challenge_failed'') (registerChallengeStrikeForRejection e ip s)
          else if m_PuzzleAnswer sol \<noteq> Some (PuzzleAnswerFromSeed seed puzzleStrips) then
            close_with (rejected ''challenge_failed'') (registerChallengeStrikeForRejection e ip s)
          else issue_token e ip userID s
      | _ \<Rightarrow> close_with (rejected ''challenge_failed'') s)"

section \<open>The steps of ServeWS\<close>

text \<open>Up to the first read; \<open>upgraded\<close> says whether the upgrade of the request succeeds.\<close>

definition ServeWS_open :: "env \<Rightarrow> http_request \<Rightarrow> bool \<Rightarrow> relay \<Rightarrow> ws_answer" where
  "ServeWS_open e r upgraded s =
     (case CheckIPBan e (clientIP r) (rdb s) of
        Inr False \<Rightarrow>
          if \<not> upgraded then (Refused, [], s)
          else
            let (answer, s1) = rand_Read 32 s;
                challengeHex = hexEncode (case answer of None \<Rightarrow> replicate 32 0 | Some b \<Rightarrow> b)
            in (AwaitAuth challengeHex (now e + 5 * Second), [(frame ''CHALLENGE'')\<lparr>m_Challenge := challengeHex\<rparr>], s1)
      | _ \<Rightarrow> (Refused, if upgraded then [ws_error ''Banned''] else [], s))"

text \<open>A presented device token: checked, touched and, near its expiry, rotated.\<close>

definition present_token :: "env \<Rightarrow> string \<Rightarrow> string \<Rightarrow> PostgresClient \<Rightarrow> relay \<Rightarrow> ws_answer" where
  "present_token e userID deviceToken db s =
     (case VerifyDeviceToken e userID deviceToken db of
        Inl _ \<Rightarrow> close_with (ws_error ''Token store error'') s
      | Inr (valid, nearExpiry) \<Rightarrow>
          if \<not> valid then close_with (rejected ''token_invalid'') s
          else
            let s1 = s\<lparr>pg := Some (TouchDeviceToken e userID db)\<rparr> in
            if nearExpiry then
              (case mintDeviceToken e userID s1 of
                 (Inl _, s2) \<Rightarrow> ServeWS_register e userID [] 0 s2
               | (Inr (tok, expires), s2) \<Rightarrow> ServeWS_register e userID tok expires s2)
            else ServeWS_register e userID [] 0 s1)"

definition signed_payload :: "string \<Rightarrow> WSMessage \<Rightarrow> string" where
  "signed_payload challengeHex authMsg =
     (if m_DeviceToken authMsg \<noteq> [] then challengeHex @ m_DeviceToken authMsg else challengeHex)"

definition ServeWS_auth :: "env \<Rightarrow> string \<Rightarrow> string \<Rightarrow> ws_input \<Rightarrow> relay \<Rightarrow> ws_answer" where
  "ServeWS_auth e ip challengeHex input s =
     (case input of
        ReadFails \<Rightarrow> (Refused, [], s)
      | Malformed \<Rightarrow> close_with (ws_error ''Expected AUTH frame'') s
      | Received authMsg \<Rightarrow>
          if m_Type authMsg \<noteq> ''AUTH'' then close_with (ws_error ''Expected AUTH frame'') s
          else if VerifySignature (ed_verify e) (m_Pubkey authMsg) (m_Signature authMsg)
                    (bytes_of (signed_payload challengeHex authMsg)) \<noteq> Inr True
          then close_with (ws_error ''Authentication failed'') (registerIPFailure e ip s)
          else
            let userID = authenticated_id (m_Pubkey authMsg) in
            (case pg s of
               None \<Rightarrow> close_with (ws_error ''Token store unavailable'') s
             | Some db \<Rightarrow>
                 if m_DeviceToken authMsg \<noteq> [] then present_token e userID (m_DeviceToken authMsg) db s
                 else (AwaitIssue challengeHex authMsg (now e + 30 * Second),
                       [(frame ''TOKEN_CHALLENGE'')\<lparr>m_Challenge := challengeHex,
                          m_Difficulty := int (issuanceDifficulty (globals e))\<rparr>], s)))"

definition ServeWS_issue :: "env \<Rightarrow> string \<Rightarrow> string \<Rightarrow> WSMessage \<Rightarrow> ws_input \<Rightarrow> relay \<Rightarrow> ws_answer" where
  "ServeWS_issue e ip challengeHex authMsg input s =
     (let userID = authenticated_id (m_Pubkey authMsg) in
      case input of
        ReadFails \<Rightarrow> (Refused, [], s)
      | Malformed \<Rightarrow> close_with (ws_error ''Expected AUTH_TOKEN_ISSUE frame'') s
      | Received issueMsg \<Rightarrow>
          if m_Type issueMsg \<noteq> ''AUTH_TOKEN_ISSUE'' then
            close_with (ws_error ''Expected AUTH_TOKEN_ISSUE frame'') s
          else if \<not> VerifyPoW challengeHex (m_PowNonce issueMsg) (m_Pubkey authMsg) (issuanceDifficulty (globals e))
          then close_with (rejected ''pow_invalid'') s
          else if challengeUpgradeRequired e (m_ClientCaps authMsg)
          then close_with (rejected ''challenge_upgrade_required'') s
          else if puzzleRequiredForClient e (m_ClientCaps authMsg) ip s then
            (case on_rdb (CheckChallengeCooldown e ip) s of
               (Inl _, s1) \<Rightarrow> close_with (rejected ''challenge_unavailable'') s1
             | (Inr True, s1) \<Rightarrow> close_with (rejected ''challenge_cooldown'') s1
             | (Inr False, s1) \<Rightarrow> runPuzzleChallenge e userID s1)
          else issue_token e ip userID s)"

text \<open>One step of the goroutine, with what its read returned; a read after its deadline fails.\<close>

definition read_by :: "env \<Rightarrow> int \<Rightarrow> ws_input \<Rightarrow> ws_input" where
  "read_by e deadline input = (if deadline < now e then ReadFails else input)"

definition ServeWS_step :: "env \<Rightarrow> string \<Rightarrow> ws_phase \<Rightarrow> ws_input \<Rightarrow> relay \<Rightarrow> ws_answer" where
  "ServeWS_step e ip phase input s =
     (case phase of
        AwaitAuth challengeHex deadline \<Rightarrow> ServeWS_auth e ip challengeHex (read_by e deadline input) s
      | AwaitIssue challengeHex authMsg deadline \<Rightarrow>
          ServeWS_issue e ip challengeHex authMsg (read_by e deadline input) s
      | AwaitSolution userID seed challengeID deadline \<Rightarrow>
          puzzle_solution e ip userID seed challengeID (read_by e deadline input) s
      | Registered client tok expires \<Rightarrow> ServeWS_ok e client tok expires s
      | Admitted _ \<Rightarrow> (phase, [], s)
      | Refused \<Rightarrow> (phase, [], s))"

end
