(* ===== verification/Relay_System.thy ===== *)
theory Relay_System
  imports Relay_Files Ws_Auth
begin

text \<open>
  The relay as a whole: every goroutine's steps interleaved in any order, with any outages, any
  clock and any requests. The handshakes in flight are part of the state, and a trace records the
  frames that each of them sent and received.
\<close>

section \<open>The system\<close>

datatype wire_event = Sent nat WSMessage | Seen nat WSMessage

record system =
  relay_of :: relay
  handshakes :: "nat \<Rightarrow> (string \<times> ws_phase) option"
  trace :: "wire_event list"

definition seen_input :: "nat \<Rightarrow> ws_input \<Rightarrow> wire_event list" where
  "seen_input h input = (case input of Received m \<Rightarrow> [Seen h m] | _ \<Rightarrow> [])"

text \<open>The client that a handshake has created; its pumps and its delivery run from then on.\<close>

definition holder :: "ws_phase \<Rightarrow> nat option" where
  "holder ph = (case ph of Registered p _ _ \<Rightarrow> Some p | Admitted p \<Rightarrow> Some p | _ \<Rightarrow> None)"

definition client_of :: "system \<Rightarrow> nat \<Rightarrow> bool" where
  "client_of c p = (\<exists>h ip ph. handshakes c h = Some (ip, ph) \<and> holder ph = Some p)"

text \<open>The system after a step of handshake \<open>h\<close> with the given input and answer.\<close>

definition stepped ::
  "system \<Rightarrow> nat \<Rightarrow> string \<Rightarrow> ws_input \<Rightarrow> ws_answer \<Rightarrow> system" where
  "stepped c h ip input a =
     c\<lparr>relay_of := snd (snd a), handshakes := (handshakes c)(h \<mapsto> (ip, fst a)),
       trace := trace c @ seen_input h input @ map (Sent h) (fst (snd a))\<rparr>"

text \<open>
  One step, in a world with the signature verifier \<open>V\<close> and the globals \<open>G\<close>. A step is a whole turn of one
  goroutine, in any order: one frame handled, one request served, one tick of a worker. The program may switch
  goroutines within a turn too; what that breaks is shown at the end of File_Properties, which splits a
  broadcast between two recipients.
\<close>

inductive step :: "(bytes \<Rightarrow> bytes \<Rightarrow> bytes \<Rightarrow> bool) \<Rightarrow> relay_globals \<Rightarrow> system \<Rightarrow> system \<Rightarrow> bool"
  for V G where
  Connect: "ed_verify e = V \<Longrightarrow> globals e = G \<Longrightarrow> handshakes c h = None \<Longrightarrow>
    step V G c (stepped c h (clientIP r) ReadFails (ServeWS_open e r upgraded (relay_of c)))"
| Handshake: "ed_verify e = V \<Longrightarrow> globals e = G \<Longrightarrow> handshakes c h = Some (ip, ph) \<Longrightarrow>
    step V G c (stepped c h ip input (ServeWS_step e ip ph input (relay_of c)))"
| Frame: "ed_verify e = V \<Longrightarrow> globals e = G \<Longrightarrow> client_of c p \<Longrightarrow>
    step V G c (c\<lparr>relay_of := snd (readPump_turn e p decoded (relay_of c))\<rparr>)"
| Leave: "client_of c p \<Longrightarrow> step V G c (c\<lparr>relay_of := readPump_exit p (relay_of c)\<rparr>)"
| Write: "client_of c p \<Longrightarrow> step V G c (c\<lparr>relay_of := writePump p (relay_of c)\<rparr>)"
| Deliver: "ed_verify e = V \<Longrightarrow> globals e = G \<Longrightarrow> client_of c p \<Longrightarrow>
    step V G c (c\<lparr>relay_of := deliverOfflineQueue e p (relay_of c)\<rparr>)"
| Wake: "ed_verify e = V \<Longrightarrow> globals e = G \<Longrightarrow> step V G c (c\<lparr>relay_of := run_wake e (relay_of c)\<rparr>)"
| Cleanup: "ed_verify e = V \<Longrightarrow> globals e = G \<Longrightarrow> step V G c (c\<lparr>relay_of := cleanup_tick e (relay_of c)\<rparr>)"
| Http: "ed_verify e = V \<Longrightarrow> globals e = G \<Longrightarrow>
    step V G c (c\<lparr>relay_of := snd (serve_http p e r (relay_of c))\<rparr>)"

text \<open>A start: nobody online, no handshake, nothing sent, no device token minted, the files in order.\<close>

definition started :: "system \<Rightarrow> bool" where
  "started c =
     (clients (relay_of c) = Map.empty \<and> hub_ok (relay_of c) \<and> files_ok (relay_of c) \<and>
      uuids_ok (relay_of c) \<and> token_users (relay_of c) = {} \<and> handshakes c = Map.empty \<and> trace c = [])"

inductive reachable :: "(bytes \<Rightarrow> bytes \<Rightarrow> bytes \<Rightarrow> bool) \<Rightarrow> relay_globals \<Rightarrow> system \<Rightarrow> bool" for V G where
  start: "started c \<Longrightarrow> reachable V G c"
| next_step: "reachable V G c \<Longrightarrow> step V G c c' \<Longrightarrow> reachable V G c'"

section \<open>What a handshake step does to the relay\<close>

text \<open>
  Up to the registration a handshake is quiet: the hub stays as it is, no file is touched, and a
  device token appears for the users in \<open>U\<close> at most.
\<close>

definition quiet :: "string set \<Rightarrow> relay \<Rightarrow> relay \<Rightarrow> bool" where
  "quiet U s s' = (hub_keeps U s s' \<and> (files_ok s \<longrightarrow> files_ok s'))"

lemma quiet_refl [simp]: "quiet U s s"
  by (simp add: quiet_def)

lemma quiet_trans: "quiet U s s' \<Longrightarrow> quiet U s' s'' \<Longrightarrow> quiet U s s''"
  unfolding quiet_def using hub_keeps_trans by blast

lemma quiet_mono: "quiet U s s' \<Longrightarrow> U \<subseteq> U' \<Longrightarrow> quiet U' s s'"
  unfolding quiet_def using hub_keeps_mono by blast

lemma quiet_pg: "quiet U s s' \<Longrightarrow> pg s = None \<longleftrightarrow> pg s' = None"
  by (auto simp: quiet_def hub_keeps_def)

lemma served_quiet: "served False UNIV e s s' \<Longrightarrow> quiet U s s'"
  by (simp add: quiet_def served_keeps served_files)

lemma registerIPFailure_quiet [simp]: "quiet U s (registerIPFailure e ip s)"
  by (rule served_quiet [OF served_registerIPFailure [OF served_refl]])

lemma rdb_quiet [simp]: "quiet U s (s\<lparr>rdb := r\<rparr>)"
  by (auto simp: quiet_def hub_keeps_def hub_ok_def files_ok_def live_url_def)

lemma send_quiet [simp]: "quiet U s (SendJSON q v s)"
  by (rule served_quiet [OF served_send [OF served_refl]])

lemma strike_quiet [simp]: "quiet U s (registerChallengeStrikeForRejection e ip s)"
  by (auto simp: registerChallengeStrikeForRejection_def on_stores Let_def split: sum.splits)

lemma drawn_quiet [simp]: "quiet U s (s\<lparr>drawn := Suc (drawn s)\<rparr>)"
  by (rule served_quiet [OF served_supply [OF served_refl]]) simp

lemma rand_quiet: "rand_Read n s = (a, s') \<Longrightarrow> quiet U s s'" "randomHex n s = (b, s') \<Longrightarrow> quiet U s s'"
  by (auto simp: rand_Read_def randomHex_def split: prod.splits option.splits)

lemma touch_quiet: "pg s = Some db \<Longrightarrow> quiet U s (s\<lparr>pg := Some (TouchDeviceToken e u db)\<rparr>)"
  by (auto simp: quiet_def hub_keeps_def hub_ok_def token_users_def TouchDeviceToken_def files_ok_def live_url_def
      row_urls_def split: option.splits)

lemma mint_quiet:
  assumes "mintDeviceToken e u s = (a, s')" "pg s \<noteq> None"
  shows "quiet {u} s s'" "a = Inl err \<Longrightarrow> quiet {} s s'"
proof -
  have same: "rand_supply s (drawn s) 32 = Some raw \<Longrightarrow> fst (MintDeviceToken e u (hexEncode raw) d) = Inl x \<Longrightarrow>
      snd (MintDeviceToken e u (hexEncode raw) d) = d" for raw d x
    by (auto simp: MintDeviceToken_def Let_def split: if_splits)
  have other: "v \<noteq> u \<Longrightarrow> device_tokens (snd (MintDeviceToken e u t d)) v = device_tokens d v"
    "row_urls (snd (MintDeviceToken e u t d)) = row_urls d" "stories (snd (MintDeviceToken e u t d)) = stories d" for t d v
    by (simp_all add: MintDeviceToken_def Let_def row_urls_def)
  have "files_ok s \<longrightarrow> files_ok s'"
    using assms files_ok_drawn [of s "Suc (drawn s)"] other(2,3)
    by (auto simp: mintDeviceToken_def rand_Read_def on_stores Let_def files_ok_def live_url_def
        split: option.splits sum.splits prod.splits)
  then show "quiet {u} s s'" "a = Inl err \<Longrightarrow> quiet {} s s'"
    using assms same other(1)
    by (auto simp: mintDeviceToken_def rand_Read_def on_stores quiet_def hub_keeps_def hub_ok_def token_users_def Let_def
        dom_def split: option.splits sum.splits prod.splits)
qed

text \<open>Registration: after quiet steps that mint for that user at most.\<close>

definition registers :: "string \<Rightarrow> relay \<Rightarrow> ws_phase \<Rightarrow> relay \<Rightarrow> bool" where
  "registers u s ph' s' =
     (\<exists>e s1 tok x out. quiet {u} s s1 \<and> ServeWS_register e u tok x s1 = (ph', out, s'))"

lemma registers_now: "quiet {u} s s1 \<Longrightarrow> ServeWS_register e u tok x s1 = (ph', out, s') \<Longrightarrow> registers u s ph' s'"
  unfolding registers_def by blast

lemma issue_outcome:
  assumes "issue_token e ip u s = (ph', out, s')" "pg s \<noteq> None"
  shows "ph' = Refused \<and> quiet {} s s' \<or> registers u s ph' s'"
proof -
  let ?s1 = "s\<lparr>rdb := snd (AllowIssuance e ip (issuanceDailyIPCap (globals e)) (rdb s))\<rparr>"
  obtain a s2 where m: "mintDeviceToken e u ?s1 = (a, s2)" by fastforce
  have k: "quiet {u} s s2" "a = Inl x \<Longrightarrow> quiet {} s s2" for x
    using mint_quiet [OF m] assms(2) quiet_trans [OF rdb_quiet] by auto
  show ?thesis
    using assms(1) m k
    by (auto simp: issue_token_def on_stores close_with_def intro: registers_now split: sum.splits bool.splits prod.splits)
qed

section \<open>The outcomes of a handshake step\<close>

text \<open>What the frames of a handshake prove: possession of a key, spent work, a solved puzzle.\<close>

definition key_proof :: "(bytes \<Rightarrow> bytes \<Rightarrow> bytes \<Rightarrow> bool) \<Rightarrow> string \<Rightarrow> WSMessage \<Rightarrow> bool" where
  "key_proof V ch m =
     (m_Type m = ''AUTH'' \<and>
      VerifySignature V (m_Pubkey m) (m_Signature m) (bytes_of (signed_payload ch m)) = Inr True)"

definition spend_proof :: "relay_globals \<Rightarrow> string \<Rightarrow> WSMessage \<Rightarrow> WSMessage \<Rightarrow> bool" where
  "spend_proof G ch m i =
     (m_Type i = ''AUTH_TOKEN_ISSUE'' \<and> VerifyPoW ch (m_PowNonce i) (m_Pubkey m) (issuanceDifficulty G) \<and>
      (challengeMode G = Off \<or> clientAdvertisesChallenge (m_ClientCaps m)))"

definition solves :: "string \<Rightarrow> string \<Rightarrow> WSMessage \<Rightarrow> bool" where
  "solves challengeID seed sol =
     (m_Type sol = ''AUTH_CHALLENGE_SOLUTION'' \<and> m_ChallengeID sol = challengeID \<and>
      m_PuzzleAnswer sol = Some (PuzzleAnswerFromSeed seed PuzzleStrips))"

lemma read_by_Received: "read_by e dl input = Received m \<Longrightarrow> input = Received m"
  by (simp add: read_by_def split: if_splits)

lemma auth_outcome:
  assumes "ServeWS_auth e ip ch input s = (ph', out, s')"
  shows "ph' = Refused \<and> quiet {} s s' \<or>
    (\<exists>m. input = Received m \<and> key_proof (ed_verify e) ch m \<and> pg s \<noteq> None \<and>
       ((\<exists>dl. ph' = AwaitIssue ch m dl \<and> s' = s) \<or>
        registers (authenticated_id (m_Pubkey m)) s ph' s' \<and> authenticated_id (m_Pubkey m) \<in> token_users s))"
proof (cases input)
  case (Received m)
  let ?u = "authenticated_id (m_Pubkey m)"
  show ?thesis
  proof (cases "key_proof (ed_verify e) ch m \<and> pg s \<noteq> None \<and> m_DeviceToken m \<noteq> []")
    case True
    then obtain db where db: "pg s = Some db" by blast
    have run: "present_token e ?u (m_DeviceToken m) db s = (ph', out, s')"
      using assms Received True db by (simp add: ServeWS_auth_def key_proof_def)
    have known: "VerifyDeviceToken e ?u t db = Inr (True, b) \<Longrightarrow> ?u \<in> token_users s" for t b
      using db by (auto simp: VerifyDeviceToken_def token_users_def split: if_splits option.splits)
    let ?s1 = "s\<lparr>pg := Some (TouchDeviceToken e ?u db)\<rparr>"
    have q1: "quiet {?u} s ?s1" by (rule touch_quiet [OF db])
    obtain a s2 where m: "mintDeviceToken e ?u ?s1 = (a, s2)" by fastforce
    have "quiet {?u} s s2" using mint_quiet(1) [OF m] quiet_trans [OF q1] by simp
    then have "ph' = Refused \<and> s' = s \<or> registers ?u s ph' s' \<and> ?u \<in> token_users s"
      using run m q1 known [of "m_DeviceToken m"]
      by (auto simp: present_token_def close_with_def Let_def intro: registers_now
          split: sum.splits if_splits prod.splits)
    with True Received show ?thesis by auto
  next
    case False
    with assms Received show ?thesis
      by (auto simp: ServeWS_auth_def close_with_def key_proof_def Let_def split: if_splits option.splits)
  qed
qed (use assms in \<open>auto simp: ServeWS_auth_def close_with_def\<close>)


lemma puzzle_outcome:
  assumes "runPuzzleChallenge e u s = (ph', out, s')"
  shows "quiet {} s s' \<and> (ph' = Refused \<or>
    (\<exists>seed challengeID dl. ph' = AwaitSolution u seed challengeID dl \<and> out = [puzzle_frame challengeID seed]))"
proof -
  obtain a s1 where a: "randomHex 16 s = (a, s1)" by fastforce
  obtain b s2 where b: "randomHex 16 s1 = (b, s2)" by fastforce
  have "quiet {} s s1" "quiet {} s s2"
    using rand_quiet(2) [OF a] rand_quiet(2) [OF b] quiet_trans by blast+
  with assms a b show ?thesis
    by (auto simp: runPuzzleChallenge_def close_with_def split: sum.splits)
qed

lemma issuance_outcome:
  assumes "ServeWS_issue e ip ch m input s = (ph', out, s')" "pg s \<noteq> None" "u = authenticated_id (m_Pubkey m)"
  shows "ph' = Refused \<and> quiet {} s s' \<or>
    (\<exists>i. input = Received i \<and> spend_proof (globals e) ch m i \<and>
       ((\<exists>seed challengeID dl. ph' = AwaitSolution u seed challengeID dl \<and> out = [puzzle_frame challengeID seed] \<and>
           quiet {} s s') \<or>
        challengeMode (globals e) \<noteq> Always \<and> registers u s ph' s'))"
proof (cases input)
  case (Received i)
  let ?s1 = "s\<lparr>rdb := snd (CheckChallengeCooldown e ip (rdb s))\<rparr>"
  show ?thesis
  proof (cases "spend_proof (globals e) ch m i")
    case True
    then have "\<not> challengeUpgradeRequired e (m_ClientCaps m)"
      by (auto simp: spend_proof_def challengeUpgradeRequired_def)
    with True have run: "(if puzzleRequiredForClient e (m_ClientCaps m) ip s
       then (case on_rdb (CheckChallengeCooldown e ip) s of
               (Inl _, s1) \<Rightarrow> close_with (rejected ''challenge_unavailable'') s1
             | (Inr True, s1) \<Rightarrow> close_with (rejected ''challenge_cooldown'') s1
             | (Inr False, s1) \<Rightarrow> runPuzzleChallenge e u s1)
       else issue_token e ip u s) = (ph', out, s')"
      using assms(1) Received unfolding assms(3) by (simp add: ServeWS_issue_def spend_proof_def Let_def)
    show ?thesis
    proof (cases "puzzleRequiredForClient e (m_ClientCaps m) ip s")
      case req: True
      have "ph' = Refused \<and> quiet {} s s' \<or> runPuzzleChallenge e u ?s1 = (ph', out, s')"
        using run req by (auto simp: on_stores close_with_def split: sum.splits bool.splits)
      then show ?thesis
        using puzzle_outcome [of e u ?s1 ph' out s'] quiet_trans [OF rdb_quiet [of "{}" s]] True Received by blast
    next
      case False
      then have "challengeMode (globals e) = Always \<Longrightarrow> \<not> clientAdvertisesChallenge (m_ClientCaps m)"
        by (auto simp: puzzleRequiredForClient_def)
      with True have "challengeMode (globals e) \<noteq> Always" by (auto simp: spend_proof_def)
      with run False issue_outcome [of e ip u s ph' out s'] assms(2) True Received show ?thesis by auto
    qed
  next
    case False
    with assms(1) Received show ?thesis
      by (auto simp: ServeWS_issue_def spend_proof_def challengeUpgradeRequired_def close_with_def Let_def
          split: if_splits)
  qed
qed (use assms in \<open>auto simp: ServeWS_issue_def close_with_def Let_def\<close>)

lemma solution_outcome:
  assumes "puzzle_solution e ip u seed challengeID input s = (ph', out, s')" "pg s \<noteq> None"
  shows "ph' = Refused \<and> quiet {} s s' \<or>
    (\<exists>sol. input = Received sol \<and> solves challengeID seed sol \<and> registers u s ph' s')"
proof (cases input)
  case (Received sol)
  then show ?thesis
    using assms issue_outcome [of e ip u s ph' out s']
    by (auto simp: puzzle_solution_def solves_def close_with_def puzzleStrips_def split: if_splits)
qed (use assms in \<open>auto simp: puzzle_solution_def close_with_def\<close>)

lemma open_outcome:
  assumes "ServeWS_open e r upgraded s = (ph, out, s')"
  shows "quiet {} s s' \<and> (ph = Refused \<or>
    (\<exists>ch dl. ph = AwaitAuth ch dl \<and> out = [(frame ''CHALLENGE'')\<lparr>m_Challenge := ch\<rparr>]))"
proof -
  obtain a s1 where a: "rand_Read 32 s = (a, s1)" by fastforce
  have "quiet {} s s1" using rand_quiet(1) [OF a] .
  with assms a show ?thesis
    by (auto simp: ServeWS_open_def Let_def split: sum.splits bool.splits if_splits)
qed


section \<open>The invariant\<close>

definition keyed :: "(bytes \<Rightarrow> bytes \<Rightarrow> bytes \<Rightarrow> bool) \<Rightarrow> wire_event list \<Rightarrow> nat \<Rightarrow> string \<Rightarrow> WSMessage \<Rightarrow> bool" where
  "keyed V tr h ch m =
     (Sent h ((frame ''CHALLENGE'')\<lparr>m_Challenge := ch\<rparr>) \<in> set tr \<and> Seen h m \<in> set tr \<and> key_proof V ch m)"

definition spent :: "(bytes \<Rightarrow> bytes \<Rightarrow> bytes \<Rightarrow> bool) \<Rightarrow> relay_globals \<Rightarrow> wire_event list \<Rightarrow> nat \<Rightarrow> string \<Rightarrow> bool" where
  "spent V G tr h u =
     (\<exists>ch m i. keyed V tr h ch m \<and> u = authenticated_id (m_Pubkey m) \<and> Seen h i \<in> set tr \<and> spend_proof G ch m i)"

definition paid :: "(bytes \<Rightarrow> bytes \<Rightarrow> bytes \<Rightarrow> bool) \<Rightarrow> relay_globals \<Rightarrow> wire_event list \<Rightarrow> nat \<Rightarrow> string \<Rightarrow> bool" where
  "paid V G tr h u =
     (spent V G tr h u \<and>
      (challengeMode G = Always \<longrightarrow>
        (\<exists>challengeID seed sol. Sent h (puzzle_frame challengeID seed) \<in> set tr \<and> Seen h sol \<in> set tr \<and>
           solves challengeID seed sol)))"

lemma proofs_mono:
  assumes "set tr \<subseteq> set tr'"
  shows "keyed V tr h ch m \<Longrightarrow> keyed V tr' h ch m" "spent V G tr h u \<Longrightarrow> spent V G tr' h u"
    "paid V G tr h u \<Longrightarrow> paid V G tr' h u"
proof -
  show k: "keyed V tr h ch m \<Longrightarrow> keyed V tr' h ch m" for ch m using assms by (auto simp: keyed_def)
  show s: "spent V G tr h u \<Longrightarrow> spent V G tr' h u" using assms k unfolding spent_def by blast
  show "paid V G tr h u \<Longrightarrow> paid V G tr' h u" using assms s unfolding paid_def by blast
qed

text \<open>What has been proved when a handshake is in a phase, and what holds of its client afterwards.\<close>

definition held ::
  "(bytes \<Rightarrow> bytes \<Rightarrow> bytes \<Rightarrow> bool) \<Rightarrow> relay_globals \<Rightarrow> wire_event list \<Rightarrow> relay \<Rightarrow> nat \<Rightarrow> nat \<Rightarrow> bool" where
  "held V G tr s h p =
     (p < next_conn s \<and> (\<exists>ch m. keyed V tr h ch m \<and> cid s p = authenticated_id (m_Pubkey m)) \<and>
      (\<exists>h'. paid V G tr h' (cid s p)))"

fun phase_inv ::
  "(bytes \<Rightarrow> bytes \<Rightarrow> bytes \<Rightarrow> bool) \<Rightarrow> relay_globals \<Rightarrow> wire_event list \<Rightarrow> relay \<Rightarrow> nat \<Rightarrow> ws_phase \<Rightarrow> bool" where
  "phase_inv V G tr s h (AwaitAuth ch dl) = (Sent h ((frame ''CHALLENGE'')\<lparr>m_Challenge := ch\<rparr>) \<in> set tr)"
| "phase_inv V G tr s h (AwaitIssue ch m dl) = (keyed V tr h ch m \<and> pg s \<noteq> None)"
| "phase_inv V G tr s h (AwaitSolution u seed challengeID dl) =
     (spent V G tr h u \<and> Sent h (puzzle_frame challengeID seed) \<in> set tr \<and> pg s \<noteq> None)"
| "phase_inv V G tr s h (Registered p tok x) = held V G tr s h p"
| "phase_inv V G tr s h (Admitted p) = held V G tr s h p"
| "phase_inv V G tr s h Refused = True"

lemma held_keeps:
  assumes "held V G tr s h p" "set tr \<subseteq> set tr'" "next_conn s \<le> next_conn s'" "cid s' p = cid s p"
  shows "held V G tr' s' h p"
  using assms(1,3,4) proofs_mono [OF assms(2)] unfolding held_def by (metis order_less_le_trans)

lemma phase_inv_keeps:
  assumes "phase_inv V G tr s h ph" "set tr \<subseteq> set tr'" "hub_keeps U s s'"
  shows "phase_inv V G tr' s' h ph"
proof -
  have s: "next_conn s' = next_conn s" "cid s' q = cid s q" "pg s = None \<longleftrightarrow> pg s' = None" for q
    using assms(3) by (auto simp: hub_keeps_def)
  show ?thesis
    using assms(1,2) s proofs_mono [OF assms(2)] held_keeps [OF _ assms(2), of V G s h _ s']
    by (cases ph) auto
qed

definition relay_inv :: "(bytes \<Rightarrow> bytes \<Rightarrow> bytes \<Rightarrow> bool) \<Rightarrow> relay_globals \<Rightarrow> system \<Rightarrow> bool" where
  "relay_inv V G c =
     (hub_ok (relay_of c) \<and> files_ok (relay_of c) \<and> uuids_ok (relay_of c) \<and>
      (\<forall>u \<in> token_users (relay_of c). \<exists>h. paid V G (trace c) h u) \<and>
      (\<forall>h ip ph. handshakes c h = Some (ip, ph) \<longrightarrow> phase_inv V G (trace c) (relay_of c) h ph) \<and>
      (\<forall>u p. clients (relay_of c) u = Some p \<longrightarrow> client_of c p))"

lemma client_of_upd [simp]: "client_of (c\<lparr>relay_of := s', trace := tr'\<rparr>) p = client_of c p"
  by (simp add: client_of_def)

lemma inv_world:
  assumes "relay_inv V G c" "hub_keeps U (relay_of c) s'" "files_ok s'" "set (trace c) \<subseteq> set tr'"
    and "\<And>u. u \<in> U \<Longrightarrow> \<exists>h. paid V G tr' h u"
  shows "relay_inv V G (c\<lparr>relay_of := s', trace := tr'\<rparr>)"
proof -
  have k: "hub_ok s'" "uuids_ok s'" "token_users s' \<subseteq> token_users (relay_of c) \<union> U"
      "clients s' u = Some p \<Longrightarrow> clients (relay_of c) u = Some p" for u p
    using assms(1,2) by (auto simp: hub_keeps_def relay_inv_def uuids_ok_def)
  have "phase_inv V G (trace c) (relay_of c) h ph \<Longrightarrow> phase_inv V G tr' s' h ph" for h ph
    by (rule phase_inv_keeps [OF _ assms(4,2)])
  moreover have "\<exists>h. paid V G tr' h u" if "u \<in> token_users s'" for u
    using that k(3) assms(1,5) proofs_mono(3) [OF assms(4)] unfolding relay_inv_def by blast
  ultimately show ?thesis
    using assms(1,3) k unfolding relay_inv_def by simp blast
qed

text \<open>A quiet handshake step that keeps the client of its handshake.\<close>

lemma inv_quiet_step:
  assumes "relay_inv V G c" "quiet {} (relay_of c) s'" "set (trace c) \<subseteq> set tr'" "phase_inv V G tr' s' h ph'"
    and "\<And>ip ph q. handshakes c h = Some (ip, ph) \<Longrightarrow> holder ph = Some q \<Longrightarrow> holder ph' = Some q"
  shows "relay_inv V G (c\<lparr>relay_of := s', handshakes := (handshakes c)(h \<mapsto> (ip', ph')), trace := tr'\<rparr>)"
proof -
  have f: "files_ok s'" "hub_keeps {} (relay_of c) s'" using assms(1,2) by (auto simp: quiet_def relay_inv_def)
  have "relay_inv V G (c\<lparr>relay_of := s', trace := tr'\<rparr>)" by (rule inv_world [OF assms(1) f(2,1) assms(3)]) simp
  moreover have "client_of (c\<lparr>relay_of := s', handshakes := (handshakes c)(h \<mapsto> (ip', ph')), trace := tr'\<rparr>) q"
    if q: "client_of c q" for q
  proof -
    obtain k ip ph where "handshakes c k = Some (ip, ph)" "holder ph = Some q" using q by (auto simp: client_of_def)
    with assms(5) show ?thesis unfolding client_of_def by (intro exI [of _ k]) auto
  qed
  ultimately show ?thesis
    using assms(4) by (auto simp: relay_inv_def)
qed


text \<open>A registration: what was proved for the user holds of the new client.\<close>

lemma inv_register_step:
  assumes "relay_inv V G c" "registers u (relay_of c) ph' s'" "set (trace c) \<subseteq> set tr'"
    and "keyed V tr' h ch m" "u = authenticated_id (m_Pubkey m)" "paid V G tr' h0 u"
    and "\<And>ip ph. handshakes c h = Some (ip, ph) \<Longrightarrow> holder ph = None"
  shows "relay_inv V G (c\<lparr>relay_of := s', handshakes := (handshakes c)(h \<mapsto> (ip', ph')), trace := tr'\<rparr>)"
proof -
  obtain e s1 tok x where s1: "quiet {u} (relay_of c) s1" and
      reg: "ph' = Registered (next_conn s1) tok x" "s' = hub_register (next_conn s1) (snd (new_Client e u s1))"
    using assms(2) by (auto simp: registers_def ServeWS_register_def new_Client_def)
  have f: "files_ok s1" "hub_keeps {u} (relay_of c) s1" using assms(1) s1 by (auto simp: quiet_def relay_inv_def)
  have "\<exists>h. paid V G tr' h v" if "v \<in> {u}" for v using that assms(6) by blast
  then have i1: "relay_inv V G (c\<lparr>relay_of := s1, trace := tr'\<rparr>)" by (rule inv_world [OF assms(1) f(2,1) assms(3)])
  have new: "next_conn s' = Suc (next_conn s1)" "cid s' (next_conn s1) = u" "pg s' = pg s1"
      "q \<noteq> next_conn s1 \<Longrightarrow> cid s' q = cid s1 q" "clients s' = (clients s1)(u \<mapsto> next_conn s1)"
      "token_users s' = token_users s1" "uuids_ok s' = uuids_ok s1" "files_ok s' = files_ok s1" for q
    using reg(2) by (auto simp: hub_register_def new_Client_def token_users_def uuids_ok_def files_ok_def live_url_def)
  have hub: "hub_ok s'" using hub_ok_admit [of s1 e u] i1 reg(2) by (simp add: relay_inv_def new_Client_def)
  have keep: "phase_inv V G tr' s1 k ph \<Longrightarrow> phase_inv V G tr' s' k ph" for k ph
    using new by (cases ph) (auto simp: held_def split: if_splits)
  have "held V G tr' s' h (next_conn s1)" using assms(4-6) new by (auto simp: held_def)
  then have mine: "phase_inv V G tr' s' h ph'" by (simp add: reg)
  have "client_of (c\<lparr>relay_of := s', handshakes := (handshakes c)(h \<mapsto> (ip', ph')), trace := tr'\<rparr>) q"
    if q: "client_of c q \<or> q = next_conn s1" for q
  proof (cases "q = next_conn s1")
    case True
    then show ?thesis unfolding client_of_def by (intro exI [of _ h]) (simp add: reg holder_def)
  next
    case False
    then obtain k ip ph where "handshakes c k = Some (ip, ph)" "holder ph = Some q" using q by (auto simp: client_of_def)
    with assms(7) show ?thesis unfolding client_of_def by (intro exI [of _ k]) fastforce
  qed
  with i1 hub keep mine new show ?thesis by (auto simp: relay_inv_def)
qed


abbreviation stepped_trace :: "system \<Rightarrow> nat \<Rightarrow> ws_input \<Rightarrow> WSMessage list \<Rightarrow> wire_event list" where
  "stepped_trace c h input out \<equiv> trace c @ seen_input h input @ map (Sent h) out"

lemma stepped_quiet:
  assumes "relay_inv V G c" "handshakes c h = Some (ip, ph)" "quiet {} (relay_of c) s'"
    and "phase_inv V G (stepped_trace c h input out) s' h ph'"
    and "\<And>q. holder ph = Some q \<Longrightarrow> holder ph' = Some q"
  shows "relay_inv V G (stepped c h ip input (ph', out, s'))"
  unfolding stepped_def fst_conv snd_conv
  by (rule inv_quiet_step [OF assms(1,3)]) (use assms in auto)

lemma stepped_registers:
  assumes "relay_inv V G c" "handshakes c h = Some (ip, ph)" "holder ph = None" "registers u (relay_of c) ph' s'"
    and "keyed V (stepped_trace c h input out) h ch m" "u = authenticated_id (m_Pubkey m)"
    and "paid V G (stepped_trace c h input out) h0 u"
  shows "relay_inv V G (stepped c h ip input (ph', out, s'))"
  unfolding stepped_def fst_conv snd_conv
  by (rule inv_register_step [OF assms(1,4) _ assms(5-7)]) (use assms in auto)

lemma stepped_trace_mono: "set (trace c) \<subseteq> set (stepped_trace c h input out)"
  and stepped_seen: "input = Received m \<Longrightarrow> Seen h m \<in> set (stepped_trace c h input out)"
  by (auto simp: seen_input_def)

lemma inv_auth:
  assumes "relay_inv V G c" "ed_verify e = V" "handshakes c h = Some (ip, AwaitAuth ch dl)"
    and "ServeWS_auth e ip ch (read_by e dl input) (relay_of c) = (ph', out, s')"
  shows "relay_inv V G (stepped c h ip input (ph', out, s'))"
proof -
  have no: "holder (AwaitAuth ch dl) = None" by (simp add: holder_def)
  have ph: "phase_inv V G (trace c) (relay_of c) h (AwaitAuth ch dl)" using assms(1,3) unfolding relay_inv_def by blast
  have k: "keyed V (stepped_trace c h input out) h ch m" if "input = Received m" "key_proof (ed_verify e) ch m" for m
    using that ph assms(2) stepped_seen by (auto simp: keyed_def)
  from auth_outcome [OF assms(4)] show ?thesis
  proof (elim disjE exE conjE)
    fix m assume m: "read_by e dl input = Received m" "key_proof (ed_verify e) ch m" "pg (relay_of c) \<noteq> None"
    note k = k [OF read_by_Received [OF m(1)] m(2)]
    { fix dl' assume "ph' = AwaitIssue ch m dl'" "s' = relay_of c"
      with k m(3) no show ?thesis by (intro stepped_quiet [OF assms(1,3)]) simp_all }
    { assume r: "registers (authenticated_id (m_Pubkey m)) (relay_of c) ph' s'"
        and "authenticated_id (m_Pubkey m) \<in> token_users (relay_of c)"
      then obtain h0 where "paid V G (stepped_trace c h input out) h0 (authenticated_id (m_Pubkey m))"
        using assms(1) proofs_mono(3) [OF stepped_trace_mono] unfolding relay_inv_def by blast
      then show ?thesis by (rule stepped_registers [OF assms(1,3) no r k refl]) }
  qed (intro stepped_quiet [OF assms(1,3)], simp_all add: no)
qed

lemma inv_issue:
  assumes "relay_inv V G c" "globals e = G" "handshakes c h = Some (ip, AwaitIssue ch m dl)"
    and "ServeWS_issue e ip ch m (read_by e dl input) (relay_of c) = (ph', out, s')"
  shows "relay_inv V G (stepped c h ip input (ph', out, s'))"
proof -
  let ?u = "authenticated_id (m_Pubkey m)"
  have no: "holder (AwaitIssue ch m dl) = None" by (simp add: holder_def)
  have "phase_inv V G (trace c) (relay_of c) h (AwaitIssue ch m dl)" using assms(1,3) unfolding relay_inv_def by blast
  then have k: "keyed V (stepped_trace c h input out) h ch m" and pg: "pg (relay_of c) \<noteq> None"
    using proofs_mono(1) [OF stepped_trace_mono] by auto
  have s: "spent V G (stepped_trace c h input out) h ?u" if "input = Received i" "spend_proof (globals e) ch m i" for i
    unfolding spent_def using that k assms(2) stepped_seen by blast
  from issuance_outcome [OF assms(4) pg refl] show ?thesis
  proof (elim disjE exE conjE)
    fix i assume i: "read_by e dl input = Received i" "spend_proof (globals e) ch m i"
    note s = s [OF read_by_Received [OF i(1)] i(2)]
    { fix seed challengeID dl'
      assume "ph' = AwaitSolution ?u seed challengeID dl'" "out = [puzzle_frame challengeID seed]"
        and q: "quiet {} (relay_of c) s'"
      with s pg quiet_pg [OF q] no show ?thesis by (intro stepped_quiet [OF assms(1,3)]) simp_all }
    { assume r: "registers ?u (relay_of c) ph' s'" and "challengeMode (globals e) \<noteq> Always"
      then have "paid V G (stepped_trace c h input out) h ?u" using s assms(2) by (simp add: paid_def)
      then show ?thesis by (rule stepped_registers [OF assms(1,3) no r k refl]) }
  qed (intro stepped_quiet [OF assms(1,3)], simp_all add: no)
qed

lemma inv_solution:
  assumes "relay_inv V G c" "handshakes c h = Some (ip, AwaitSolution u seed challengeID dl)"
    and "puzzle_solution e ip u seed challengeID (read_by e dl input) (relay_of c) = (ph', out, s')"
  shows "relay_inv V G (stepped c h ip input (ph', out, s'))"
proof -
  have no: "holder (AwaitSolution u seed challengeID dl) = None" by (simp add: holder_def)
  have "phase_inv V G (trace c) (relay_of c) h (AwaitSolution u seed challengeID dl)"
    using assms(1,2) unfolding relay_inv_def by blast
  then have sp: "spent V G (stepped_trace c h input out) h u"
    and pz: "Sent h (puzzle_frame challengeID seed) \<in> set (stepped_trace c h input out)" and pg: "pg (relay_of c) \<noteq> None"
    using proofs_mono(2) [OF stepped_trace_mono] by auto
  then obtain ch m where k: "keyed V (stepped_trace c h input out) h ch m" "u = authenticated_id (m_Pubkey m)"
    by (auto simp: spent_def)
  from solution_outcome [OF assms(3) pg] show ?thesis
  proof (elim disjE exE conjE)
    fix sol assume sol: "read_by e dl input = Received sol" "solves challengeID seed sol"
      and r: "registers u (relay_of c) ph' s'"
    have "paid V G (stepped_trace c h input out) h u"
      using sp pz sol(2) stepped_seen [OF read_by_Received [OF sol(1)]] unfolding paid_def by blast
    then show ?thesis by (rule stepped_registers [OF assms(1,2) no r k])
  qed (intro stepped_quiet [OF assms(1,2)], simp_all add: no)
qed

lemma relay_inv_phase:
  "relay_inv V G c \<Longrightarrow> handshakes c h = Some (ip, ph) \<Longrightarrow> phase_inv V G (stepped_trace c h input out) (relay_of c) h ph"
  by (rule phase_inv_keeps [OF _ stepped_trace_mono hub_keeps_refl]) (auto simp: relay_inv_def)

lemma inv_ok:
  assumes "relay_inv V G c" "handshakes c h = Some (ip, Registered p tok x)"
  shows "relay_inv V G (stepped c h ip input (ServeWS_ok e p tok x (relay_of c)))"
proof -
  have "phase_inv V G (stepped_trace c h input []) (relay_of c) h (Registered p tok x)"
    by (rule relay_inv_phase [OF assms])
  then show ?thesis
    unfolding ServeWS_ok_def using assms
    by (intro stepped_quiet) (auto simp: holder_def held_def)
qed

lemma inv_handshake:
  assumes "relay_inv V G c" "ed_verify e = V" "globals e = G" "handshakes c h = Some (ip, ph)"
  shows "relay_inv V G (stepped c h ip input (ServeWS_step e ip ph input (relay_of c)))"
proof -
  obtain ph' out s' where a: "ServeWS_step e ip ph input (relay_of c) = (ph', out, s')" by (metis prod_cases3)
  have same: "relay_inv V G (stepped c h ip input (ph, [], relay_of c))"
    using relay_inv_phase [OF assms(1,4), of input "[]"] by (intro stepped_quiet [OF assms(1,4)]) simp_all
  show ?thesis
  proof (cases ph)
    case (AwaitAuth ch dl)
    show ?thesis unfolding a
      by (rule inv_auth [OF assms(1,2) assms(4) [unfolded AwaitAuth]]) (use a AwaitAuth in \<open>simp add: ServeWS_step_def\<close>)
  next
    case (AwaitIssue ch m dl)
    show ?thesis unfolding a
      by (rule inv_issue [OF assms(1,3) assms(4) [unfolded AwaitIssue]]) (use a AwaitIssue in \<open>simp add: ServeWS_step_def\<close>)
  next
    case (AwaitSolution u seed challengeID dl)
    show ?thesis unfolding a
      by (rule inv_solution [OF assms(1) assms(4) [unfolded AwaitSolution]])
        (use a AwaitSolution in \<open>simp add: ServeWS_step_def\<close>)
  next
    case (Registered p tok x)
    show ?thesis
      using inv_ok [OF assms(1) assms(4) [unfolded Registered]] Registered by (simp add: ServeWS_step_def)
  qed (use same in \<open>simp_all add: ServeWS_step_def\<close>)
qed

lemma inv_connect:
  assumes "relay_inv V G c" "handshakes c h = None"
  shows "relay_inv V G (stepped c h (clientIP r) ReadFails (ServeWS_open e r upgraded (relay_of c)))"
proof -
  obtain ph out s' where a: "ServeWS_open e r upgraded (relay_of c) = (ph, out, s')" by (metis prod_cases3)
  note o = open_outcome [OF a]
  then have "phase_inv V G (trace c @ map (Sent h) out) s' h ph" by auto
  then show ?thesis
    unfolding a stepped_def fst_conv snd_conv
    by (intro inv_quiet_step [OF assms(1)]) (use o assms(2) in \<open>auto simp: seen_input_def\<close>)
qed

text \<open>The steps that leave the handshakes alone.\<close>

lemma inv_relay:
  assumes "relay_inv V G c" "hub_keeps {} (relay_of c) s'" "files_ok s'"
  shows "relay_inv V G (c\<lparr>relay_of := s'\<rparr>)"
  using inv_world [OF assms(1-3), of "trace c"] by simp

lemma relay_inv_stores:
  "relay_inv V G c \<Longrightarrow> hub_ok (relay_of c) \<and> files_ok (relay_of c) \<and> uuids_ok (relay_of c)"
  by (simp add: relay_inv_def)

lemma inv_step: "step V G c c' \<Longrightarrow> relay_inv V G c \<Longrightarrow> relay_inv V G c'"
proof (induction rule: step.induct)
  case (Connect e c h r upgraded)
  then show ?case by (simp add: inv_connect)
next
  case (Handshake e c h ip ph input)
  then show ?case by (simp add: inv_handshake)
next
  case (Frame e c p decoded)
  have "relay_inv V G (c\<lparr>relay_of := s'\<rparr>)" if "s' = snd (readPump_turn e p decoded (relay_of c))" for s'
    unfolding that by (rule inv_relay [OF Frame(4)])
      (use relay_inv_stores [OF Frame(4)] in \<open>auto intro!: files_ok_turn served_keeps [OF served_turn [where L = UNIV]]\<close>)
  then show ?case by simp
next
  case (Leave c p)
  moreover have "files_ok (readPump_exit p (relay_of c))"
    using relay_inv_stores [OF Leave(2)] by (simp add: readPump_exit_def)
  ultimately show ?case using relay_inv_stores [OF Leave(2)] by (intro inv_relay) (auto intro!: hub_keeps_exit)
next
  case (Write c p)
  then show ?case
    using relay_inv_stores [OF Write(2)] by (intro inv_relay) (auto intro!: hub_keeps_write)
next
  case (Deliver e c p)
  then show ?case
    using relay_inv_stores [OF Deliver(4)]
    by (intro inv_relay) (auto intro!: files_ok_deliver served_keeps [OF served_deliver [where b = True and L = UNIV]])
next
  case (Wake e c)
  then show ?case
    using relay_inv_stores [OF Wake(3)]
    by (intro inv_relay) (auto intro!: files_ok_wake served_keeps [OF served_wake [where b = True and L = UNIV]])
next
  case (Cleanup e c)
  then show ?case
    using relay_inv_stores [OF Cleanup(3)]
    by (intro inv_relay) (auto intro!: files_ok_cleanup served_keeps [OF served_cleanup [where L = UNIV]])
next
  case (Http e c p r)
  then show ?case
    using relay_inv_stores [OF Http(3)]
    by (intro inv_relay) (auto intro!: files_ok_serve_http served_keeps [OF served_serve_http [where L = UNIV]])
qed

lemma inv_reachable: "reachable V G c \<Longrightarrow> relay_inv V G c"
proof (induction rule: reachable.induct)
  case (start c)
  then show ?case by (simp add: started_def relay_inv_def)
qed (rule inv_step)

lemma client_held:
  assumes "relay_inv V G c" "client_of c p"
  shows "\<exists>h ip ph. handshakes c h = Some (ip, ph) \<and> holder ph = Some p \<and> held V G (trace c) (relay_of c) h p"
proof -
  obtain h ip ph where h: "handshakes c h = Some (ip, ph)" "holder ph = Some p"
    using assms(2) by (auto simp: client_of_def)
  with assms(1) have "phase_inv V G (trace c) (relay_of c) h ph" unfolding relay_inv_def by blast
  with h(2) have "held V G (trace c) (relay_of c) h p" by (cases ph) (auto simp: holder_def)
  with h show ?thesis by blast
qed

section \<open>The properties\<close>

text \<open>
  C27. Whatever the interleaving, every client whose frames are handled got its socket by signing, with
  the key behind its identity, a challenge that the relay had sent on that very socket, and the
  identity once spent the proof of work of a challenge (and, in the always mode, solved a puzzle) on
  a socket of its own.
\<close>

theorem online_identity_proven:
  assumes "reachable V G c" "client_of c p"
  shows "(\<exists>h ip ph ch m. handshakes c h = Some (ip, ph) \<and> holder ph = Some p \<and>
            Sent h ((frame ''CHALLENGE'')\<lparr>m_Challenge := ch\<rparr>) \<in> set (trace c) \<and> Seen h m \<in> set (trace c) \<and>
            m_Type m = ''AUTH'' \<and>
            VerifySignature V (m_Pubkey m) (m_Signature m) (bytes_of (signed_payload ch m)) = Inr True \<and>
            cid (relay_of c) p = authenticated_id (m_Pubkey m)) \<and>
         (\<exists>h. paid V G (trace c) h (cid (relay_of c) p))"
  using client_held [OF inv_reachable [OF assms(1)] assms(2)] unfolding held_def keyed_def key_proof_def by blast

text \<open>
  C28. What always holds of the relay between turns: in every state reached by whole turns of its goroutines in
  any order (one frame handled, one request served, one tick of a worker at a time) every registered connection
  is an open client with the identity it is registered under, no client has more than 512 frames waiting,
  every stored row names an object that exists, and every identity with a device token has paid for it. The
  clause on stored rows needs the turns to be whole: in the program an acknowledgement that is handled while a
  broadcast of the same file is between two recipients leaves a row whose object is gone, which is
  the race shown at the end of File_Properties and a defect of the code.
\<close>

theorem relay_invariants:
  assumes "reachable V G c"
  shows "(\<forall>u p. clients (relay_of c) u = Some p \<longrightarrow>
            client_of c p \<and> cid (relay_of c) p = u \<and> \<not> cl_closed (conns (relay_of c) p)) \<and>
         (\<forall>p. length (cl_send (conns (relay_of c) p)) \<le> 512) \<and>
         files_ok (relay_of c) \<and>
         (\<forall>db u. pg (relay_of c) = Some db \<longrightarrow> device_tokens db u \<noteq> None \<longrightarrow> (\<exists>h. paid V G (trace c) h u))"
  using inv_reachable [OF assms] unfolding relay_inv_def hub_ok_def token_users_def by (auto simp: dom_def send_buffer_def)

text \<open>A first login: challenge, signature, proof of work (of difficulty 0, so that it can be replayed here).\<close>

definition demo_globals :: relay_globals where
  "demo_globals = default_globals\<lparr>issuanceDifficulty := 0\<rparr>"

definition demo_env :: env where "demo_env = env0\<lparr>globals := demo_globals\<rparr>"

definition demo_auth :: WSMessage where
  "demo_auth = (frame ''AUTH'')\<lparr>m_Pubkey := hexEncode (replicate 32 7), m_Signature := hexEncode (replicate 64 0)\<rparr>"

definition demo_issue :: WSMessage where "demo_issue = frame ''AUTH_TOKEN_ISSUE''"

definition demo_start :: system where
  "demo_start = \<lparr>relay_of = relay0, handshakes = Map.empty, trace = []\<rparr>"

definition demo_connected :: system where
  "demo_connected = stepped demo_start 0 (clientIP (peer_request ''9.9.9.9:80'')) ReadFails
     (ServeWS_open demo_env (peer_request ''9.9.9.9:80'') True (relay_of demo_start))"

definition demo_turn :: "WSMessage \<Rightarrow> system \<Rightarrow> system" where
  "demo_turn m c = (case handshakes c 0 of
     None \<Rightarrow> c
   | Some (ip, ph) \<Rightarrow> stepped c 0 ip (Received m) (ServeWS_step demo_env ip ph (Received m) (relay_of c)))"

definition demo_system :: system where
  "demo_system = demo_turn demo_issue (demo_turn demo_auth demo_connected)"

lemma demo_reachable: "reachable (\<lambda>_ _ _. True) demo_globals demo_system"
proof -
  have e: "ed_verify demo_env = (\<lambda>_ _ _. True)" "globals demo_env = demo_globals"
    by (simp_all add: demo_env_def env0_def)
  have "started demo_start"
    using uuids_ok_relay0 by (simp add: started_def demo_start_def hub_ok_def files_ok_def token_users_def pg_empty_def
        row_urls_def fun_eq_iff no_client_def relay0_def)
  then have "reachable (\<lambda>_ _ _. True) demo_globals demo_start" by (rule reachable.start)
  then have "reachable (\<lambda>_ _ _. True) demo_globals demo_connected"
    by (rule reachable.next_step) (unfold demo_connected_def, rule step.Connect [OF e], simp add: demo_start_def)
  moreover have "reachable (\<lambda>_ _ _. True) demo_globals (demo_turn m c)"
    if "reachable (\<lambda>_ _ _. True) demo_globals c" for m c
    using that step.Handshake [OF e]
    by (auto simp: demo_turn_def split: option.split intro: reachable.next_step)
  ultimately show ?thesis unfolding demo_system_def by blast
qed

abbreviation demo_challenge :: string where "demo_challenge \<equiv> hexEncode (replicate 32 0)"

lemma demo_opens:
  "fst (ServeWS_open demo_env (peer_request ''9.9.9.9:80'') True relay0) = AwaitAuth demo_challenge (5 * Second)"
  "snd (snd (ServeWS_open demo_env (peer_request ''9.9.9.9:80'') True relay0)) = relay0\<lparr>drawn := 1\<rparr>"
  by (simp_all add: ServeWS_open_def CheckIPBan_def NewRedisClient_def demo_env_def env0_def rand_Read_def Let_def)

lemma demo_key_proof: "key_proof (ed_verify demo_env) ch demo_auth"
  by (simp add: key_proof_def VerifySignature_def demo_auth_def demo_env_def env0_def frame_def)

lemma demo_spend_proof: "spend_proof (globals demo_env) ch demo_auth demo_issue"
  by (simp add: spend_proof_def demo_issue_def VerifyPoW_def HasPrefix_def frame_def demo_auth_def demo_env_def
      env0_def demo_globals_def default_globals_def)

lemma demo_signs:
  "fst (ServeWS_step demo_env ip (AwaitAuth ch (5 * Second)) (Received demo_auth) (relay0\<lparr>drawn := n\<rparr>)) =
     AwaitIssue ch demo_auth (30 * Second)"
  "snd (snd (ServeWS_step demo_env ip (AwaitAuth ch (5 * Second)) (Received demo_auth) (relay0\<lparr>drawn := n\<rparr>))) =
     relay0\<lparr>drawn := n\<rparr>"
  using demo_key_proof [of ch]
  by (simp_all add: ServeWS_step_def ServeWS_auth_def read_by_def key_proof_def Second_def)
    (simp_all add: demo_auth_def demo_env_def env0_def frame_def)

lemma demo_spends:
  "fst (ServeWS_step demo_env ip (AwaitIssue ch demo_auth (30 * Second)) (Received demo_issue) (relay0\<lparr>drawn := n\<rparr>)) =
     Registered 0 (hexEncode (replicate 32 (of_nat n))) (60 * 24 * 3600)"
  "clients (snd (snd (ServeWS_step demo_env ip (AwaitIssue ch demo_auth (30 * Second)) (Received demo_issue)
     (relay0\<lparr>drawn := n\<rparr>)))) (authenticated_id (m_Pubkey demo_auth)) = Some 0"
  by (simp_all add: ServeWS_step_def ServeWS_issue_def demo_issue_def VerifyPoW_def HasPrefix_def frame_def demo_auth_def
      read_by_def challengeUpgradeRequired_def puzzleRequiredForClient_def clientAdvertisesChallenge_def
      demo_env_def env0_def demo_globals_def default_globals_def Second_def Let_def issue_token_def on_stores
      AllowIssuance_def bump_trim_def get0_def mintDeviceToken_def rand_Read_def MintDeviceToken_def
      ServeWS_register_def new_Client_def NewRedisClient_def unix_def deviceTokenTTL_def Hour_def Minute_def
      hub_register_def)

lemma demo_client: "client_of demo_system 0 \<and> clients (relay_of demo_system) (authenticated_id (m_Pubkey demo_auth)) = Some 0"
proof -
  let ?ip = "clientIP (peer_request ''9.9.9.9:80'')"
  have "relay_of demo_connected = relay0\<lparr>drawn := 1\<rparr> \<and>
      handshakes demo_connected 0 = Some (?ip, AwaitAuth demo_challenge (5 * Second))"
    using demo_opens by (simp add: demo_connected_def demo_start_def stepped_def)
  then have "relay_of (demo_turn demo_auth demo_connected) = relay0\<lparr>drawn := 1\<rparr> \<and>
      handshakes (demo_turn demo_auth demo_connected) 0 = Some (?ip, AwaitIssue demo_challenge demo_auth (30 * Second))"
    using demo_signs [of ?ip demo_challenge 1] by (simp add: demo_turn_def stepped_def)
  then have "handshakes demo_system 0 = Some (?ip, Registered 0 (hexEncode (replicate 32 1)) (60 * 24 * 3600))"
      "clients (relay_of demo_system) (authenticated_id (m_Pubkey demo_auth)) = Some 0"
    using demo_spends [of ?ip demo_challenge 1] by (simp_all add: demo_system_def demo_turn_def [of demo_issue] stepped_def)
  then show ?thesis unfolding client_of_def holder_def by fastforce
qed

theorem online_identity_proven_witness:
  "\<exists>h. paid (\<lambda>_ _ _. True) demo_globals (trace demo_system) h (cid (relay_of demo_system) 0)"
  using online_identity_proven [OF demo_reachable, of 0] demo_client by blast

theorem relay_invariants_witness:
  "\<exists>u. clients (relay_of demo_system) u = Some 0 \<and> client_of demo_system 0 \<and> cid (relay_of demo_system) 0 = u \<and>
     files_ok (relay_of demo_system) \<and> (\<exists>h. paid (\<lambda>_ _ _. True) demo_globals (trace demo_system) h u)"
proof -
  let ?u = "authenticated_id (m_Pubkey demo_auth)"
  note all = relay_invariants [OF demo_reachable]
  have "cid (relay_of demo_system) 0 = ?u" using all demo_client by blast
  moreover have "\<exists>h. paid (\<lambda>_ _ _. True) demo_globals (trace demo_system) h (cid (relay_of demo_system) 0)"
    using client_held [OF inv_reachable [OF demo_reachable]] demo_client unfolding held_def by blast
  ultimately show ?thesis using all demo_client by metis
qed

end
