(* ===== verification/Relay_Types.thy ===== *)
theory Relay_Types
  imports Relay_System
begin

text \<open>
  The type of an identity: whatever the relay does, the names under which clients are online, device
  tokens are kept and messages are stored are hashes of keys, in hex.
\<close>

section \<open>User ids\<close>

definition user_id :: "string \<Rightarrow> bool" where
  "user_id u = (\<exists>key. length key = 32 \<and> u = GenerateUserID key)"

lemma user_id_chars:
  assumes "user_id u"
  shows "length u = 64" "set u \<subseteq> set hexDigits" "CHR '':'' \<notin> set u"
  using assms set_hexEncode hexEncode_no_colon by (auto simp: user_id_def GenerateUserID_def)

lemma authenticated_user_id:
  assumes "VerifySignature V pk sig msg = Inr True"
  shows "user_id (authenticated_id pk)"
  using assms by (auto simp: VerifySignature_def user_id_def authenticated_id_def split: option.splits if_splits)

lemma keyed_user_id: "keyed V tr h ch m \<Longrightarrow> user_id (authenticated_id (m_Pubkey m))"
  using authenticated_user_id by (auto simp: keyed_def key_proof_def)

lemma paid_user_id: "paid V G tr h u \<Longrightarrow> user_id u"
  using keyed_user_id by (auto simp: paid_def spent_def)

lemma client_user_id:
  assumes "reachable V G c" "client_of c p"
  shows "user_id (cid (relay_of c) p)"
  using client_held [OF inv_reachable [OF assms(1)] assms(2)] paid_user_id by (auto simp: held_def)

lemma online_user_id:
  assumes "reachable V G c" "clients (relay_of c) u \<noteq> None"
  shows "user_id u"
proof -
  obtain p where p: "clients (relay_of c) u = Some p" using assms(2) by blast
  then have "client_of c p" "cid (relay_of c) p = u"
    using inv_reachable [OF assms(1)] unfolding relay_inv_def hub_ok_def by simp_all
  then show ?thesis using client_user_id [OF assms(1)] by blast
qed

lemma token_user_id:
  assumes "reachable V G c" "pg (relay_of c) = Some db" "device_tokens db u \<noteq> None"
  shows "user_id u"
proof -
  have "u \<in> token_users (relay_of c)" using assms(2,3) by (auto simp: token_users_def dom_def)
  then show ?thesis using inv_reachable [OF assms(1)] paid_user_id unfolding relay_inv_def by blast
qed

section \<open>Property\<close>

text \<open>
  C39. Identities are well typed. In every reachable state of the relay each name under which a
  connection is registered, a client runs or a device token is kept is the lower-case hex text of the
  SHA-256 hash of a 32-byte key: 64 characters, none of them the colon that the key-value keys are
  built with. So is the sender of every frame another client gets, every message that is queued and
  every row that is stored because of a frame of a client, whatever the frame says.
\<close>

theorem identities_typed:
  assumes "reachable V G c"
  shows "(\<forall>u. clients (relay_of c) u \<noteq> None \<or> (\<exists>db. pg (relay_of c) = Some db \<and> device_tokens db u \<noteq> None) \<longrightarrow>
            user_id u \<and> length u = 64 \<and> set u \<subseteq> set hexDigits \<and> CHR '':'' \<notin> set u) \<and>
         (\<forall>p e msg s'. client_of c p \<longrightarrow> s' = handleWSMessage e p msg (relay_of c) \<longrightarrow>
            (\<forall>q. q \<noteq> p \<longrightarrow> (\<exists>fs. cl_send (conns s' q) = cl_send (conns (relay_of c) q) @ fs \<and>
               (\<forall>f \<in> set fs. user_id (m_SenderID f)))) \<and>
            (\<forall>u z. z \<in> set (queue_of (rdb s') u) \<longrightarrow> z \<in> set (queue_of (rdb (relay_of c)) u) \<or> user_id (z_senderID z)) \<and>
            (\<forall>db m. pg s' = Some db \<longrightarrow> m \<in> set (messages db) \<longrightarrow>
               (\<exists>db0. pg (relay_of c) = Some db0 \<and> m \<in> set (messages db0)) \<or> user_id (pm_SenderID m)))"
proof (intro conjI allI impI)
  fix u
  assume "clients (relay_of c) u \<noteq> None \<or> (\<exists>db. pg (relay_of c) = Some db \<and> device_tokens db u \<noteq> None)"
  then have u: "user_id u" using online_user_id [OF assms] token_user_id [OF assms] by blast
  then show "user_id u" "length u = 64" "set u \<subseteq> set hexDigits" "CHR '':'' \<notin> set u" using user_id_chars by auto
next
  fix p e msg s'
  assume p: "client_of c p" and s': "s' = handleWSMessage e p msg (relay_of c)"
  have c: "caused True UNIV (cid (relay_of c) p) p (relay_of c) s'"
    unfolding s' by (rule caused_handleWSMessage [OF refl]) simp
  note typed = client_user_id [OF assms p]
  show "\<exists>fs. cl_send (conns s' q) = cl_send (conns (relay_of c) q) @ fs \<and> (\<forall>f \<in> set fs. user_id (m_SenderID f))"
    if "q \<noteq> p" for q
    using caused_frames [OF c that] typed by auto
  show "z \<in> set (queue_of (rdb (relay_of c)) u) \<or> user_id (z_senderID z)" if "z \<in> set (queue_of (rdb s') u)" for u z
    using caused_queues [OF c] that typed unfolding queue_from_def by metis
  show "(\<exists>db0. pg (relay_of c) = Some db0 \<and> m \<in> set (messages db0)) \<or> user_id (pm_SenderID m)"
    if "pg s' = Some db" "m \<in> set (messages db)" for db m
    using caused_rows [OF c] caused_frame [OF c] that typed by (cases "pg (relay_of c)") (auto simp: rows_from_def)
qed

theorem identities_typed_witness:
  "clients (relay_of demo_system) (cid (relay_of demo_system) 0) = Some 0 \<and>
   length (cid (relay_of demo_system) 0) = 64 \<and> CHR '':'' \<notin> set (cid (relay_of demo_system) 0)"
proof -
  have "clients (relay_of demo_system) (cid (relay_of demo_system) 0) = Some 0"
    using demo_client inv_reachable [OF demo_reachable] unfolding relay_inv_def hub_ok_def by metis
  moreover from this have "length (cid (relay_of demo_system) 0) = 64 \<and> CHR '':'' \<notin> set (cid (relay_of demo_system) 0)"
    using conjunct1 [OF identities_typed [OF demo_reachable]] by auto
  ultimately show ?thesis by blast
qed

end
