(* ===== verification/Auth_Facts.thy ===== *)
theory Auth_Facts
  imports Relay_System Http_Google
begin

text \<open>
  The handshake of a socket, seen from its two ends: it always ends, an honest client gets in, wrong
  answers are counted, and device tokens run as long as they should.
\<close>

section \<open>Every handshake ends\<close>

text \<open>One turn of a handshake: the environment, what the read returned, and the relay at that time.\<close>

type_synonym turn = "env \<times> ws_input \<times> relay"

definition phase_turn :: "string \<Rightarrow> turn \<Rightarrow> ws_phase \<Rightarrow> ws_phase" where
  "phase_turn ip t ph = (case t of (e, input, s) \<Rightarrow> fst (ServeWS_step e ip ph input s))"

fun phase_after :: "string \<Rightarrow> turn list \<Rightarrow> ws_phase \<Rightarrow> ws_phase" where
  "phase_after ip [] ph = ph"
| "phase_after ip (t # ts) ph = phase_after ip ts (phase_turn ip t ph)"

fun turns_left :: "ws_phase \<Rightarrow> nat" where
  "turns_left (AwaitAuth ch dl) = 4"
| "turns_left (AwaitIssue ch m dl) = 3"
| "turns_left (AwaitSolution u seed challengeID dl) = 2"
| "turns_left (Registered p tok x) = 1"
| "turns_left (Admitted p) = 0"
| "turns_left Refused = 0"

fun waits_until :: "ws_phase \<Rightarrow> int option" where
  "waits_until (AwaitAuth ch dl) = Some dl"
| "waits_until (AwaitIssue ch m dl) = Some dl"
| "waits_until (AwaitSolution u seed challengeID dl) = Some dl"
| "waits_until _ = None"

lemma turns_left_0: "turns_left ph = 0 \<longleftrightarrow> ph = Refused \<or> (\<exists>p. ph = Admitted p)"
  by (cases ph) auto

definition enters :: "ws_phase \<Rightarrow> bool" where
  "enters ph = (ph = Refused \<or> (\<exists>p tok x. ph = Registered p tok x))"

lemma enters_simps [simp]: "enters Refused" "enters (Registered p tok x)"
  by (simp_all add: enters_def)

lemma enters_turns: "enters ph \<Longrightarrow> turns_left ph \<le> 1 \<and> waits_until ph = None"
  by (auto simp: enters_def)

lemma enters_register [simp]: "enters (fst (ServeWS_register e u tok x s))"
  by (simp add: ServeWS_register_def new_Client_def Let_def)

lemma enters_close [simp]: "enters (fst (close_with v s))"
  by (simp add: close_with_def)

lemma enters_issue [simp]: "enters (fst (issue_token e ip u s))"
  by (simp add: issue_token_def on_stores split: sum.splits bool.splits prod.splits)

lemma enters_present [simp]: "enters (fst (present_token e u t db s))"
  by (simp add: present_token_def Let_def split: sum.splits bool.splits prod.splits)

lemma enters_solution [simp]: "enters (fst (puzzle_solution e ip u seed c input s))"
  by (simp add: puzzle_solution_def split: ws_input.splits)

lemma auth_phase:
  "enters (fst (ServeWS_auth e ip ch input s)) \<or>
   (\<exists>m. fst (ServeWS_auth e ip ch input s) = AwaitIssue ch m (now e + 30 * Second))"
  by (simp add: ServeWS_auth_def Let_def split: ws_input.splits option.splits)

lemma puzzle_phase:
  "fst (runPuzzleChallenge e u s) = Refused \<or>
   (\<exists>seed c. fst (runPuzzleChallenge e u s) = AwaitSolution u seed c (now e + 90 * Second))"
  by (auto simp: runPuzzleChallenge_def puzzleSolutionDeadline_def close_with_def split: sum.splits prod.splits)

lemma issue_phase:
  "enters (fst (ServeWS_issue e ip ch m input s)) \<or>
   (\<exists>seed c. fst (ServeWS_issue e ip ch m input s) =
      AwaitSolution (authenticated_id (m_Pubkey m)) seed c (now e + 90 * Second))"
proof -
  have "enters (fst (runPuzzleChallenge e u s)) \<or>
      (\<exists>seed c. fst (runPuzzleChallenge e u s) = AwaitSolution u seed c (now e + 90 * Second))" for u s
    using puzzle_phase [of e u s] by auto
  then show ?thesis
    by (auto simp: ServeWS_issue_def Let_def on_stores split: ws_input.splits sum.splits bool.splits)
qed

lemma late_turn:
  "waits_until ph = Some dl \<Longrightarrow> dl < now e \<Longrightarrow>
   fst (ServeWS_step e ip ph input s) = Refused \<and> snd (snd (ServeWS_step e ip ph input s)) = s"
  by (cases ph) (auto simp: ServeWS_step_def read_by_def ServeWS_auth_def ServeWS_issue_def puzzle_solution_def
      close_with_def Let_def)

lemma turn_progress:
  assumes "turns_left ph \<noteq> 0"
  shows "turns_left (fst (ServeWS_step e ip ph input s)) < turns_left ph \<and>
    (\<forall>dl. waits_until (fst (ServeWS_step e ip ph input s)) = Some dl \<longrightarrow> dl \<le> now e + 90 * Second)"
proof (cases ph)
  case (AwaitAuth ch dl)
  then show ?thesis
    using auth_phase [of e ip ch "read_by e dl input" s] enters_turns Second_pos
    by (fastforce simp: ServeWS_step_def)
next
  case (AwaitIssue ch m dl)
  then show ?thesis
    using issue_phase [of e ip ch m "read_by e dl input" s] enters_turns by (fastforce simp: ServeWS_step_def)
next
  case (AwaitSolution u seed c dl)
  then show ?thesis
    using enters_turns [OF enters_solution [of e ip u seed c "read_by e dl input" s]] by (simp add: ServeWS_step_def)
qed (use assms in \<open>simp_all add: ServeWS_step_def ServeWS_ok_def\<close>)

lemma turns_bound: "turns_left (phase_after ip ts ph) \<le> turns_left ph - length ts"
proof (induction ts arbitrary: ph)
  case (Cons t ts)
  obtain e input s where t: "t = (e, input, s)" by (cases t) auto
  have "turns_left (phase_turn ip t ph) \<le> turns_left ph - 1"
  proof (cases "turns_left ph = 0")
    case True
    then show ?thesis by (auto simp: turns_left_0 phase_turn_def t ServeWS_step_def)
  next
    case False
    then show ?thesis using turn_progress [of ph e ip input s] unfolding phase_turn_def t by auto
  qed
  with Cons.IH [of "phase_turn ip t ph"] show ?case by simp
qed simp

text \<open>
  C29. Every handshake ends: whatever the peer sends and whatever state the relay is in at each turn,
  after four turns the socket is admitted or refused; no read waits longer than 90 seconds, and a
  turn after its deadline refuses the socket and leaves the relay as it was.
\<close>

theorem handshake_terminates:
  "(4 \<le> length ts \<longrightarrow>
     phase_after ip ts ph = Refused \<or> (\<exists>p. phase_after ip ts ph = Admitted p)) \<and>
   (turns_left ph \<noteq> 0 \<longrightarrow> waits_until (fst (ServeWS_step e ip ph input s)) = Some dl \<longrightarrow>
     dl \<le> now e + 90 * Second) \<and>
   (waits_until ph = Some dl \<longrightarrow> dl < now e \<longrightarrow>
     fst (ServeWS_step e ip ph input s) = Refused \<and> snd (snd (ServeWS_step e ip ph input s)) = s)"
proof -
  have "turns_left ph \<le> 4" by (cases ph) auto
  then have "4 \<le> length ts \<Longrightarrow> turns_left (phase_after ip ts ph) = 0"
    using turns_bound [of ip ts ph] by simp
  then show ?thesis using turn_progress late_turn by (auto simp: turns_left_0)
qed

theorem handshake_terminates_witness:
  "phase_after ''9.9.9.9'' (replicate 4 (env0, Malformed, relay0)) (AwaitAuth ''c'' 5) = Refused \<or>
   (\<exists>p. phase_after ''9.9.9.9'' (replicate 4 (env0, Malformed, relay0)) (AwaitAuth ''c'' 5) = Admitted p)"
  using handshake_terminates [of "replicate 4 (env0, Malformed, relay0)" "''9.9.9.9''" "AwaitAuth ''c'' 5"] by simp

section \<open>An honest client gets in\<close>

text \<open>
  The peer answers in time and as the phase asks, and the relay is able to serve it: the token store
  and the counters answer, the quota of the address is not used up, no cooldown runs, and the random
  source works.
\<close>

definition able :: "env \<Rightarrow> string \<Rightarrow> relay \<Rightarrow> bool" where
  "able e ip s =
     (pg s \<noteq> None \<and> (\<forall>op. \<not> fault e op) \<and> (\<forall>n k. rand_supply s n k \<noteq> None) \<and>
      fst (AllowIssuance e ip (issuanceDailyIPCap (globals e)) (rdb s)) = Inr True \<and>
      fst (CheckChallengeCooldown e ip (rdb s)) = Inr False)"

fun answers :: "env \<Rightarrow> relay \<Rightarrow> ws_phase \<Rightarrow> WSMessage \<Rightarrow> bool" where
  "answers e s (AwaitAuth ch dl) m =
     (key_proof (ed_verify e) ch m \<and>
      (m_DeviceToken m = [] \<or>
       (\<exists>near. VerifyDeviceToken e (authenticated_id (m_Pubkey m)) (m_DeviceToken m) (the (pg s)) = Inr (True, near))))"
| "answers e s (AwaitIssue ch auth dl) m = spend_proof (globals e) ch auth m"
| "answers e s (AwaitSolution u seed challengeID dl) m = solves challengeID seed m"
| "answers e s _ m = True"

definition honest :: "string \<Rightarrow> ws_phase \<Rightarrow> turn \<Rightarrow> bool" where
  "honest ip ph t =
     (case t of (e, input, s) \<Rightarrow>
        able e ip s \<and> (\<forall>dl. waits_until ph = Some dl \<longrightarrow> now e \<le> dl) \<and>
        (\<exists>m. input = Received m \<and> answers e s ph m))"

fun honest_run :: "string \<Rightarrow> ws_phase \<Rightarrow> turn list \<Rightarrow> bool" where
  "honest_run ip ph [] = True"
| "honest_run ip ph (t # ts) = (honest ip ph t \<and> honest_run ip (phase_turn ip t ph) ts)"

lemma register_not_refused [simp]: "fst (ServeWS_register e u tok x s) \<noteq> Refused"
  by (simp add: ServeWS_register_def new_Client_def Let_def)

lemma issue_able:
  assumes "able e ip s"
  shows "fst (issue_token e ip u s) \<noteq> Refused"
proof -
  have r: "rand_supply s n k \<noteq> None" for n k using assms by (simp add: able_def)
  show ?thesis
    using assms by (auto simp: r issue_token_def on_stores able_def mintDeviceToken_def rand_Read_def MintDeviceToken_def Let_def
      split: sum.splits bool.splits prod.splits option.splits)
qed

lemma present_able:
  "VerifyDeviceToken e u t db = Inr (True, near) \<Longrightarrow> fst (present_token e u t db s) \<noteq> Refused"
  by (auto simp: present_token_def Let_def split: sum.splits bool.splits prod.splits)

lemma puzzle_able:
  assumes "\<forall>n k. rand_supply s n k \<noteq> None"
  shows "fst (runPuzzleChallenge e u s) \<noteq> Refused"
proof -
  have r: "rand_supply s n k \<noteq> None" for n k using assms by simp
  show ?thesis
    by (auto simp: r runPuzzleChallenge_def randomHex_def rand_Read_def split: option.splits sum.splits)
qed

lemma honest_not_refused:
  assumes "honest ip ph (e, Received m, s)" "ph \<noteq> Refused"
  shows "fst (ServeWS_step e ip ph (Received m) s) \<noteq> Refused"
proof (cases ph)
  case (AwaitAuth ch dl)
  with assms obtain db where "pg s = Some db" by (auto simp: honest_def able_def)
  with AwaitAuth assms(1) present_able show ?thesis
    by (auto simp: honest_def ServeWS_step_def read_by_def ServeWS_auth_def key_proof_def Let_def split: if_splits)
next
  case (AwaitIssue ch auth dl)
  have c: "able e ip s" "spend_proof (globals e) ch auth m" "\<not> dl < now e"
    using assms(1) AwaitIssue by (auto simp: honest_def)
  then have "\<not> challengeUpgradeRequired e (m_ClientCaps auth)"
    by (auto simp: spend_proof_def challengeUpgradeRequired_def)
  with c AwaitIssue issue_able puzzle_able show ?thesis
    by (auto simp: ServeWS_step_def read_by_def ServeWS_issue_def spend_proof_def Let_def on_stores able_def
        split: sum.splits bool.splits)
next
  case (AwaitSolution u seed challengeID dl)
  with assms(1) issue_able show ?thesis
    by (auto simp: honest_def ServeWS_step_def read_by_def puzzle_solution_def solves_def puzzleStrips_def)
qed (use assms in \<open>simp_all add: ServeWS_step_def ServeWS_ok_def\<close>)

lemma honest_run_not_refused: "honest_run ip ph ts \<Longrightarrow> ph \<noteq> Refused \<Longrightarrow> phase_after ip ts ph \<noteq> Refused"
proof (induction ts arbitrary: ph)
  case (Cons t ts)
  obtain e m s where t: "t = (e, Received m, s)" using Cons.prems by (cases t) (auto simp: honest_def)
  have "phase_turn ip t ph \<noteq> Refused"
    using honest_not_refused [of ip ph e m s] Cons.prems by (simp add: t phase_turn_def)
  with Cons show ?case by simp
qed simp

text \<open>
  C30. An honest client gets in: if the address is not banned, and at each turn the client answers in
  time and as asked while the relay is able to serve it, the handshake, which may interleave with
  anything else, ends after four turns with the client admitted.
\<close>

theorem honest_login:
  assumes "CheckIPBan e (clientIP r) (rdb s) = Inr False"
    and "honest_run ip (fst (ServeWS_open e r True s)) ts" "length ts = 4"
  shows "\<exists>p. phase_after ip ts (fst (ServeWS_open e r True s)) = Admitted p"
proof -
  let ?ph = "fst (ServeWS_open e r True s)"
  obtain ch where ph: "?ph = AwaitAuth ch (now e + 5 * Second)"
    using assms(1) by (cases "rand_Read 32 s") (simp add: ServeWS_open_def Let_def)
  then have "phase_after ip ts ?ph \<noteq> Refused" using honest_run_not_refused [OF assms(2)] by simp
  moreover have "turns_left (phase_after ip ts ?ph) = 0" using turns_bound [of ip ts ?ph] assms(3) ph by simp
  ultimately show ?thesis by (auto simp: turns_left_0)
qed

definition demo_turns :: "turn list" where
  "demo_turns = map (\<lambda>m. (demo_env, Received m, relay0)) [demo_auth, demo_issue, demo_issue, demo_issue]"

theorem honest_login_witness:
  "\<exists>p. phase_after ''9.9.9.9'' demo_turns
     (fst (ServeWS_open demo_env (peer_request ''9.9.9.9:80'') True relay0)) = Admitted p"
proof (rule honest_login)
  have 0: "relay0\<lparr>drawn := 0\<rparr> = relay0" by (simp add: relay0_def)
  note turns = demo_signs(1) [of _ _ 0, unfolded 0] demo_spends(1) [of _ _ 0, unfolded 0]
  have a: "able demo_env ip relay0" for ip
    by (simp add: able_def demo_env_def env0_def AllowIssuance_def CheckChallengeCooldown_def NewRedisClient_def
        bump_trim_def get0_def demo_globals_def default_globals_def Let_def)
  have n: "now demo_env = 0" "m_DeviceToken demo_auth = []" "0 \<le> 5 * Second" "0 \<le> 30 * Second"
    by (simp_all add: demo_env_def env0_def demo_auth_def frame_def Second_def)
  show "CheckIPBan demo_env (clientIP (peer_request ''9.9.9.9:80'')) (rdb relay0) = Inr False"
    by (simp add: CheckIPBan_def NewRedisClient_def demo_env_def env0_def)
  show "honest_run ''9.9.9.9'' (fst (ServeWS_open demo_env (peer_request ''9.9.9.9:80'') True relay0)) demo_turns"
    by (simp add: demo_opens demo_turns_def honest_def phase_turn_def turns a n demo_key_proof demo_spend_proof)
      (simp add: ServeWS_step_def ServeWS_ok_def)
  show "length demo_turns = 4" by (simp add: demo_turns_def)
qed

section \<open>Device tokens\<close>

text \<open>The token store after a mint: the new token, the previous one, everybody else.\<close>

lemma verify_minted:
  assumes "fst (MintDeviceToken e u tok db) = Inr y" "\<not> fault e' (Pg OpVerifyDeviceToken u)"
  shows "VerifyDeviceToken e' u tok (snd (MintDeviceToken e u tok db)) =
    Inr (now e' < now e + deviceTokenTTL,
         now e' < now e + deviceTokenTTL \<and>
         time_Sub (now e + deviceTokenTTL) (now e') < deviceTokenRefreshWindow)"
  using assms by (auto simp: MintDeviceToken_def VerifyDeviceToken_def Let_def split: option.splits if_splits)

lemma verify_previous:
  assumes "fst (MintDeviceToken e u tok db) = Inr y" "\<not> fault e' (Pg OpVerifyDeviceToken u)"
    and "device_tokens db u = Some d" "dt_token_hash d = tokenHash t" "tokenHash t \<noteq> tokenHash tok"
  shows "\<exists>near. VerifyDeviceToken e' u t (snd (MintDeviceToken e u tok db)) =
    Inr (now e' < min (now e + 24 * Hour) (max (dt_token_expires_at d) (now e)), near)"
  using assms by (auto simp: MintDeviceToken_def VerifyDeviceToken_def Let_def split: if_splits)

lemma verify_others:
  "v \<noteq> u \<Longrightarrow> VerifyDeviceToken e' v t (snd (MintDeviceToken e u tok db)) = VerifyDeviceToken e' v t db"
  by (simp add: MintDeviceToken_def VerifyDeviceToken_def Let_def)

lemma mintDeviceToken_runs:
  assumes "mintDeviceToken e u s = (Inr (tok, x), s')" "pg s = Some db"
  shows "\<exists>y. fst (MintDeviceToken e u tok db) = Inr y \<and> x = unix (now e + deviceTokenTTL) \<and>
    pg s' = Some (snd (MintDeviceToken e u tok db))"
proof -
  obtain raw where raw: "rand_supply s (drawn s) 32 = Some raw" "tok = hexEncode raw"
    using assms by (auto simp: mintDeviceToken_def rand_Read_def Let_def split: option.splits sum.splits prod.splits)
  with assms show ?thesis
    by (auto simp: mintDeviceToken_def rand_Read_def on_stores Let_def MintDeviceToken_def
        split: sum.splits prod.splits if_splits)
qed

text \<open>
  C32. A device token that the relay hands out is accepted for its user for exactly sixty days, asks
  for its renewal in the last seven of them, leaves the tokens of all other users alone, and leaves
  the token it replaces in force for another day at most, never beyond its own expiry.
\<close>

theorem device_token_roundtrip:
  assumes "mintDeviceToken e u s = (Inr (tok, x), s')" "pg s = Some db"
  shows "x = unix (now e + 60 * 24 * Hour) \<and>
    (\<exists>db'. pg s' = Some db' \<and>
      (\<forall>e'. \<not> fault e' (Pg OpVerifyDeviceToken u) \<longrightarrow> now e \<le> now e' \<longrightarrow>
         VerifyDeviceToken e' u tok db' =
           Inr (now e' < now e + 60 * 24 * Hour,
                now e + 53 * 24 * Hour < now e' \<and> now e' < now e + 60 * 24 * Hour)) \<and>
      (\<forall>e' v t. v \<noteq> u \<longrightarrow> VerifyDeviceToken e' v t db' = VerifyDeviceToken e' v t db) \<and>
      (\<forall>d e' t. device_tokens db u = Some d \<longrightarrow> dt_token_hash d = tokenHash t \<longrightarrow> tokenHash t \<noteq> tokenHash tok \<longrightarrow>
         now e < dt_token_expires_at d \<longrightarrow> \<not> fault e' (Pg OpVerifyDeviceToken u) \<longrightarrow>
         (\<exists>near. VerifyDeviceToken e' u t db' =
            Inr (now e' < now e + 24 * Hour \<and> now e' < dt_token_expires_at d, near))))"
proof -
  obtain y where y: "fst (MintDeviceToken e u tok db) = Inr y" "x = unix (now e + deviceTokenTTL)"
      "pg s' = Some (snd (MintDeviceToken e u tok db))"
    using mintDeviceToken_runs [OF assms] by blast
  have near: "time_Sub (now e + 1440 * Hour) (now e') < deviceTokenRefreshWindow \<longleftrightarrow> now e + 1272 * Hour < now e'"
    if "now e \<le> now e'" for e'
    using that by (auto simp: time_Sub_def deviceTokenRefreshWindow_def time_units min_def max_def)
  have new: "VerifyDeviceToken e' u tok (snd (MintDeviceToken e u tok db)) =
      Inr (now e' < now e + 60 * 24 * Hour, now e + 53 * 24 * Hour < now e' \<and> now e' < now e + 60 * 24 * Hour)"
    if "\<not> fault e' (Pg OpVerifyDeviceToken u)" "now e \<le> now e'" for e'
    using verify_minted [OF y(1) that(1)] near [OF that(2)] by (auto simp: deviceTokenTTL_def)
  have old: "\<exists>near. VerifyDeviceToken e' u t (snd (MintDeviceToken e u tok db)) =
      Inr (now e' < now e + 24 * Hour \<and> now e' < dt_token_expires_at d, near)"
    if "device_tokens db u = Some d" "dt_token_hash d = tokenHash t" "tokenHash t \<noteq> tokenHash tok"
      "now e < dt_token_expires_at d" "\<not> fault e' (Pg OpVerifyDeviceToken u)" for d e' t
    using verify_previous [OF y(1) that(5,1-3)] that(4) by (simp add: max_def)
  show ?thesis
    using y(2,3) new old verify_others [of _ u _ _ e tok db] by (simp add: deviceTokenTTL_def)
qed

theorem device_token_roundtrip_witness:
  "\<exists>tok x s' db'. mintDeviceToken env0 ''u'' relay0 = (Inr (tok, x), s') \<and> pg s' = Some db' \<and>
     VerifyDeviceToken env0 ''u'' tok db' = Inr (True, False)"
proof -
  obtain s' where m: "mintDeviceToken env0 ''u'' relay0 = (Inr (hexEncode (replicate 32 0), unix deviceTokenTTL), s')"
    by (simp add: mintDeviceToken_def rand_Read_def on_stores MintDeviceToken_def env0_def Let_def)
  from device_token_roundtrip [OF m, of pg_empty]
  show ?thesis using m by (auto simp: env0_def time_units)
qed

text \<open>
  A mint clears the revocation of a user and so brings the revoked token itself back, as the
  previous token, for up to a day.
\<close>

theorem mint_revives_revoked_token:
  assumes "device_tokens db u = Some d" "dt_token_hash d = tokenHash t" "now e < dt_token_expires_at d"
    and "fst (RevokeDeviceToken e u db) = Inr ()"
    and "mintDeviceToken e' u (s\<lparr>pg := Some (snd (RevokeDeviceToken e u db))\<rparr>) = (Inr (tok, x), s')"
    and "now e' < dt_token_expires_at d" "\<not> fault e'' (Pg OpVerifyDeviceToken u)" "now e'' < now e' + 24 * Hour" "now e'' < dt_token_expires_at d"
  shows "VerifyDeviceToken e'' u t (snd (RevokeDeviceToken e u db)) = Inr (False, False) \<and>
    (\<exists>near db'. pg s' = Some db' \<and> VerifyDeviceToken e'' u t db' = Inr (True, near))"
proof -
  let ?db = "snd (RevokeDeviceToken e u db)" and ?d = "d\<lparr>dt_revoked_at := Some (now e)\<rparr>"
  have r: "device_tokens ?db u = Some ?d"
    using assms(1,4) by (auto simp: RevokeDeviceToken_def split: if_splits)
  obtain y where y: "fst (MintDeviceToken e' u tok ?db) = Inr y" "pg s' = Some (snd (MintDeviceToken e' u tok ?db))"
    using mintDeviceToken_runs [OF assms(5)] by auto
  have "\<exists>near. VerifyDeviceToken e'' u t (snd (MintDeviceToken e' u tok ?db)) = Inr (True, near)"
  proof (cases "tokenHash t = tokenHash tok")
    case True
    have "VerifyDeviceToken e'' u t q = VerifyDeviceToken e'' u tok q" for q
      unfolding VerifyDeviceToken_def True ..
    with verify_minted [OF y(1) assms(7)] assms(8) show ?thesis by (simp add: deviceTokenTTL_def time_units)
  next
    case False
    from verify_previous [OF y(1) assms(7) r _ False] assms(2,6,8,9) show ?thesis by (simp add: max_def)
  qed
  with r assms(7) y(2) show ?thesis by (simp add: VerifyDeviceToken_def)
qed

definition revoked_user :: device_token_row where
  "revoked_user = \<lparr>dt_token_hash = tokenHash ''t'', dt_prev_token_hash = [], dt_token_expires_at = Hour,
     dt_prev_expires_at = 0, dt_created_at = 0, dt_last_seen_at = 0, dt_revoked_at = None\<rparr>"

theorem mint_revives_revoked_token_witness:
  "\<exists>tok x s' near db'. mintDeviceToken env0 ''u''
       (relay0\<lparr>pg := Some (snd (RevokeDeviceToken env0 ''u'' (pg_empty\<lparr>device_tokens := [''u'' \<mapsto> revoked_user]\<rparr>)))\<rparr>) =
       (Inr (tok, x), s') \<and>
     pg s' = Some db' \<and> VerifyDeviceToken env0 ''u'' ''t'' db' = Inr (True, near)"
proof -
  let ?db = "pg_empty\<lparr>device_tokens := [''u'' \<mapsto> revoked_user]\<rparr>"
  obtain tok x s' where m: "mintDeviceToken env0 ''u'' (relay0\<lparr>pg := Some (snd (RevokeDeviceToken env0 ''u'' ?db))\<rparr>) =
      (Inr (tok, x), s')"
    by (simp add: mintDeviceToken_def rand_Read_def on_stores MintDeviceToken_def env0_def Let_def)
  have "fst (RevokeDeviceToken env0 ''u'' ?db) = Inr ()" by (simp add: RevokeDeviceToken_def env0_def)
  from mint_revives_revoked_token [OF _ _ _ this m, where t = "''t''" and d = revoked_user and e'' = env0]
  show ?thesis using m by (auto simp: revoked_user_def env0_def)
qed

section \<open>The human challenge\<close>

definition strikes_of :: "string \<Rightarrow> string \<Rightarrow> relay \<Rightarrow> int" where
  "strikes_of hour ip s = get0 (map_of (memoryChStrikes (rdb s)) (''chstrike:'' @ ip @ '':'' @ hour))"

lemma strike_counts:
  assumes "\<not> fault e (Rdb OpRegisterChallengeStrike ip)" "localFormat e ''2006010215'' (now e) = hour"
  shows "strikes_of hour ip' (registerChallengeStrikeForRejection e ip s) =
    strikes_of hour ip' s + (if ip' = ip then 1 else 0)"
proof -
  have suffix: "HasSuffix (''chstrike:'' @ k @ '':'' @ hour) (CHR '':'' # hour)" for k
    by (auto simp: HasSuffix_iff)
  show ?thesis
    using assms map_of_bump_trim [OF suffix]
    by (auto simp: registerChallengeStrikeForRejection_def RegisterChallengeStrike_def SetChallengeCooldown_def
        on_stores strikes_of_def get0_def Let_def)
qed

lemma third_strike_arms:
  assumes "\<not> fault e (Rdb OpRegisterChallengeStrike ip)" "\<not> fault e (Rdb OpSetChallengeCooldown ip)"
    and "2 \<le> strikes_of (localFormat e ''2006010215'' (now e)) ip s"
  shows "map_of (memoryChCooldown (rdb (registerChallengeStrikeForRejection e ip s))) ip = Some (now e + 30 * Minute)"
proof -
  let ?h = "localFormat e ''2006010215'' (now e)"
  have "HasSuffix (''chstrike:'' @ ip @ '':'' @ ?h) (CHR '':'' # ?h)" by (auto simp: HasSuffix_iff)
  from map_of_bump_trim [OF this, of "''chstrike:'' @ ip @ '':'' @ ?h" "memoryChStrikes (rdb s)"] assms
  show ?thesis
    by (auto simp: registerChallengeStrikeForRejection_def RegisterChallengeStrike_def SetChallengeCooldown_def
        on_stores strikes_of_def get0_def Let_def update_conv')
qed

definition puzzled_env :: env where
  "puzzled_env = demo_env\<lparr>globals := demo_globals\<lparr>challengeMode := Always\<rparr>\<rparr>"

definition puzzled_auth :: WSMessage where
  "puzzled_auth = demo_auth\<lparr>m_ClientCaps := [''human_challenge'']\<rparr>"

lemma puzzled_spend: "spend_proof (globals puzzled_env) ch puzzled_auth demo_issue"
  "spend_proof (globals demo_env) ch puzzled_auth demo_issue"
  by (simp_all add: spend_proof_def puzzled_env_def puzzled_auth_def demo_issue_def VerifyPoW_def HasPrefix_def frame_def
      demo_globals_def clientAdvertisesChallenge_def demo_env_def)

section \<open>The modes of the challenge, by strictness\<close>

instantiation challenge_mode :: linorder
begin

fun strictness :: "challenge_mode \<Rightarrow> nat" where
  "strictness Off = 0"
| "strictness Adaptive = 1"
| "strictness Always = 2"

definition less_eq_challenge_mode :: "challenge_mode \<Rightarrow> challenge_mode \<Rightarrow> bool" where
  "m \<le> m' = (strictness m \<le> strictness m')"

definition less_challenge_mode :: "challenge_mode \<Rightarrow> challenge_mode \<Rightarrow> bool" where
  "m < m' = (strictness m < strictness m')"

instance
proof
  fix m m' :: challenge_mode
  show "m \<le> m' \<Longrightarrow> m' \<le> m \<Longrightarrow> m = m'"
    by (cases m; cases m') (simp_all add: less_eq_challenge_mode_def)
qed (auto simp: less_eq_challenge_mode_def less_challenge_mode_def)

end

text \<open>A stricter mode never lets anybody through that a weaker one refuses or challenges.\<close>

lemma stricter_mode:
  assumes "challengeMode (globals e) \<le> challengeMode (globals e')"
  shows "puzzle_rule e caps peek \<Longrightarrow> puzzle_rule e' caps peek"
    and "challengeUpgradeRequired e caps \<Longrightarrow> challengeUpgradeRequired e' caps"
  using assms
  by (cases "challengeMode (globals e)"; cases "challengeMode (globals e')";
      auto simp: less_eq_challenge_mode_def challengeUpgradeRequired_def split: sum.splits if_splits)+

text \<open>
  The off mode does not switch the human challenge off: an address that has had a token today is
  asked for the puzzle by a relay in the off mode too, if its client announces that it can solve one,
  and is spared it if the client does not.
\<close>

theorem off_mode_challenges:
  assumes "challengeMode (globals e) = Off" "\<And>op. \<not> fault e op" "\<And>n k. rand_supply s n k \<noteq> None"
    and "fst (CheckChallengeCooldown e ip (rdb s)) = Inr False" "IssuanceCountToday e ip (rdb s) = Inr n" "1 \<le> n"
    and "spend_proof (globals e) ch m i"
  shows "(\<exists>seed c dl. fst (ServeWS_issue e ip ch m (Received i) s) =
            AwaitSolution (authenticated_id (m_Pubkey m)) seed c dl) \<longleftrightarrow>
         clientAdvertisesChallenge (m_ClientCaps m)"
proof -
  have "\<exists>seed c dl. fst (runPuzzleChallenge e u s1) = AwaitSolution u seed c dl"
    if "rand_supply s1 = rand_supply s" for u s1
    using puzzle_able [of s1 e u] puzzle_phase [of e u s1] assms(3) that by auto
  with assms enters_issue [of e ip "authenticated_id (m_Pubkey m)" s] show ?thesis
    by (auto simp: ServeWS_issue_def spend_proof_def Let_def on_stores puzzleRequiredForClient_def
        challengeUpgradeRequired_def enters_def split: sum.splits bool.splits)
qed

definition one_issuance :: relay where
  "one_issuance = relay0\<lparr>rdb := NewRedisClient\<lparr>memoryIssuance := [(issuance_key ''9.9.9.9'' ''197001010000'', 1)]\<rparr>\<rparr>"

theorem off_mode_challenges_witness:
  "\<exists>seed c dl. fst (ServeWS_issue demo_env ''9.9.9.9'' ''c'' puzzled_auth (Received demo_issue) one_issuance) =
     AwaitSolution (authenticated_id (m_Pubkey puzzled_auth)) seed c dl"
proof -
  have "challengeMode (globals demo_env) = Off" "\<And>op. \<not> fault demo_env op" "\<And>n k. rand_supply one_issuance n k \<noteq> None"
      "fst (CheckChallengeCooldown demo_env ''9.9.9.9'' (rdb one_issuance)) = Inr False"
      "IssuanceCountToday demo_env ''9.9.9.9'' (rdb one_issuance) = Inr 1" "(1::int) \<le> 1"
      "clientAdvertisesChallenge (m_ClientCaps puzzled_auth)"
    by (simp_all add: one_issuance_def demo_env_def env0_def demo_globals_def default_globals_def NewRedisClient_def
        CheckChallengeCooldown_def IssuanceCountToday_def get0_def puzzled_auth_def clientAdvertisesChallenge_def)
  with off_mode_challenges [OF this(1-6) puzzled_spend(2)] show ?thesis by blast
qed

end
