(* ===== verification/Relay_Runs.thy ===== *)
theory Relay_Runs
  imports Auth_Facts
begin

text \<open>
  Runs of the relay as lists of events, each with the environment it reads: what the handlers do over
  time, with anything else interleaved. An event is one handler from start to end, as in the step relation of the
  whole relay. What an event can do to the stores is classified once (\<open>effect\<close>); the cached subscription is
  bounded by the real one over all runs.
\<close>

section \<open>Events\<close>

datatype relay_event =
    Connects env http_request bool
  | Turns env string ws_phase ws_input
  | Frames env nat "WSMessage option"
  | Requests env route http_request
  | Delivers env nat
  | Wakes env
  | Cleans env
  | Writes nat
  | Leaves nat

fun occurs :: "relay_event \<Rightarrow> relay \<Rightarrow> relay" where
  "occurs (Connects e r upgraded) s = snd (snd (ServeWS_open e r upgraded s))"
| "occurs (Turns e ip ph input) s = snd (snd (ServeWS_step e ip ph input s))"
| "occurs (Frames e p decoded) s = snd (readPump_turn e p decoded s)"
| "occurs (Requests e p r) s = snd (serve_http p e r s)"
| "occurs (Delivers e p) s = deliverOfflineQueue e p s"
| "occurs (Wakes e) s = run_wake e s"
| "occurs (Cleans e) s = cleanup_tick e s"
| "occurs (Writes p) s = writePump p s"
| "occurs (Leaves p) s = readPump_exit p s"

fun env_of :: "relay_event \<Rightarrow> env option" where
  "env_of (Connects e r upgraded) = Some e"
| "env_of (Turns e ip ph input) = Some e"
| "env_of (Frames e p decoded) = Some e"
| "env_of (Requests e p r) = Some e"
| "env_of (Delivers e p) = Some e"
| "env_of (Wakes e) = Some e"
| "env_of (Cleans e) = Some e"
| "env_of (Writes p) = None"
| "env_of (Leaves p) = None"

definition run :: "relay_event list \<Rightarrow> relay \<Rightarrow> relay" where
  "run = fold occurs"

lemma run_simps [simp]: "run [] s = s" "run (ev # evs) s = run evs (occurs ev s)"
  "run (evs @ evs') s = run evs' (run evs s)"
  by (simp_all add: run_def)

text \<open>Every step of the whole relay is an event, and what every event keeps, every run keeps.\<close>

lemma step_is_event: "step V G c c' \<Longrightarrow> \<exists>ev. relay_of c' = occurs ev (relay_of c)"
proof (induction rule: step.induct)
  case (Connect e c h r upgraded)
  show ?case by (rule exI [of _ "Connects e r upgraded"]) (simp add: stepped_def)
next
  case (Handshake e c h ip ph input)
  show ?case by (rule exI [of _ "Turns e ip ph input"]) (simp add: stepped_def)
next
  case (Frame e c p decoded)
  show ?case by (rule exI [of _ "Frames e p decoded"]) simp
next
  case (Leave c p)
  show ?case by (rule exI [of _ "Leaves p"]) simp
next
  case (Write c p)
  show ?case by (rule exI [of _ "Writes p"]) simp
next
  case (Deliver e c p)
  show ?case by (rule exI [of _ "Delivers e p"]) simp
next
  case (Wake e c)
  show ?case by (rule exI [of _ "Wakes e"]) simp
next
  case (Cleanup e c)
  show ?case by (rule exI [of _ "Cleans e"]) simp
next
  case (Http e c p r)
  show ?case by (rule exI [of _ "Requests e p r"]) simp
qed

lemma run_keeps:
  assumes "P s" "\<And>ev s. ev \<in> set evs \<Longrightarrow> P s \<Longrightarrow> P (occurs ev s)" shows "P (run evs s)"
  using assms by (induction evs arbitrary: s) simp_all

section \<open>What a turn of a handshake does to the stores\<close>

text \<open>
  A calm step leaves the cache of subscriptions, the bans and the puzzle counters alone. So does every turn of
  a handshake but a failed signature, which costs the penalty, and a turn of the puzzle.
\<close>

definition same_cache :: "relay \<Rightarrow> relay \<Rightarrow> bool" where
  "same_cache s s' =
     (memoryBlocks (rdb s') = memoryBlocks (rdb s) \<and>
      (\<forall>d. pg s = Some d \<longrightarrow> (\<exists>d'. pg s' = Some d' \<and> entitlements d' = entitlements d)))"

definition calm :: "relay \<Rightarrow> relay \<Rightarrow> bool" where
  "calm s s' =
     (same_cache s s' \<and> memoryBans (rdb s') = memoryBans (rdb s) \<and>
      memoryChStrikes (rdb s') = memoryChStrikes (rdb s) \<and> memoryChCooldown (rdb s') = memoryChCooldown (rdb s))"

lemma same_cache_trans: "same_cache s s' \<Longrightarrow> same_cache s' s'' \<Longrightarrow> same_cache s s''"
  unfolding same_cache_def by metis

lemma calm_refl [simp]: "calm s s"
  by (simp add: calm_def same_cache_def)

lemma calm_trans: "calm s s' \<Longrightarrow> calm s' s'' \<Longrightarrow> calm s s''"
  unfolding calm_def using same_cache_trans by metis

lemma mint_calm: "mintDeviceToken e u s = (a, s') \<Longrightarrow> calm s s'"
  by (auto simp: mintDeviceToken_def rand_Read_def on_stores MintDeviceToken_def Let_def calm_def same_cache_def
      split: option.splits sum.splits prod.splits if_splits)

lemma register_calm: "ServeWS_register e u tok x s = (ph, out, s') \<Longrightarrow> calm s s'"
  by (auto simp: ServeWS_register_def new_Client_def hub_register_def calm_def same_cache_def Let_def)

lemma rand_calm: "rand_Read n s = (b, s') \<Longrightarrow> calm s s'" "randomHex n s = (h, s') \<Longrightarrow> calm s s'"
  by (auto simp: rand_Read_def randomHex_def calm_def same_cache_def split: prod.splits option.splits)

lemma issue_calm:
  assumes "issue_token e ip u s = (ph, out, s')"
  shows "calm s s'"
proof -
  let ?s1 = "s\<lparr>rdb := snd (AllowIssuance e ip (issuanceDailyIPCap (globals e)) (rdb s))\<rparr>"
  have s1: "calm s ?s1" by (auto simp: calm_def same_cache_def AllowIssuance_def Let_def)
  obtain a s2 where m: "mintDeviceToken e u ?s1 = (a, s2)" by fastforce
  have s2: "calm s s2" using mint_calm [OF m] calm_trans [OF s1] by simp
  have "s' = ?s1 \<or> s' = s2 \<or> (\<exists>tok x. ServeWS_register e u tok x s2 = (ph, out, s'))"
    using assms(1) m by (auto simp: issue_token_def on_stores close_with_def split: sum.splits bool.splits prod.splits)
  with s1 s2 show ?thesis using register_calm calm_trans by blast
qed

lemma puzzle_calm:
  assumes "runPuzzleChallenge e u s = (ph, out, s')" shows "calm s s'"
proof -
  obtain a s1 where a: "randomHex 16 s = (a, s1)" by fastforce
  obtain b s2 where b: "randomHex 16 s1 = (b, s2)" by fastforce
  have "s' = s1 \<or> s' = s2" using assms a b by (auto simp: runPuzzleChallenge_def close_with_def split: sum.splits)
  then show ?thesis using rand_calm(2) [OF a] rand_calm(2) [OF b] calm_trans by blast
qed

lemma present_calm:
  assumes "present_token e u tok db s = (ph, out, s')" "pg s = Some db"
  shows "calm s s'"
proof -
  let ?s1 = "s\<lparr>pg := Some (TouchDeviceToken e u db)\<rparr>"
  have s1: "calm s ?s1"
    using assms(2) by (auto simp: calm_def same_cache_def TouchDeviceToken_def split: option.splits)
  obtain a s2 where m: "mintDeviceToken e u ?s1 = (a, s2)" by fastforce
  have s2: "calm s s2" using mint_calm [OF m] calm_trans [OF s1] by simp
  have "s' = s \<or> (\<exists>tok x. ServeWS_register e u tok x ?s1 = (ph, out, s')) \<or>
      (\<exists>tok x. ServeWS_register e u tok x s2 = (ph, out, s'))"
    using assms(1) m
    by (auto simp: present_token_def close_with_def Let_def split: sum.splits if_splits prod.splits)
  with s1 s2 show ?thesis using register_calm calm_trans calm_refl by blast
qed

lemma open_calm: "calm s (snd (snd (ServeWS_open e r upgraded s)))"
proof -
  obtain a s1 where a: "rand_Read 32 s = (a, s1)" by fastforce
  show ?thesis
    using rand_calm(1) [OF a] a by (auto simp: ServeWS_open_def Let_def split: sum.split bool.split)
qed

lemma auth_calm:
  assumes "ServeWS_auth e ip ch input s = (ph, out, s')"
  shows "calm s s' \<or> s' = registerIPFailure e ip s"
proof (cases input)
  case (Received m)
  have "s' = s \<or> s' = registerIPFailure e ip s \<or>
      (\<exists>db. pg s = Some db \<and> present_token e (authenticated_id (m_Pubkey m)) (m_DeviceToken m) db s = (ph, out, s'))"
    using assms Received by (auto simp: ServeWS_auth_def close_with_def Let_def split: if_splits option.splits)
  then show ?thesis using present_calm calm_refl by blast
qed (use assms in \<open>auto simp: ServeWS_auth_def close_with_def\<close>)


text \<open>The issuance turn asks for the cooldown, which drops the cooldowns that have run out.\<close>

lemma issuance_calm:
  assumes "ServeWS_issue e ip ch m input s = (ph, out, s')"
  shows "calm s s' \<or> calm (s\<lparr>rdb := snd (CheckChallengeCooldown e ip (rdb s))\<rparr>) s'"
proof (cases input)
  case (Received i)
  let ?u = "authenticated_id (m_Pubkey m)" and ?s1 = "s\<lparr>rdb := snd (CheckChallengeCooldown e ip (rdb s))\<rparr>"
  have "s' = s \<or> s' = ?s1 \<or> runPuzzleChallenge e ?u ?s1 = (ph, out, s') \<or> issue_token e ip ?u s = (ph, out, s')"
    using assms Received
    by (auto simp: ServeWS_issue_def close_with_def on_stores Let_def split: if_splits sum.splits bool.splits)
  then show ?thesis using puzzle_calm issue_calm calm_refl by blast
qed (use assms in \<open>auto simp: ServeWS_issue_def close_with_def Let_def\<close>)

lemma solution_calm:
  assumes "puzzle_solution e ip u seed c input s = (ph, out, s')"
  shows "calm s s' \<or> s' = registerChallengeStrikeForRejection e ip s"
proof (cases input)
  case (Received sol)
  have "s' = s \<or> s' = registerChallengeStrikeForRejection e ip s \<or> issue_token e ip u s = (ph, out, s')"
    using assms Received by (auto simp: puzzle_solution_def close_with_def split: if_splits)
  then show ?thesis using issue_calm calm_refl by blast
qed (use assms in \<open>auto simp: puzzle_solution_def close_with_def\<close>)

section \<open>What an event does to the stores\<close>

text \<open>
  The keys of the cache that an event may write with no entitlement behind them: the recipient that a NUKE
  frame names (a queue's lock lives in the same map), and the user of a purchase while the cache is out.
\<close>

fun unbacked_keys :: "relay_event \<Rightarrow> string set" where
  "unbacked_keys (Frames e p (Some m)) = (if m_Type m = ''NUKE_RECIPIENT'' then {m_RecipientID m} else {})"
| "unbacked_keys (Requests e Entitlement r) =
     (case rq_entitlement r of
        None \<Rightarrow> {}
      | Some req \<Rightarrow> if fault e (Rdb OpEntitlement (er_UserID req)) then {cache_key (er_UserID req)} else {})"
| "unbacked_keys _ = {}"

inductive effect :: "string set \<Rightarrow> env option \<Rightarrow> relay \<Rightarrow> relay \<Rightarrow> bool" for L env s where
  effect_calm: "calm s s' \<Longrightarrow> effect L env s s'"
| effect_asks: "env = Some e \<Longrightarrow> calm (s\<lparr>rdb := snd (CheckChallengeCooldown e ip (rdb s))\<rparr>) s' \<Longrightarrow> effect L env s s'"
| effect_fails: "env = Some e \<Longrightarrow> effect L env s (registerIPFailure e ip s)"
| effect_strikes: "env = Some e \<Longrightarrow> effect L env s (registerChallengeStrikeForRejection e ip s)"
| effect_serves: "env = Some e \<Longrightarrow> served True L e s s' \<Longrightarrow> effect L env s s'"

lemma turn_effect: "effect L (Some e) s (snd (snd (ServeWS_step e ip ph input s)))"
proof (cases ph)
  case (AwaitAuth ch dl)
  obtain ph' out s' where "ServeWS_auth e ip ch (read_by e dl input) s = (ph', out, s')" by (metis prod_cases3)
  then show ?thesis using auth_calm AwaitAuth by (fastforce simp: ServeWS_step_def intro: effect.intros)
next
  case (AwaitIssue ch m dl)
  obtain ph' out s' where "ServeWS_issue e ip ch m (read_by e dl input) s = (ph', out, s')" by (metis prod_cases3)
  then show ?thesis using issuance_calm AwaitIssue by (fastforce simp: ServeWS_step_def intro: effect.intros)
next
  case (AwaitSolution u seed c dl)
  obtain ph' out s' where "puzzle_solution e ip u seed c (read_by e dl input) s = (ph', out, s')" by (metis prod_cases3)
  then show ?thesis using solution_calm AwaitSolution by (fastforce simp: ServeWS_step_def intro: effect.intros)
next
  case (Registered p tok x)
  then show ?thesis by (auto simp: ServeWS_step_def ServeWS_ok_def intro: effect_serves served_send)
qed (simp_all add: ServeWS_step_def effect_calm)

lemma event_effect: "effect (unbacked_keys ev) (env_of ev) s (occurs ev s)"
proof (cases ev)
  case (Connects e r upgraded)
  then show ?thesis by (simp add: effect_calm open_calm)
next
  case (Turns e ip ph input)
  then show ?thesis by (simp add: turn_effect)
next
  case (Frames e p decoded)
  then show ?thesis by (cases decoded) (auto intro!: effect_serves served_turn)
next
  case (Requests e p r)
  have "served True (unbacked_keys ev) e s (snd (serve_http p e r s))"
    by (rule served_serve_http) (auto simp: Requests)
  then show ?thesis by (simp add: Requests effect_serves)
next
  case (Writes p)
  then show ?thesis
    by (auto simp: writePump_def conn_Close_def Let_def calm_def same_cache_def intro!: effect_calm split: list.split)
next
  case (Leaves p)
  then show ?thesis
    by (auto simp: readPump_exit_def hub_unregister_def conn_Close_def Let_def calm_def same_cache_def
        intro!: effect_calm split: option.split)
qed (auto intro!: effect_serves served_deliver served_wake served_cleanup)


section \<open>The cached subscription\<close>

definition cached_within :: "string \<Rightarrow> relay \<Rightarrow> bool" where
  "cached_within u s = (\<forall>y. memoryBlocks (rdb s) (cache_key u) = Some y \<longrightarrow> covered (pg s) u y)"

lemma cached_within_frame [simp]:
  "cached_within u (SendJSON q v s) = cached_within u s"
  "cached_within u (registerIPFailure e ip s) = cached_within u s"
  "cached_within u (s\<lparr>storage := st\<rparr>) = cached_within u s" "cached_within u (s\<lparr>drawn := n\<rparr>) = cached_within u s"
  "cached_within u (s\<lparr>wakes := w\<rparr>) = cached_within u s" "cached_within u (s\<lparr>pushed := w\<rparr>) = cached_within u s"
  "cached_within u (s\<lparr>fcm_cache := g\<rparr>) = cached_within u s" "cached_within u (s\<lparr>play_cache := g\<rparr>) = cached_within u s"
  "cached_within u (s\<lparr>integrity_cache := g\<rparr>) = cached_within u s" "cached_within u (s\<lparr>conns := c\<rparr>) = cached_within u s"
  by (simp_all add: cached_within_def)

lemma cached_within_calm: "calm s s' \<Longrightarrow> cached_within u s \<Longrightarrow> cached_within u s'"
  unfolding calm_def same_cache_def cached_within_def covered_def by metis

lemma cached_within_grant:
  assumes "now e < expiry" "cache_key u \<notin> L" "cache_key v \<in> L \<or> \<not> fault e (Rdb OpEntitlement v)" "pg s = Some d"
    and "cached_within u s"
  shows "cached_within u (snd (grant_entitlement e v h expiry s))"
proof (cases "fault e (Pg OpStoreEntitlement v)")
  case False
  have t: "0 < time_Until (now e) expiry" "now e + time_Until (now e) expiry \<le> expiry"
    using assms(1) by (simp_all add: time_Until_pos time_Until_le)
  show ?thesis
  proof (cases "v = u")
    case True
    with assms t False show ?thesis
      by (auto simp: grant_entitlement_def on_stores pg_StoreEntitlement_def rdb_StoreEntitlement_def cached_within_def
          covered_def cache_key_def)
  next
    case other: False
    with assms t False show ?thesis
      by (auto simp: grant_entitlement_def on_stores pg_StoreEntitlement_def rdb_StoreEntitlement_def cached_within_def
          covered_def cache_key_def)
  qed
qed (use assms in \<open>simp add: grant_entitlement_def on_stores pg_StoreEntitlement_def cached_within_def\<close>)

lemma served_cache: "served b L e s s' \<Longrightarrow> cache_key u \<notin> L \<Longrightarrow> cached_within u s \<Longrightarrow> cached_within u s'"
proof (induction rule: served.induct)
  case (served_rdb s s' r)
  then show ?case
    unfolding key_value_step_def cache_from_def cached_within_def cache_key_def by simp blast
next
  case (served_pg s s' d d')
  then show ?case by (simp add: cached_within_def covered_def)
next
  case (served_grant s s' expiry v h)
  then show ?case using cached_within_grant by blast
qed simp_all

lemma effect_cache: "effect L env s s' \<Longrightarrow> cache_key u \<notin> L \<Longrightarrow> cached_within u s \<Longrightarrow> cached_within u s'"
proof (induction rule: effect.induct)
  case (effect_asks e ip s')
  have "cached_within u (s\<lparr>rdb := snd (CheckChallengeCooldown e ip (rdb s))\<rparr>)"
    using effect_asks.prems by (simp add: cached_within_def CheckChallengeCooldown_def Let_def)
  then show ?case using cached_within_calm effect_asks.hyps by blast
next
  case (effect_strikes e ip)
  then show ?case
    by (auto simp: registerChallengeStrikeForRejection_def on_stores RegisterChallengeStrike_def SetChallengeCooldown_def
        cached_within_def Let_def split: sum.split)
qed (auto simp: cached_within_calm served_cache)

text \<open>
  C15. The relay never takes a subscription from its cache beyond the real one. Start with a cache in which no
  expiry of \<open>u\<close> runs past the entitlement that Postgres holds for it (an empty cache, say), and let frames,
  requests, handshakes, deliveries, wake-ups and cleanups follow one another in any order, with any
  outages and clocks and any purchases of \<open>u\<close>. Whenever the premium check of \<open>u\<close> then says yes, from the cache
  or not, Postgres holds an entitlement of \<open>u\<close> that has not run out. Two kinds of event are excluded, because
  the relay does break the property there: a NUKE frame addressed to \<open>''entitlement:'' @ u\<close>, which extends the cached
  expiry by a day (the lock of a queue and the cache share a map), and a purchase of \<open>u\<close> stored in Postgres while the
  write to the cache fails, which leaves the older expiry in the cache.
\<close>

theorem premium_cache_bounded:
  assumes "cached_within u s" "\<And>ev. ev \<in> set evs \<Longrightarrow> cache_key u \<notin> unbacked_keys ev"
    and "fst (checkPremiumSubscription e u (run evs s)) = Inr True"
  shows "\<exists>d ent. pg (run evs s) = Some d \<and> entitlements d u = Some ent \<and> now e \<le> ent_ExpiresAt ent"
proof -
  have within: "cached_within u (run evs s)"
    by (rule run_keeps [where P = "cached_within u", OF assms(1)]) (use assms(2) effect_cache [OF event_effect] in blast)
  show ?thesis
  proof (cases "\<exists>h. GetEntitlementHash e u (rdb (run evs s)) = Inr h \<and> h \<noteq> []")
    case True
    then obtain y where "memoryBlocks (rdb (run evs s)) (cache_key u) = Some y" "now e \<le> y"
      by (auto simp: GetEntitlementHash_def cache_key_def split: option.splits if_splits)
    with within show ?thesis unfolding cached_within_def covered_def by fastforce
  next
    case False
    then have cold: "(case GetEntitlementHash e u (rdb (run evs s)) of Inl _ \<Rightarrow> [] | Inr hash \<Rightarrow> hash) = []"
      by (auto split: sum.split)
    then obtain d ent where "pg (run evs s) = Some d" "GetEntitlement e u d = Inr (Some ent)"
      using assms(3) by (auto simp: checkPremiumSubscription_def Let_def split: option.splits sum.splits)
    then show ?thesis by (auto simp: GetEntitlement_def split: option.splits if_splits)
  qed
qed

definition plus_cached :: relay where
  "plus_cached = (relay_plus ''u'' Hour)\<lparr>rdb := NewRedisClient\<lparr>memoryEntitlements := [''u'' \<mapsto> ''h''],
     memoryBlocks := [cache_key ''u'' \<mapsto> Hour]\<rparr>\<rparr>"

definition some_events :: "relay_event list" where
  "some_events = [Frames env0 0 None, Turns env0 ''9.9.9.9'' (AwaitAuth ''c'' 0) ReadFails, Wakes env0]"

theorem premium_cache_bounded_witness:
  "\<exists>d ent. pg (run some_events plus_cached) = Some d \<and> entitlements d ''u'' = Some ent \<and> Hour \<le> ent_ExpiresAt ent"
proof -
  have wake: "run_wake e s = s" if "wakes s = []" for e and s :: relay
    using that by (simp add: run_wake_def)
  have "rdb (run some_events plus_cached) = rdb plus_cached"
    by (simp add: some_events_def readPump_turn_def flood_guard_def Let_def ServeWS_step_def ServeWS_auth_def read_by_def
        plus_cached_def relay_plus_def wake split_beta)
  then have "fst (checkPremiumSubscription (env0\<lparr>now := Hour\<rparr>) ''u'' (run some_events plus_cached)) = Inr True"
    by (simp add: checkPremiumSubscription_def GetEntitlementHash_def plus_cached_def cache_key_def)
  moreover have "cached_within ''u'' plus_cached"
    by (simp add: cached_within_def covered_def plus_cached_def relay_plus_def)
  moreover have "cache_key ''u'' \<notin> unbacked_keys ev" if "ev \<in> set some_events" for ev
    using that by (auto simp: some_events_def)
  ultimately show ?thesis
    using premium_cache_bounded [of "''u''" plus_cached some_events "env0\<lparr>now := Hour\<rparr>"] by simp
qed

end
