(* ===== verification/Relay_Limits.thy ===== *)
theory Relay_Limits
  imports Relay_Runs
begin

text \<open>
  What a misbehaving address runs into, over runs of the relay: the cooldown after three wrong solutions of the
  puzzle, and the ban after a failed validation.
\<close>

section \<open>Strikes and cooldowns\<close>

lemma served_counters: "served b L e s s' \<Longrightarrow>
    memoryChStrikes (rdb s') = memoryChStrikes (rdb s) \<and> memoryChCooldown (rdb s') = memoryChCooldown (rdb s)"
proof (induction rule: served.induct)
  case (served_fail s s' ip)
  then show ?case
    by (simp add: registerIPFailure_def on_stores IncrementIPFailure_def BanIP_def Let_def split: option.split)
next
  case (served_grant s s' x u h)
  then show ?case by (auto simp: grant_entitlement_def on_stores rdb_StoreEntitlement_def split: sum.split)
qed (auto simp: key_value_step_def cache_from_def)

lemma failure_counters [simp]:
  "memoryChStrikes (rdb (registerIPFailure e ip s)) = memoryChStrikes (rdb s)"
  "memoryChCooldown (rdb (registerIPFailure e ip s)) = memoryChCooldown (rdb s)"
  using served_counters [OF served_fail [OF served_refl]] by auto

text \<open>The clock hour that keys a strike.\<close>

definition in_hour :: "string \<Rightarrow> relay_event \<Rightarrow> bool" where
  "in_hour hour ev = (case env_of ev of None \<Rightarrow> True | Some e \<Rightarrow> localFormat e ''2006010215'' (now e) = hour)"

lemma strikes_of_cong: "memoryChStrikes (rdb s') = memoryChStrikes (rdb s) \<Longrightarrow> strikes_of hour ip s' = strikes_of hour ip s"
  by (simp add: strikes_of_def)

lemma effect_strikes_of:
  assumes "effect L env s s'" "\<And>e. env = Some e \<Longrightarrow> localFormat e ''2006010215'' (now e) = hour"
  shows "strikes_of hour ip s \<le> strikes_of hour ip s'"
  using assms
proof (induction rule: effect.induct)
  case (effect_strikes e a)
  show ?case
  proof (cases "fault e (Rdb OpRegisterChallengeStrike a)")
    case True
    then show ?thesis by (simp add: registerChallengeStrikeForRejection_def RegisterChallengeStrike_def on_stores)
  next
    case False
    then show ?thesis using strike_counts [of e a hour ip s] effect_strikes by simp
  qed
next
  case (effect_asks e a s')
  then show ?case by (simp add: calm_def strikes_of_def CheckChallengeCooldown_def Let_def split: if_splits)
next
  case (effect_serves e s')
  then show ?case using served_counters by (metis order_refl strikes_of_cong)
qed (simp_all add: calm_def strikes_of_def)

lemma event_strikes_of: "in_hour hour ev \<Longrightarrow> strikes_of hour ip s \<le> strikes_of hour ip (occurs ev s)"
  by (rule effect_strikes_of [OF event_effect]) (simp add: in_hour_def)

lemma run_strikes_of: "\<forall>ev \<in> set evs. in_hour hour ev \<Longrightarrow> strikes_of hour ip s \<le> strikes_of hour ip (run evs s)"
proof (induction evs arbitrary: s)
  case (Cons ev evs)
  then have "strikes_of hour ip s \<le> strikes_of hour ip (occurs ev s)" by (simp add: event_strikes_of)
  also have "\<dots> \<le> strikes_of hour ip (run evs (occurs ev s))" using Cons by simp
  finally show ?case by simp
qed simp

definition cooling :: "int \<Rightarrow> string \<Rightarrow> relay \<Rightarrow> bool" where
  "cooling D ip s = (\<exists>x. map_of (memoryChCooldown (rdb s)) ip = Some x \<and> D \<le> x)"

lemma pruned_cooling:
  "map_of m ip = Some x \<Longrightarrow> n \<le> x \<Longrightarrow> map_of (filter (\<lambda>(k, until). \<not> until < (n :: int)) m) ip = Some x"
  by (induction m) (auto split: if_splits)

lemma asked_cooling:
  assumes "cooling D ip s" "now e \<le> D"
  shows "cooling D ip (s\<lparr>rdb := snd (CheckChallengeCooldown e a (rdb s))\<rparr>)"
proof -
  obtain x where x: "map_of (memoryChCooldown (rdb s)) ip = Some x" "D \<le> x" using assms(1) by (auto simp: cooling_def)
  have "map_of (filter (\<lambda>(k, until). \<not> until < now e) (memoryChCooldown (rdb s))) ip = Some x"
    by (rule pruned_cooling [OF x(1)]) (use x(2) assms(2) in simp)
  with x show ?thesis by (simp add: cooling_def CheckChallengeCooldown_def Let_def)
qed

lemma struck_cooling:
  assumes "cooling D ip s" "now e \<le> D" "D \<le> now e + 30 * Minute"
  shows "cooling D ip (registerChallengeStrikeForRejection e a s)"
proof -
  obtain x where x: "map_of (memoryChCooldown (rdb s)) ip = Some x" "D \<le> x" using assms(1) by (auto simp: cooling_def)
  have "map_of (filter (\<lambda>(k, until). \<not> until < now e) (memoryChCooldown (rdb s))) ip = Some x"
    by (rule pruned_cooling [OF x(1)]) (use x(2) assms(2) in simp)
  with x assms(3) show ?thesis
    by (auto simp: cooling_def registerChallengeStrikeForRejection_def on_stores RegisterChallengeStrike_def
        SetChallengeCooldown_def update_conv' Let_def split: sum.split)
qed

lemma event_cooling:
  assumes "cooling D ip s" "\<And>e. env_of ev = Some e \<Longrightarrow> now e \<le> D \<and> D \<le> now e + 30 * Minute"
  shows "cooling D ip (occurs ev s)"
  using event_effect [of ev s] assms
proof (induction rule: effect.cases)
  case (effect_calm s')
  then show ?case by (simp add: calm_def cooling_def)
next
  case (effect_asks e a s')
  then have "cooling D ip (s\<lparr>rdb := snd (CheckChallengeCooldown e a (rdb s))\<rparr>)" by (intro asked_cooling) auto
  with effect_asks show ?case by (simp add: calm_def cooling_def)
next
  case (effect_fails e a)
  then show ?case by (simp add: cooling_def)
next
  case (effect_strikes e a)
  then show ?case using struck_cooling by metis
next
  case (effect_serves e s')
  then show ?case using served_counters by (metis cooling_def)
qed


text \<open>A wrong solution that is read in time, by a relay that can count it.\<close>

fun wrong_solution :: "string \<Rightarrow> relay_event \<Rightarrow> bool" where
  "wrong_solution ip (Turns e a (AwaitSolution u seed challengeID dl) (Received sol)) =
     (a = ip \<and> now e \<le> dl \<and> m_Type sol = ''AUTH_CHALLENGE_SOLUTION'' \<and> \<not> solves challengeID seed sol \<and>
      \<not> fault e (Rdb OpRegisterChallengeStrike ip))"
| "wrong_solution ip _ = False"

lemma wrong_solution_strikes:
  assumes "wrong_solution ip w"
  obtains e where "env_of w = Some e" "occurs w s = registerChallengeStrikeForRejection e ip s"
    "\<not> fault e (Rdb OpRegisterChallengeStrike ip)"
proof -
  obtain e u seed c dl sol where w: "w = Turns e ip (AwaitSolution u seed c dl) (Received sol)" "now e \<le> dl"
      "m_Type sol = ''AUTH_CHALLENGE_SOLUTION''" "\<not> solves c seed sol" "\<not> fault e (Rdb OpRegisterChallengeStrike ip)"
    using assms by (elim wrong_solution.elims) auto
  then have "occurs w s = registerChallengeStrikeForRejection e ip s"
    by (auto simp: ServeWS_step_def read_by_def puzzle_solution_def solves_def puzzleStrips_def close_with_def)
  with w that show ?thesis by simp
qed

lemma wrong_solution_counts:
  assumes "wrong_solution ip w" "in_hour hour w"
  shows "strikes_of hour ip (occurs w s) = strikes_of hour ip s + 1"
proof -
  obtain e where e: "env_of w = Some e" "occurs w s = registerChallengeStrikeForRejection e ip s"
      "\<not> fault e (Rdb OpRegisterChallengeStrike ip)" by (rule wrong_solution_strikes [OF assms(1)])
  then show ?thesis using strike_counts [of e ip hour ip s] assms(2) by (simp add: in_hour_def)
qed

lemma cooling_refuses:
  assumes "cooling D ip s" "now e < D" "\<not> fault e (Rdb OpCheckChallengeCooldown ip)" "now e \<le> dl"
    and "spend_proof (globals e) ch m i" "puzzleRequiredForClient e (m_ClientCaps m) ip s"
  shows "\<exists>s'. ServeWS_step e ip (AwaitIssue ch m dl) (Received i) s = (Refused, [rejected ''challenge_cooldown''], s')"
proof -
  obtain x where x: "map_of (memoryChCooldown (rdb s)) ip = Some x" "D \<le> x" using assms(1) by (auto simp: cooling_def)
  have "map_of (filter (\<lambda>(k, until). \<not> until < now e) (memoryChCooldown (rdb s))) ip = Some x"
    by (rule pruned_cooling [OF x(1)]) (use x(2) assms(2) in simp)
  then have "fst (CheckChallengeCooldown e ip (rdb s)) = Inr True"
    using assms(2,3) x(2) by (simp add: CheckChallengeCooldown_def Let_def)
  moreover have "\<not> challengeUpgradeRequired e (m_ClientCaps m)"
    using assms(5) by (auto simp: spend_proof_def challengeUpgradeRequired_def)
  ultimately show ?thesis
    using assms(4-6) by (simp add: ServeWS_step_def read_by_def ServeWS_issue_def spend_proof_def Let_def on_stores close_with_def)
qed

text \<open>
  C31. Three wrong solutions of the puzzle from one address in one clock hour of the relay close its door for
  thirty minutes. The wrong solutions are turns of real handshakes of that address, read in time, with the wrong
  answer or the answer to another puzzle; between them and after them any other events occur, of any clients and
  addresses, the same one included, the first two gaps within the same clock hour (the key of the counter) and the
  rest within thirty minutes of the third strike. Then, until those thirty minutes are over, an issuance turn of that
  address that must pass the puzzle is refused with \<open>challenge_cooldown\<close>, without a puzzle to try. The three strikes
  must be counted, the cooldown stored and asked for without an outage of the key-value store.
\<close>

theorem three_strikes_cooldown:
  assumes "wrong_solution ip w1" "wrong_solution ip w2" "wrong_solution ip w3"
    and "\<forall>ev \<in> set (w1 # evs1 @ w2 # evs2 @ [w3]). in_hour hour ev" "0 \<le> strikes_of hour ip s"
    and "env_of w3 = Some e3" "\<not> fault e3 (Rdb OpSetChallengeCooldown ip)"
    and "\<And>ev e. ev \<in> set evs3 \<Longrightarrow> env_of ev = Some e \<Longrightarrow> now e3 \<le> now e \<and> now e \<le> now e3 + 30 * Minute"
    and "s' = run (w1 # evs1 @ w2 # evs2 @ w3 # evs3) s"
    and "now e < now e3 + 30 * Minute" "now e \<le> dl" "\<not> fault e (Rdb OpCheckChallengeCooldown ip)"
    and "spend_proof (globals e) ch m i" "puzzleRequiredForClient e (m_ClientCaps m) ip s'"
  shows "\<exists>s''. ServeWS_step e ip (AwaitIssue ch m dl) (Received i) s' = (Refused, [rejected ''challenge_cooldown''], s'')"
proof (rule cooling_refuses)
  define s1 where "s1 = run evs1 (occurs w1 s)"
  define s2 where "s2 = run evs2 (occurs w2 s1)"
  have "1 \<le> strikes_of hour ip s1"
    using run_strikes_of [of evs1 hour ip "occurs w1 s"] wrong_solution_counts [OF assms(1), of hour s] assms(4,5)
    by (simp add: s1_def)
  then have two: "2 \<le> strikes_of hour ip s2"
    using run_strikes_of [of evs2 hour ip "occurs w2 s1"] wrong_solution_counts [OF assms(2), of hour s1] assms(4)
    by (simp add: s2_def)
  obtain e' where "env_of w3 = Some e'" and w3: "occurs w3 s2 = registerChallengeStrikeForRejection e' ip s2"
      "\<not> fault e' (Rdb OpRegisterChallengeStrike ip)" by (rule wrong_solution_strikes [OF assms(3)])
  then have "e' = e3" "localFormat e3 ''2006010215'' (now e3) = hour" using assms(4,6) by (auto simp: in_hour_def)
  then have "cooling (now e3 + 30 * Minute) ip (occurs w3 s2)"
    using third_strike_arms [of e3 ip s2] w3 two assms(7) by (simp add: cooling_def)
  then have "cooling (now e3 + 30 * Minute) ip (run evs3 (occurs w3 s2))"
    by (rule run_keeps [where P = "cooling (now e3 + 30 * Minute) ip"])
      (use assms(8) in \<open>force intro: event_cooling\<close>)
  then show "cooling (now e3 + 30 * Minute) ip s'" by (simp add: assms(9) s1_def s2_def)
qed (use assms in simp_all)

definition wrong_turn :: "string \<Rightarrow> relay_event" where
  "wrong_turn ip = Turns puzzled_env ip (AwaitSolution ''u'' ''seed'' ''c'' Second)
     (Received (frame ''AUTH_CHALLENGE_SOLUTION''))"

theorem three_strikes_cooldown_witness:
  "\<exists>s''. ServeWS_step puzzled_env ''9.9.9.9'' (AwaitIssue ''c'' puzzled_auth Second) (Received demo_issue)
     (run [wrong_turn ''9.9.9.9'', wrong_turn ''8.8.8.8'', wrong_turn ''9.9.9.9'', Wakes puzzled_env,
           wrong_turn ''9.9.9.9'', Cleans puzzled_env] relay0) = (Refused, [rejected ''challenge_cooldown''], s'')"
proof (rule three_strikes_cooldown
    [where ?w1.0 = "wrong_turn ''9.9.9.9''" and ?w2.0 = "wrong_turn ''9.9.9.9''" and ?w3.0 = "wrong_turn ''9.9.9.9''" and
      ?evs1.0 = "[wrong_turn ''8.8.8.8'']" and ?evs2.0 = "[Wakes puzzled_env]" and ?evs3.0 = "[Cleans puzzled_env]" and
      ?e3.0 = puzzled_env and s = relay0 and hour = "''197001010000''"])
  have e: "fault puzzled_env op = False" "localFormat puzzled_env a b = ''197001010000''" "now puzzled_env = 0"
      "challengeMode (globals puzzled_env) = Always" for op a b
    by (simp_all add: puzzled_env_def demo_env_def env0_def)
  show "wrong_solution ''9.9.9.9'' (wrong_turn ''9.9.9.9'')" "wrong_solution ''9.9.9.9'' (wrong_turn ''9.9.9.9'')"
      "wrong_solution ''9.9.9.9'' (wrong_turn ''9.9.9.9'')" "env_of (wrong_turn ''9.9.9.9'') = Some puzzled_env"
    by (simp_all add: wrong_turn_def e solves_def frame_def time_units)
  show "puzzleRequiredForClient puzzled_env (m_ClientCaps puzzled_auth) ip s1" for ip s1
    by (simp add: puzzleRequiredForClient_def clientAdvertisesChallenge_def puzzled_auth_def e)
  show "0 \<le> strikes_of ''197001010000'' ''9.9.9.9'' relay0"
    by (simp add: strikes_of_def get0_def NewRedisClient_def)
  show "spend_proof (globals puzzled_env) ''c'' puzzled_auth demo_issue" by (rule puzzled_spend(1))
qed (auto simp: in_hour_def wrong_turn_def time_units puzzled_env_def demo_env_def env0_def)


section \<open>Failed validations and bans\<close>

text \<open>The credentials of a complete request: window in seconds, user, key, signature, time and signed text.\<close>

record credentials =
  cr_window :: int
  cr_user :: string
  cr_pubkey :: string
  cr_sig :: string
  cr_time :: int
  cr_text :: string

definition complete :: "bool \<Rightarrow> credentials \<Rightarrow> credentials option" where
  "complete ok c = (if ok then Some c else None)"

definition present :: "credentials \<Rightarrow> bool" where
  "present c = (cr_user c \<noteq> [] \<and> cr_pubkey c \<noteq> [] \<and> cr_sig c \<noteq> [])"

definition credentials_of :: "route \<Rightarrow> http_request \<Rightarrow> credentials option" where
  "credentials_of p r =
     (case p of
        PushRegister \<Rightarrow>
          (case rq_push r of
             None \<Rightarrow> None
           | Some q \<Rightarrow> let c = \<lparr>cr_window = 30, cr_user = pu_ID q, cr_pubkey = pu_Pubkey q, cr_sig = pu_Sig q,
               cr_time = pu_Timestamp q, cr_text = pu_ID q @ '':'' @ FormatInt (pu_Timestamp q) @ '':'' @ pu_Token q\<rparr>
             in complete (rq_Method r = ''POST'' \<and> pu_Token q \<noteq> [] \<and> present c \<and> pu_Timestamp q \<noteq> 0) c)
      | PushUnregister \<Rightarrow>
          (case rq_push r of
             None \<Rightarrow> None
           | Some q \<Rightarrow> let c = \<lparr>cr_window = 30, cr_user = pu_ID q, cr_pubkey = pu_Pubkey q, cr_sig = pu_Sig q,
               cr_time = pu_Timestamp q, cr_text = pu_ID q @ '':'' @ FormatInt (pu_Timestamp q)\<rparr>
             in complete (rq_Method r = ''POST'' \<and> present c \<and> pu_Timestamp q \<noteq> 0) c)
      | Entitlement \<Rightarrow>
          (case rq_entitlement r of
             None \<Rightarrow> None
           | Some q \<Rightarrow> let c = \<lparr>cr_window = 30, cr_user = er_UserID q, cr_pubkey = er_Pubkey q, cr_sig = er_Signature q,
               cr_time = er_Timestamp q, cr_text = er_UserID q @ '':'' @ FormatInt (er_Timestamp q)\<rparr>
             in complete (rq_Method r = ''POST'' \<and> present c \<and> er_Timestamp q \<noteq> 0) c)
      | IntegrityChallenge \<Rightarrow>
          (case rq_challenge r of
             None \<Rightarrow> None
           | Some q \<Rightarrow> complete (rq_Method r = ''POST'')
               \<lparr>cr_window = 60, cr_user = ic_UserID q, cr_pubkey = ic_Pubkey q, cr_sig = ic_Signature q,
                cr_time = ic_Timestamp q,
                cr_text = ''INTEGRITY_CHALLENGE:'' @ ic_UserID q @ '':'' @ FormatInt (ic_Timestamp q)\<rparr>)
      | IntegrityAttest \<Rightarrow>
          (case rq_attest r of
             None \<Rightarrow> None
           | Some q \<Rightarrow> complete (rq_Method r = ''POST'' \<and> ia_IntegrityToken q \<noteq> [])
               \<lparr>cr_window = 60, cr_user = ia_UserID q, cr_pubkey = ia_Pubkey q, cr_sig = ia_Signature q,
                cr_time = ia_Timestamp q,
                cr_text = ''INTEGRITY_ATTEST:'' @ ia_UserID q @ '':'' @ tokenHash (ia_IntegrityToken q) @ '':''
                  @ FormatInt (ia_Timestamp q)\<rparr>)
      | SocialWipe \<Rightarrow>
          (case rq_social r of
             None \<Rightarrow> None
           | Some q \<Rightarrow> let c = \<lparr>cr_window = 60, cr_user = so_ID q, cr_pubkey = so_Pubkey q, cr_sig = so_Sig q,
               cr_time = so_Timestamp q, cr_text = ''WILTKEY_SOCIAL_WIPE:'' @ so_ID q @ '':'' @ FormatInt (so_Timestamp q)\<rparr>
             in complete (rq_Method r = ''POST'' \<and> present c \<and> so_Timestamp q \<noteq> 0) c)
      | SocialBudget \<Rightarrow>
          (case ParseInt (rq_Query r ''timestamp'') of
             None \<Rightarrow> None
           | Some ts \<Rightarrow> let c = \<lparr>cr_window = 60, cr_user = rq_Query r ''user_id'', cr_pubkey = rq_Query r ''pubkey'',
               cr_sig = rq_Query r ''sig'', cr_time = ts,
               cr_text = ''WILTKEY_SOCIAL_BUDGET:'' @ rq_Query r ''user_id'' @ '':'' @ rq_Query r ''timestamp''\<rparr>
             in complete (rq_Method r = ''GET'' \<and> rq_Query r ''timestamp'' \<noteq> [] \<and> present c) c)
      | QueueStatus \<Rightarrow>
          (case ParseInt (rq_Query r ''timestamp'') of
             None \<Rightarrow> None
           | Some ts \<Rightarrow> let c = \<lparr>cr_window = 30, cr_user = rq_Query r ''id'', cr_pubkey = rq_Query r ''pubkey'',
               cr_sig = rq_Query r ''sig'', cr_time = ts, cr_text = rq_Query r ''id'' @ '':'' @ FormatInt ts\<rparr>
             in complete (rq_Method r = ''GET'' \<and> rq_Query r ''timestamp'' \<noteq> [] \<and> present c) c)
      | _ \<Rightarrow> None)"

text \<open>
  What counts as a failed validation: a timestamp outside the window, or a key in valid hex that does not hash to
  the user or did not sign the text.
\<close>

definition bad_credentials :: "env \<Rightarrow> credentials \<Rightarrow> bool" where
  "bad_credentials e c =
     (cr_window c < drift (now e) (cr_time c) \<or>
      DecodeString (cr_pubkey c) \<noteq> None \<and>
      \<not> signed_by e (cr_window c) (cr_user c) (cr_pubkey c) (cr_sig c) (cr_time c) (cr_text c))"

text \<open>
  A post to a queue: the proof of work is incomplete, for an unknown challenge, with a used number or wrong; or the
  voucher is missing, not valid or already used.
\<close>

definition bad_protection :: "env \<Rightarrow> http_request \<Rightarrow> relay \<Rightarrow> bool" where
  "bad_protection e r s =
     (case rq_post r of
        None \<Rightarrow> False
      | Some q \<Rightarrow>
          rq_Method r = ''POST'' \<and> pr_RecipientID q \<noteq> [] \<and> pr_Envelope q \<noteq> [] \<and>
          (let header = rq_Header r ''X-Wiltkey-Spam-Protection'' in
           if header = [] \<or> header = ''pow'' then
             pr_Challenge q = [] \<or> pr_Nonce q = 0 \<or>
             (case fst (GetPoWChallengeDifficulty e (pr_Challenge q) (rdb s)) of
                Inl _ \<Rightarrow> True
              | Inr difficulty \<Rightarrow>
                  fst (IsNonceUnique e (FormatInt (pr_Nonce q)) (rdb s)) \<noteq> Inr True \<or>
                  \<not> VerifyPoW (pr_Challenge q) (pr_Nonce q) (pr_Envelope q) difficulty)
           else if header = ''voucher'' then
             (case pr_Voucher q of
                None \<Rightarrow> True
              | Some v \<Rightarrow>
                  VerifyVoucher (ed_verify e) (now e) (pr_RecipientID q) v \<noteq> Inr True \<or>
                  fst (ConsumeVoucher e (Signature v) (Expiry v) (rdb s)) = Inr False)
           else False))"

definition invalid_request :: "route \<Rightarrow> env \<Rightarrow> http_request \<Rightarrow> relay \<Rightarrow> bool" where
  "invalid_request p e r s =
     (if p = QueuePost then bad_protection e r s
      else case credentials_of p r of
             None \<Rightarrow> False
           | Some c \<Rightarrow> bad_credentials e c \<and> (p = Entitlement \<longrightarrow> pg s \<noteq> None))"

text \<open>Every endpoint takes the penalty for such a request, from the state the middleware left.\<close>

lemma bad_checks:
  assumes "k < drift (now e) ts \<or> DecodeString pubkey \<noteq> None \<and> \<not> signed_by e k uid pubkey sig ts msg"
  shows "k = 30 \<Longrightarrow> pu_ID q = uid \<Longrightarrow> pu_Pubkey q = pubkey \<Longrightarrow> pu_Sig q = sig \<Longrightarrow> pu_Timestamp q = ts \<Longrightarrow>
      uid \<noteq> [] \<Longrightarrow> pubkey \<noteq> [] \<Longrightarrow> sig \<noteq> [] \<Longrightarrow> ts \<noteq> 0 \<Longrightarrow>
      \<exists>reason. verifyPushIdentity e ip q msg s = punish e ip reason s"
    and "k = 60 \<Longrightarrow> so_ID sq = uid \<Longrightarrow> so_Pubkey sq = pubkey \<Longrightarrow> so_Sig sq = sig \<Longrightarrow> so_Timestamp sq = ts \<Longrightarrow>
      uid \<noteq> [] \<Longrightarrow> pubkey \<noteq> [] \<Longrightarrow> sig \<noteq> [] \<Longrightarrow> ts \<noteq> 0 \<Longrightarrow>
      \<exists>reason. verifySocialIdentity e ip sq msg s = punish e ip reason s"
    and "k = 60 \<Longrightarrow> ParseInt tss = Some ts \<Longrightarrow> uid \<noteq> [] \<Longrightarrow> pubkey \<noteq> [] \<Longrightarrow> sig \<noteq> [] \<Longrightarrow> tss \<noteq> [] \<Longrightarrow>
      \<exists>reason. verifyQueryIdentity e ip uid pubkey tss sig msg s = punish e ip reason s"
    and "k = 30 \<Longrightarrow> ParseInt tss = Some ts \<Longrightarrow> uid \<noteq> [] \<Longrightarrow> pubkey \<noteq> [] \<Longrightarrow> sig \<noteq> [] \<Longrightarrow> tss \<noteq> [] \<Longrightarrow>
      msg = uid @ '':'' @ FormatInt ts \<Longrightarrow> \<exists>reason. verifyStatusIdentity e ip uid tss sig pubkey s = punish e ip reason s"
    and "k = 30 \<Longrightarrow> er_UserID eq = uid \<Longrightarrow> er_Pubkey eq = pubkey \<Longrightarrow> er_Signature eq = sig \<Longrightarrow> er_Timestamp eq = ts \<Longrightarrow>
      uid \<noteq> [] \<Longrightarrow> pubkey \<noteq> [] \<Longrightarrow> sig \<noteq> [] \<Longrightarrow> ts \<noteq> 0 \<Longrightarrow> msg = uid @ '':'' @ FormatInt ts \<Longrightarrow>
      \<exists>reason. verifyEntitlementIdentity e ip eq s = punish e ip reason s"
    and "k = 60 \<Longrightarrow> \<exists>reason. verifyIntegrityIdentity e ip uid pubkey sig ts msg s = punish e ip reason s"
  using assms
  by (auto simp: verifyPushIdentity_def verifySocialIdentity_def verifyQueryIdentity_def verifyStatusIdentity_def
      verifyEntitlementIdentity_def verifyIntegrityIdentity_def signed_by_iff GenerateUserID_def Let_def not_less)


lemma after_punish [simp]:
  "after_check (punish e ip reason s) body =
    ((400, RawJson (''{\"error\":\"Validation failed: '' @ reason @ ''\"}'')), registerIPFailure e ip s)"
  by (simp add: after_check_def punish_def handleValidationFailure_def)

definition penalised :: "env \<Rightarrow> string \<Rightarrow> relay \<Rightarrow> http_response \<times> relay \<Rightarrow> bool" where
  "penalised e ip s a =
     (\<exists>t. fst (fst a) = 400 \<and> snd a = registerIPFailure e ip t \<and> memoryFails (rdb t) = memoryFails (rdb s))"

lemma penalised_check: "\<exists>reason. c = punish e ip reason s \<Longrightarrow> penalised e ip s (after_check c body)"
  unfolding penalised_def by force

lemma penalised_protection:
  assumes "bad_protection e r s" shows "penalised e (clientIP r) s (handlePostQueue e r s)"
proof -
  let ?ip = "clientIP r" and ?header = "rq_Header r ''X-Wiltkey-Spam-Protection''"
  obtain q where q: "rq_post r = Some q" "rq_Method r = ''POST''" "pr_RecipientID q \<noteq> []" "pr_Envelope q \<noteq> []"
    using assms by (auto simp: bad_protection_def split: option.splits)
  have frame: "memoryFails (snd (GetPoWChallengeDifficulty e c d)) = memoryFails d"
      "memoryFails (snd (IsNonceUnique e c d)) = memoryFails d" "memoryFails (snd (ConsumeVoucher e c x d)) = memoryFails d"
      "fst (IsNonceUnique e c (snd (GetPoWChallengeDifficulty e c' d))) = fst (IsNonceUnique e c d)" for c c' x d
    by (simp_all add: GetPoWChallengeDifficulty_def IsNonceUnique_def ConsumeVoucher_def Let_def split: option.split)
  have "\<exists>reason t. spam_protection e ?ip ?header q s = punish e ?ip reason t \<and> memoryFails (rdb t) = memoryFails (rdb s)"
  proof (cases "?header = [] \<or> ?header = ''pow''")
    case True
    let ?d = "GetPoWChallengeDifficulty e (pr_Challenge q) (rdb s)"
    let ?n = "IsNonceUnique e (FormatInt (pr_Nonce q)) (snd ?d)"
    consider "pr_Challenge q = [] \<or> pr_Nonce q = 0"
      | "\<not> (pr_Challenge q = [] \<or> pr_Nonce q = 0)" "\<exists>err. fst ?d = Inl err"
      | "\<not> (pr_Challenge q = [] \<or> pr_Nonce q = 0)" "\<exists>k. fst ?d = Inr k" "fst ?n \<noteq> Inr True"
      | k where "\<not> (pr_Challenge q = [] \<or> pr_Nonce q = 0)" "fst ?d = Inr k" "fst ?n = Inr True"
          "\<not> VerifyPoW (pr_Challenge q) (pr_Nonce q) (pr_Envelope q) k"
      using assms True by (cases "fst ?d") (auto simp: bad_protection_def q frame(4))
    then have "\<exists>reason t. check_pow e ?ip q s = punish e ?ip reason t \<and> memoryFails (rdb t) = memoryFails (rdb s)"
    proof cases
      case 1
      then have "check_pow e ?ip q s = punish e ?ip ''missing pow fields'' s" by (simp add: check_pow_def)
      then show ?thesis by blast
    next
      case 2
      then have "check_pow e ?ip q s = punish e ?ip ''invalid/expired challenge'' (s\<lparr>rdb := snd ?d\<rparr>)"
        by (auto simp: check_pow_def on_stores)
      moreover have "memoryFails (rdb (s\<lparr>rdb := snd ?d\<rparr>)) = memoryFails (rdb s)" by (simp add: frame)
      ultimately show ?thesis by blast
    next
      case 3
      then have "check_pow e ?ip q s = punish e ?ip ''replay attack detected (used nonce)'' (s\<lparr>rdb := snd ?n\<rparr>)"
        by (auto simp: check_pow_def on_stores split: sum.split bool.split)
      moreover have "memoryFails (rdb (s\<lparr>rdb := snd ?n\<rparr>)) = memoryFails (rdb s)" by (simp add: frame)
      ultimately show ?thesis by blast
    next
      case 4
      then have "check_pow e ?ip q s = punish e ?ip ''incorrect proof of work'' (s\<lparr>rdb := snd ?n\<rparr>)"
        by (simp add: check_pow_def on_stores)
      moreover have "memoryFails (rdb (s\<lparr>rdb := snd ?n\<rparr>)) = memoryFails (rdb s)" by (simp add: frame)
      ultimately show ?thesis by blast
    qed
    moreover have "spam_protection e ?ip ?header q s = check_pow e ?ip q s" using True by (auto simp: spam_protection_def)
    ultimately show ?thesis by simp
  next
    case False
    then have v: "?header = ''voucher''" using assms by (auto simp: bad_protection_def q Let_def split: if_splits)
    have "\<exists>reason t. check_voucher e ?ip q s = punish e ?ip reason t \<and> memoryFails (rdb t) = memoryFails (rdb s)"
    proof (cases "pr_Voucher q")
      case None
      then have "check_voucher e ?ip q s = punish e ?ip ''missing voucher structure'' s" by (simp add: check_voucher_def)
      then show ?thesis by blast
    next
      case (Some w)
      let ?c = "ConsumeVoucher e (Signature w) (Expiry w) (rdb s)"
      consider err where "VerifyVoucher (ed_verify e) (now e) (pr_RecipientID q) w = Inl err"
        | "VerifyVoucher (ed_verify e) (now e) (pr_RecipientID q) w = Inr False"
        | "VerifyVoucher (ed_verify e) (now e) (pr_RecipientID q) w = Inr True" "fst ?c = Inr False"
        using assms Some by (cases "VerifyVoucher (ed_verify e) (now e) (pr_RecipientID q) w")
          (auto simp: bad_protection_def q v)
      then show ?thesis
      proof cases
        case (1 err)
        then have "check_voucher e ?ip q s = punish e ?ip err s" by (simp add: check_voucher_def Some)
        then show ?thesis by blast
      next
        case 2
        then have "check_voucher e ?ip q s = punish e ?ip ''invalid voucher'' s" by (simp add: check_voucher_def Some)
        then show ?thesis by blast
      next
        case 3
        then have "check_voucher e ?ip q s = punish e ?ip ''voucher already used or expired'' (s\<lparr>rdb := snd ?c\<rparr>)"
          by (simp add: check_voucher_def Some on_stores)
        moreover have "memoryFails (rdb (s\<lparr>rdb := snd ?c\<rparr>)) = memoryFails (rdb s)" by (simp add: frame)
        ultimately show ?thesis by blast
      qed
    qed
    with v show ?thesis by (simp add: spam_protection_def)
  qed
  then obtain reason t where sp: "spam_protection e ?ip ?header q s = punish e ?ip reason t"
      "memoryFails (rdb t) = memoryFails (rdb s)" by blast
  then show ?thesis by (auto simp: penalised_def handlePostQueue_def q)
qed

lemma penalised_endpoint:
  assumes "invalid_request p e r s" shows "penalised e (clientIP r) s (endpoint p e r s)"
proof (cases "p = QueuePost")
  case True
  then show ?thesis using assms penalised_protection by (simp add: invalid_request_def endpoint_def)
next
  case False
  then obtain c where c: "credentials_of p r = Some c" "bad_credentials e c" "p = Entitlement \<longrightarrow> pg s \<noteq> None"
    using assms by (auto simp: invalid_request_def split: option.splits)
  note credential_simps = credentials_of_def complete_def present_def bad_credentials_def Let_def endpoint_def
  show ?thesis
  proof (cases p)
    case QueueStatus
    with c show ?thesis
      by (auto simp: credential_simps handleQueueStatus_def intro!: penalised_check bad_checks(4) split: option.splits if_splits)
  next
    case PushRegister
    with c show ?thesis
      by (auto simp: credential_simps handlePushRegister_def intro!: penalised_check bad_checks(1) split: option.splits if_splits)
  next
    case PushUnregister
    with c show ?thesis
      by (auto simp: credential_simps handlePushUnregister_def intro!: penalised_check bad_checks(1) split: option.splits if_splits)
  next
    case Entitlement
    with c show ?thesis
      by (auto simp: credential_simps handlePostEntitlement_def intro!: penalised_check bad_checks(5) split: option.splits if_splits)
  next
    case IntegrityChallenge
    with c show ?thesis
      by (auto simp: credential_simps handleIntegrityChallenge_def intro!: penalised_check bad_checks(6) split: option.splits if_splits)
  next
    case IntegrityAttest
    with c show ?thesis
      by (auto simp: credential_simps handleIntegrityAttest_def intro!: penalised_check bad_checks(6) split: option.splits if_splits)
  next
    case SocialBudget
    with c show ?thesis
      by (auto simp: credential_simps handleGetSocialBudget_def intro!: penalised_check bad_checks(3) split: option.splits if_splits)
  next
    case SocialWipe
    with c show ?thesis
      by (auto simp: credential_simps handleSocialWipe_def intro!: penalised_check bad_checks(2) split: option.splits if_splits)
  qed (use c(1) False in \<open>simp_all add: credentials_of_def\<close>)
qed

text \<open>A failed validation: of a request that the middleware lets through, or of the signature of a socket.\<close>

fun fails_validation :: "string \<Rightarrow> relay_event \<Rightarrow> relay \<Rightarrow> bool" where
  "fails_validation ip (Requests e p r) s =
     (clientIP r = ip \<and> CheckIPBan e ip (rdb s) = Inr False \<and> fst (CheckIPRateLimit e ip 10 (rdb s)) = Inr True \<and>
      invalid_request p e r s)"
| "fails_validation ip (Turns e a (AwaitAuth ch dl) (Received m)) s =
     (a = ip \<and> now e \<le> dl \<and> m_Type m = ''AUTH'' \<and>
      VerifySignature (ed_verify e) (m_Pubkey m) (m_Signature m) (bytes_of (signed_payload ch m)) \<noteq> Inr True)"
| "fails_validation ip _ s = False"

lemma limited_reads [simp]:
  "fst (GetPoWChallengeDifficulty e c (snd (CheckIPRateLimit e' ip k r))) = fst (GetPoWChallengeDifficulty e c r)"
  "fst (IsNonceUnique e c (snd (CheckIPRateLimit e' ip k r))) = fst (IsNonceUnique e c r)"
  "fst (ConsumeVoucher e c x (snd (CheckIPRateLimit e' ip k r))) = fst (ConsumeVoucher e c x r)"
  by (simp_all add: CheckIPRateLimit_def GetPoWChallengeDifficulty_def IsNonceUnique_def ConsumeVoucher_def Let_def
      split: option.split)

lemma invalid_request_limited:
  "invalid_request p e r (s\<lparr>rdb := snd (CheckIPRateLimit e' ip k (rdb s))\<rparr>) = invalid_request p e r s"
  by (simp add: invalid_request_def bad_protection_def Let_def split: option.split sum.split)

lemma failed_validation:
  assumes "fails_validation ip ev s"
  shows "\<exists>e t. env_of ev = Some e \<and> occurs ev s = registerIPFailure e ip t \<and> memoryFails (rdb t) = memoryFails (rdb s)"
proof (cases ev)
  case (Requests e p r)
  let ?s1 = "s\<lparr>rdb := snd (CheckIPRateLimit e ip 10 (rdb s))\<rparr>"
  have a: "clientIP r = ip" "CheckIPBan e ip (rdb s) = Inr False" "fst (CheckIPRateLimit e ip 10 (rdb s)) = Inr True"
      "invalid_request p e r ?s1"
    using assms by (simp_all add: Requests invalid_request_limited)
  then have "occurs ev s = snd (endpoint p e r ?s1)"
    by (simp add: Requests serve_http_def rateLimitMiddleware_def on_stores)
  then show ?thesis
    using penalised_endpoint [OF a(4)] a(1) by (auto simp: penalised_def Requests CheckIPRateLimit_def Let_def)
next
  case (Turns e a ph input)
  then show ?thesis
    using assms by (cases ph; cases input) (auto simp: ServeWS_step_def ServeWS_auth_def read_by_def close_with_def)
qed (use assms in simp_all)

definition banned_until :: "int \<Rightarrow> string \<Rightarrow> relay \<Rightarrow> bool" where
  "banned_until D ip s = (\<exists>x. memoryBans (rdb s) ip = Some x \<and> D \<le> x)"

lemma failure_keeps_ban: "banned_until D ip s \<Longrightarrow> D \<le> now e + 5 * Minute \<Longrightarrow> banned_until D ip (registerIPFailure e a s)"
  by (auto simp: banned_until_def registerIPFailure_def on_stores IncrementIPFailure_def BanIP_def Let_def time_units
      split: option.split)

lemma served_keeps_ban:
  "served b L e s s' \<Longrightarrow> D \<le> now e + 5 * Minute \<Longrightarrow> banned_until D ip s \<Longrightarrow> banned_until D ip s'"
proof (induction rule: served.induct)
  case (served_rdb s s' r)
  then show ?case by (simp add: banned_until_def key_value_step_def)
next
  case (served_fail s s' a)
  then show ?case using failure_keeps_ban by blast
next
  case (served_grant s s' x u h)
  then show ?case
    by (auto simp: banned_until_def grant_entitlement_def on_stores rdb_StoreEntitlement_def split: sum.split)
qed (simp_all add: banned_until_def)

lemma event_keeps_ban:
  assumes "banned_until D ip s" "\<And>e. env_of ev = Some e \<Longrightarrow> D \<le> now e + 5 * Minute"
  shows "banned_until D ip (occurs ev s)"
  using event_effect [of ev s] assms
proof (induction rule: effect.cases)
  case (effect_asks e a s')
  then show ?case by (simp add: calm_def banned_until_def CheckChallengeCooldown_def Let_def split: if_splits)
next
  case (effect_fails e a)
  then show ?case using failure_keeps_ban by metis
next
  case (effect_strikes e a)
  then show ?case
    by (auto simp: banned_until_def registerChallengeStrikeForRejection_def on_stores RegisterChallengeStrike_def
        SetChallengeCooldown_def Let_def split: sum.split)
next
  case (effect_serves e s')
  then show ?case using served_keeps_ban by metis
qed (simp add: calm_def banned_until_def)

lemma banned_everywhere:
  assumes "banned_until D ip s" "clientIP r = ip" "now e \<le> D" "\<not> fault e (Rdb OpCheckIPBan ip)"
  shows "serve_http p e r s = (banned, s)"
    "ServeWS_open e r upgraded s = (Refused, if upgraded then [ws_error ''Banned''] else [], s)"
proof -
  have "CheckIPBan e ip (rdb s) = Inr True"
    using assms(1,3,4) by (auto simp: banned_until_def CheckIPBan_def)
  then show "serve_http p e r s = (banned, s)"
    "ServeWS_open e r upgraded s = (Refused, if upgraded then [ws_error ''Banned''] else [], s)"
    using assms(2) by (simp_all add: serve_http_def rateLimitMiddleware_def banned_def ServeWS_open_def)
qed

text \<open>How long a failure bans: five minutes, and thirty if it is not the first that the counter holds.\<close>

definition ban_length :: "env \<Rightarrow> string \<Rightarrow> relay \<Rightarrow> int" where
  "ban_length e ip s =
     (case memoryFails (rdb s) ip of
        Some v \<Rightarrow> if now e \<le> fail_expires v \<and> 1 \<le> fail_count v then 30 * Minute else 5 * Minute
      | None \<Rightarrow> 5 * Minute)"

text \<open>
  C22. A failed validation bans the peer, and no header lifts the ban. Let a request of a peer that is not the
  loopback proxy pass the ban and the rate limit and fail a validation at its endpoint: complete credentials with a
  stale timestamp, or with a key in valid hex that does not hash to the user or did not sign the text (the eight
  endpoints that check an identity), or a post to a queue with a bad proof of work or voucher; or let the first
  frame of its socket carry a bad signature. Then every request from that peer, to whatever route of
  \<open>serve_http\<close> and with whatever headers, query and body, is answered 403 and changes nothing, for five
  minutes, and for thirty if it was not the first failure of the hour. For five minutes this
  holds whatever happens in between (a later failure can only shorten a ban of thirty minutes to five of its own), and the
  socket endpoint refuses the peer too. The endpoint \<open>/ping\<close>, which has no middleware, still answers;
  missing fields and malformed hex or numbers are refused without a penalty. The key-value store must count the
  failure, store the ban and be asked for it without an outage.
\<close>

theorem failure_bans_peer:
  assumes "fails_validation h ev s" "env_of ev = Some e" "h \<notin> {''127.0.0.1'', ''::1''}"
    and "\<not> fault e (Rdb OpIncrementIPFailure h)" "\<not> fault e (Rdb OpBanIP h)"
    and "\<And>v. memoryFails (rdb s) h = Some v \<Longrightarrow> 0 \<le> fail_count v"
    and "\<And>ev' e'. ev' \<in> set evs \<Longrightarrow> env_of ev' = Some e' \<Longrightarrow> now e \<le> now e'"
    and "remote_host r' = h" "\<not> fault e' (Rdb OpCheckIPBan h)"
  shows "(now e' \<le> now e + ban_length e h s \<longrightarrow> serve_http p e' r' (occurs ev s) = (banned, occurs ev s)) \<and>
    (now e' \<le> now e + 5 * Minute \<longrightarrow>
       serve_http p e' r' (run (ev # evs) s) = (banned, run (ev # evs) s) \<and>
       ServeWS_open e' r' upgraded (run (ev # evs) s) =
         (Refused, if upgraded then [ws_error ''Banned''] else [], run (ev # evs) s))"
proof -
  have ip: "clientIP r' = h" using assms(3,8) clientIP_direct by auto
  obtain t where t: "occurs ev s = registerIPFailure e h t" "memoryFails (rdb t) = memoryFails (rdb s)"
    using failed_validation [OF assms(1)] assms(2) by auto
  have first: "banned_until (now e + ban_length e h s) h (occurs ev s)"
    using ban_after_failure [OF assms(4,5), of t] assms(6) t by (simp add: banned_until_def ban_length_def)
  moreover have "5 * Minute \<le> ban_length e h s" by (simp add: ban_length_def time_units split: option.split)
  ultimately have "banned_until (now e + 5 * Minute) h (occurs ev s)" unfolding banned_until_def by fastforce
  then have "banned_until (now e + 5 * Minute) h (run evs (occurs ev s))"
    by (rule run_keeps [where P = "banned_until (now e + 5 * Minute) h"]) (use assms(7) in \<open>force intro: event_keeps_ban\<close>)
  then show ?thesis
    using banned_everywhere [OF first ip _ assms(9)] banned_everywhere [OF _ ip _ assms(9)] by simp
qed

definition forged_unregister :: http_request where
  "forged_unregister = (peer_request ''9.9.9.9:80'')\<lparr>rq_Method := ''POST'', rq_push := Some
     \<lparr>pu_ID = ''victim'', pu_Pubkey = ''00'', pu_Timestamp = 1, pu_Sig = ''00'', pu_Token = [], pu_DeviceToken = []\<rparr>\<rparr>"

theorem failure_bans_peer_witness:
  "serve_http PowChallenge (env0\<lparr>now := Minute\<rparr>) (peer_request ''9.9.9.9:80'')
     (run [Requests env0 PushUnregister forged_unregister, Wakes env0] relay0) =
   (banned, run [Requests env0 PushUnregister forged_unregister, Wakes env0] relay0)"
proof -
  have h: "remote_host forged_unregister = ''9.9.9.9''"
    using SplitHostPort_plain [of "''9.9.9.9''" "''80''"] by (simp add: remote_host_def forged_unregister_def peer_request_def)
  have ip: "clientIP forged_unregister = ''9.9.9.9''" by (subst clientIP_direct) (simp_all add: h)
  have "GenerateUserID b \<noteq> ''victim''" for b
    using length_hexEncode [of "sha256 b"] by (auto simp: GenerateUserID_def simp del: length_hexEncode)
  moreover have "DecodeString ''00'' \<noteq> None" using fromHexChar_hexDigits [of 0] by (auto simp: hexDigits_def)
  ultimately have "bad_credentials env0 (the (credentials_of PushUnregister forged_unregister))"
    by (auto simp: bad_credentials_def credentials_of_def complete_def present_def forged_unregister_def signed_by_iff
        Let_def)
  then have "fails_validation ''9.9.9.9'' (Requests env0 PushUnregister forged_unregister) relay0"
    using ip by (simp add: invalid_request_def credentials_of_def complete_def present_def forged_unregister_def Let_def
        CheckIPBan_def CheckIPRateLimit_def NewRedisClient_def)
  from failure_bans_peer [OF this, of env0 "[Wakes env0]" "peer_request ''9.9.9.9:80''" "env0\<lparr>now := Minute\<rparr>" PowChallenge]
  show ?thesis using remote_host_peer by (simp add: NewRedisClient_def time_units)
qed

end
