(* ===== verification/Redis_Server.thy ===== *)
theory Redis_Server
  imports Redis_Client
begin

text \<open>
  The key-value client of redis.go on a Redis server: for every method the branch after
  \<open>if r.isMemory\<close>. The server and the client library are parameters: a record says what one command
  does to a state of any type, how a call over the network ends, and what \<open>encoding/json\<close> makes of a
  queue entry. What the documentation of the commands promises, and what follows for a
  server that keeps the promise, is in the theory \<open>Redis_Docs\<close>.
\<close>

section \<open>Commands and replies\<close>

text \<open>
  The commands the client sends. Expirations are Go durations. \<open>ZREMRANGEBYSCORE k s\<close> is the range
  from \<open>-inf\<close> up to, but without, the score \<open>s\<close>; \<open>ZREMRANGEBYRANK k j\<close> the ranks from 0 to \<open>j\<close>;
  \<open>ZCOUNT\<close> and \<open>ZRANGEBYSCORE\<close> the scores from \<open>s\<close> up to \<open>+inf\<close>.
\<close>

datatype redis_cmd =
    PING
  | FLUSHALL
  | GET string
  | SET string string int
  | SETNX string string int
  | DEL string
  | EXISTS string
  | INCRBY string int
  | EXPIRE string int
  | EXPIRENX string int
  | ZADD string int string
  | ZREMRANGEBYSCORE string int
  | ZREMRANGEBYRANK string int
  | ZCARD string
  | ZCOUNT string int
  | ZRANGEBYSCORE string int

datatype redis_reply = RNil | ROk | RInt int | RBulk string | RList "string list" | RErr string

text \<open>How a call ends: it arrives and is answered, it does not arrive, or its answer is lost.\<close>

datatype link_outcome = Answered | RequestLost | ReplyLost

record 'r redis_server =
  run_cmd :: "int \<Rightarrow> redis_cmd \<Rightarrow> 'r \<Rightarrow> redis_reply \<times> 'r"
  server_time :: "env \<Rightarrow> int"
  link :: "env \<Rightarrow> redis_cmd list \<Rightarrow> link_outcome"
  entry_text :: "queue_entry \<Rightarrow> string"
  entry_parse :: "string \<Rightarrow> (string \<rightharpoonup> string) option"

text \<open>A pipeline in a transaction runs as a whole; a command alone is one of length one.\<close>

fun run_cmds :: "'r redis_server \<Rightarrow> int \<Rightarrow> redis_cmd list \<Rightarrow> 'r \<Rightarrow> redis_reply list \<times> 'r" where
  "run_cmds R t [] r = ([], r)"
| "run_cmds R t (c # cs) r =
     (let (x, r1) = run_cmd R t c r; (xs, r2) = run_cmds R t cs r1 in (x # xs, r2))"

fun first_error :: "redis_reply list \<Rightarrow> string option" where
  "first_error [] = None"
| "first_error (RErr err # xs) = Some err"
| "first_error (x # xs) = first_error xs"

definition link_error :: go_error where "link_error = ''redis: connection refused''"
definition redis_Nil :: go_error where "redis_Nil = ''redis: nil''"
definition bad_reply :: go_error where "bad_reply = ''redis: unexpected reply''"

definition Exec :: "'r redis_server \<Rightarrow> env \<Rightarrow> redis_cmd list \<Rightarrow> 'r \<Rightarrow> redis_reply list result \<times> 'r" where
  "Exec R e cs r =
     (let (xs, r') = run_cmds R (server_time R e) cs r in
      (case link R e cs of
         RequestLost \<Rightarrow> (Inl link_error, r)
       | ReplyLost \<Rightarrow> (Inl link_error, r')
       | Answered \<Rightarrow> (case first_error xs of Some err \<Rightarrow> (Inl err, r') | None \<Rightarrow> (Inr xs, r'))))"

definition do_cmd :: "'r redis_server \<Rightarrow> env \<Rightarrow> redis_cmd \<Rightarrow> 'r \<Rightarrow> redis_reply result \<times> 'r" where
  "do_cmd R e c r =
     (case Exec R e [c] r of
        (Inl err, r') \<Rightarrow> (Inl err, r')
      | (Inr xs, r') \<Rightarrow> (Inr (hd xs), r'))"

text \<open>The typed results of the client library.\<close>

definition status_cmd :: "'r redis_server \<Rightarrow> env \<Rightarrow> redis_cmd \<Rightarrow> 'r \<Rightarrow> unit result \<times> 'r" where
  "status_cmd R e c r =
     (case do_cmd R e c r of (Inl err, r') \<Rightarrow> (Inl err, r') | (Inr _, r') \<Rightarrow> (Inr (), r'))"

definition int_of :: "redis_reply \<Rightarrow> int result" where
  "int_of x = (case x of RInt n \<Rightarrow> Inr n | _ \<Rightarrow> Inl bad_reply)"

definition int_cmd :: "'r redis_server \<Rightarrow> env \<Rightarrow> redis_cmd \<Rightarrow> 'r \<Rightarrow> int result \<times> 'r" where
  "int_cmd R e c r =
     (case do_cmd R e c r of (Inl err, r') \<Rightarrow> (Inl err, r') | (Inr x, r') \<Rightarrow> (int_of x, r'))"

definition list_cmd :: "'r redis_server \<Rightarrow> env \<Rightarrow> redis_cmd \<Rightarrow> 'r \<Rightarrow> string list result \<times> 'r" where
  "list_cmd R e c r =
     (case do_cmd R e c r of
        (Inl err, r') \<Rightarrow> (Inl err, r')
      | (Inr x, r') \<Rightarrow> ((case x of RList l \<Rightarrow> Inr l | _ \<Rightarrow> Inl bad_reply), r'))"

text \<open>\<open>Get\<close>: no value is the error \<open>redis.Nil\<close>, here \<open>None\<close>; most callers single it out.\<close>

definition get_cmd :: "'r redis_server \<Rightarrow> env \<Rightarrow> string \<Rightarrow> 'r \<Rightarrow> string option result \<times> 'r" where
  "get_cmd R e key r =
     (case do_cmd R e (GET key) r of
        (Inl err, r') \<Rightarrow> (Inl err, r')
      | (Inr x, r') \<Rightarrow> ((case x of RBulk v \<Rightarrow> Inr (Some v) | RNil \<Rightarrow> Inr None | _ \<Rightarrow> Inl bad_reply), r'))"

definition or_fail :: "go_error \<Rightarrow> string option result \<times> 'r \<Rightarrow> string result \<times> 'r" where
  "or_fail text a =
     (case a of
        (Inl err, r') \<Rightarrow> (Inl err, r')
      | (Inr None, r') \<Rightarrow> (Inl text, r')
      | (Inr (Some v), r') \<Rightarrow> (Inr v, r'))"

definition or_empty :: "string option result \<times> 'r \<Rightarrow> string result \<times> 'r" where
  "or_empty a = (case a of (Inl err, r') \<Rightarrow> (Inl err, r') | (Inr v, r') \<Rightarrow> (Inr (getstr v), r'))"

definition parse_int :: "string result \<times> 'r \<Rightarrow> int result \<times> 'r" where
  "parse_int a =
     (case a of
        (Inl err, r') \<Rightarrow> (Inl err, r')
      | (Inr v, r') \<Rightarrow> ((case ParseInt v of None \<Rightarrow> Inl ''strconv.Atoi: parsing'' | Some n \<Rightarrow> Inr n), r'))"

definition SetNX :: "'r redis_server \<Rightarrow> env \<Rightarrow> string \<Rightarrow> string \<Rightarrow> int \<Rightarrow> 'r \<Rightarrow> bool result \<times> 'r" where
  "SetNX R e key val ttl r =
     (case do_cmd R e (SETNX key val ttl) r of
        (Inl err, r') \<Rightarrow> (Inl err, r')
      | (Inr x, r') \<Rightarrow> ((case x of ROk \<Rightarrow> Inr True | RNil \<Rightarrow> Inr False | _ \<Rightarrow> Inl bad_reply), r'))"

text \<open>A counter and its expiry in one transaction; the new count.\<close>

definition count_up :: "'r redis_server \<Rightarrow> env \<Rightarrow> string \<Rightarrow> int \<Rightarrow> redis_cmd \<Rightarrow> 'r \<Rightarrow> int result \<times> 'r" where
  "count_up R e key n expire r =
     (case Exec R e [INCRBY key n, expire] r of
        (Inl err, r') \<Rightarrow> (Inl err, r')
      | (Inr xs, r') \<Rightarrow> (int_of (hd xs), r'))"

section \<open>The methods\<close>

definition NewRedisClient_srv :: "'r redis_server \<Rightarrow> env \<Rightarrow> 'r \<Rightarrow> bool \<times> 'r" where
  "NewRedisClient_srv R e r = (case status_cmd R e PING r of (Inl _, r') \<Rightarrow> (False, r') | (Inr _, r') \<Rightarrow> (True, r'))"

definition FlushAll_srv :: "'r redis_server \<Rightarrow> env \<Rightarrow> 'r \<Rightarrow> unit result \<times> 'r" where
  "FlushAll_srv R e r = status_cmd R e FLUSHALL r"

definition queue_key :: "string \<Rightarrow> string" where "queue_key u = ''queue:'' @ u"

definition queueTTL :: int where "queueTTL = 7 * 24 * Hour"

definition AddMessageToQueue_srv ::
  "'r redis_server \<Rightarrow> env \<Rightarrow> string \<Rightarrow> string \<Rightarrow> string \<Rightarrow> string \<Rightarrow> int \<Rightarrow> 'r \<Rightarrow> unit result \<times> 'r" where
  "AddMessageToQueue_srv R e recipientID senderID env contentType ttl r =
     (let queueEntry = entry_text R (senderID, env, contentType); key = queue_key recipientID in
      case Exec R e [ZADD key (unix (now e + ttl)) queueEntry, ZREMRANGEBYSCORE key (unix (now e)),
                     EXPIRE key queueTTL, ZCARD key] r of
        (Inl err, r') \<Rightarrow> (Inl err, r')
      | (Inr xs, r') \<Rightarrow>
          (case int_of (xs ! 3) of
             Inl err \<Rightarrow> (Inl err, r')
           | Inr n \<Rightarrow>
               if int maxQueueLen < n then status_cmd R e (ZREMRANGEBYRANK key (n - int maxQueueLen - 1)) r'
               else (Inr (), r')))"

text \<open>An entry as the caller reads it; a text that is no object counts as a bare envelope.\<close>

definition read_entry :: "'r redis_server \<Rightarrow> string \<Rightarrow> queue_entry" where
  "read_entry R raw =
     (case entry_parse R raw of
        None \<Rightarrow> ([], raw, [])
      | Some m \<Rightarrow> (getstr (m ''sender_id''), getstr (m ''envelope''), getstr (m ''content_type'')))"

definition FetchAndClearQueue_srv ::
  "'r redis_server \<Rightarrow> env \<Rightarrow> string \<Rightarrow> 'r \<Rightarrow> queue_entry list result \<times> 'r" where
  "FetchAndClearQueue_srv R e recipientID r =
     (case list_cmd R e (ZRANGEBYSCORE (queue_key recipientID) (unix (now e))) r of
        (Inl err, r1) \<Rightarrow> (Inl err, r1)
      | (Inr messages, r1) \<Rightarrow>
          (case status_cmd R e (DEL (queue_key recipientID)) r1 of
             (Inl err, r2) \<Rightarrow> (Inl err, r2)
           | (Inr _, r2) \<Rightarrow> (Inr (map (read_entry R) messages), r2)))"

definition GetActiveQueueCount_srv :: "'r redis_server \<Rightarrow> env \<Rightarrow> string \<Rightarrow> 'r \<Rightarrow> int result \<times> 'r" where
  "GetActiveQueueCount_srv R e recipientID r = int_cmd R e (ZCOUNT (queue_key recipientID) (unix (now e))) r"

text \<open>A text that is no object counts as notifiable here.\<close>

definition notifiable_entry :: "'r redis_server \<Rightarrow> string \<Rightarrow> bool" where
  "notifiable_entry R raw =
     (case entry_parse R raw of None \<Rightarrow> True | Some m \<Rightarrow> isNotifiable (getstr (m ''content_type'')))"

definition GetNotifiableQueueCount_srv :: "'r redis_server \<Rightarrow> env \<Rightarrow> string \<Rightarrow> 'r \<Rightarrow> nat result \<times> 'r" where
  "GetNotifiableQueueCount_srv R e recipientID r =
     (case list_cmd R e (ZRANGEBYSCORE (queue_key recipientID) (unix (now e))) r of
        (Inl err, r') \<Rightarrow> (Inl err, r')
      | (Inr entries, r') \<Rightarrow> (Inr (length (filter (notifiable_entry R) entries)), r'))"

definition BlockQueue_srv :: "'r redis_server \<Rightarrow> env \<Rightarrow> string \<Rightarrow> 'r \<Rightarrow> unit result \<times> 'r" where
  "BlockQueue_srv R e userID r = status_cmd R e (SET (''block:'' @ userID) ''1'' nukeBlockTTL) r"

definition UnblockQueue_srv :: "'r redis_server \<Rightarrow> env \<Rightarrow> string \<Rightarrow> 'r \<Rightarrow> unit result \<times> 'r" where
  "UnblockQueue_srv R e userID r = status_cmd R e (DEL (''block:'' @ userID)) r"

definition exists_cmd :: "'r redis_server \<Rightarrow> env \<Rightarrow> string \<Rightarrow> 'r \<Rightarrow> bool result \<times> 'r" where
  "exists_cmd R e key r =
     (case int_cmd R e (EXISTS key) r of (Inl err, r') \<Rightarrow> (Inl err, r') | (Inr n, r') \<Rightarrow> (Inr (0 < n), r'))"

definition IsQueueBlocked_srv :: "'r redis_server \<Rightarrow> env \<Rightarrow> string \<Rightarrow> 'r \<Rightarrow> bool result \<times> 'r" where
  "IsQueueBlocked_srv R e userID r = exists_cmd R e (''block:'' @ userID) r"

definition SetPushToken_srv :: "'r redis_server \<Rightarrow> env \<Rightarrow> string \<Rightarrow> string \<Rightarrow> 'r \<Rightarrow> unit result \<times> 'r" where
  "SetPushToken_srv R e userID token r = status_cmd R e (SET (''push:'' @ userID) token (60 * 24 * Hour)) r"

definition GetPushToken_srv :: "'r redis_server \<Rightarrow> env \<Rightarrow> string \<Rightarrow> 'r \<Rightarrow> string result \<times> 'r" where
  "GetPushToken_srv R e userID r = or_empty (get_cmd R e (''push:'' @ userID) r)"

definition DeletePushToken_srv :: "'r redis_server \<Rightarrow> env \<Rightarrow> string \<Rightarrow> 'r \<Rightarrow> unit result \<times> 'r" where
  "DeletePushToken_srv R e userID r = status_cmd R e (DEL (''push:'' @ userID)) r"

definition StorePoWChallenge_srv :: "'r redis_server \<Rightarrow> env \<Rightarrow> string \<Rightarrow> int \<Rightarrow> 'r \<Rightarrow> unit result \<times> 'r" where
  "StorePoWChallenge_srv R e challenge difficulty r =
     status_cmd R e (SET (''pow:challenge:'' @ challenge) (FormatInt difficulty) (5 * Minute)) r"

text \<open>The answer of the deletion is not looked at.\<close>

definition GetPoWChallengeDifficulty_srv :: "'r redis_server \<Rightarrow> env \<Rightarrow> string \<Rightarrow> 'r \<Rightarrow> int result \<times> 'r" where
  "GetPoWChallengeDifficulty_srv R e challenge r =
     (case parse_int (or_fail ''challenge expired or invalid'' (get_cmd R e (''pow:challenge:'' @ challenge) r)) of
        (Inl err, r1) \<Rightarrow> (Inl err, r1)
      | (Inr n, r1) \<Rightarrow> (Inr n, snd (status_cmd R e (DEL (''pow:challenge:'' @ challenge)) r1)))"

definition IsNonceUnique_srv :: "'r redis_server \<Rightarrow> env \<Rightarrow> string \<Rightarrow> 'r \<Rightarrow> bool result \<times> 'r" where
  "IsNonceUnique_srv R e nonce r = SetNX R e (''pow:nonce:'' @ nonce) ''1'' (10 * Minute) r"

definition at_most :: "int \<Rightarrow> int result \<times> 'r \<Rightarrow> bool result \<times> 'r" where
  "at_most limit a = (case a of (Inl err, r') \<Rightarrow> (Inl err, r') | (Inr n, r') \<Rightarrow> (Inr (n \<le> limit), r'))"

definition AllowNuke_srv :: "'r redis_server \<Rightarrow> env \<Rightarrow> string \<Rightarrow> int \<Rightarrow> 'r \<Rightarrow> bool result \<times> 'r" where
  "AllowNuke_srv R e senderID limit r =
     at_most limit (count_up R e (''nukerate:'' @ senderID) 1 (EXPIRE (''nukerate:'' @ senderID) Hour) r)"

definition AllowLargeUpload_srv :: "'r redis_server \<Rightarrow> env \<Rightarrow> string \<Rightarrow> int \<Rightarrow> 'r \<Rightarrow> bool result \<times> 'r" where
  "AllowLargeUpload_srv R e senderID cooldown r = SetNX R e (''largeup:'' @ senderID) ''1'' cooldown r"

definition AllowAction_srv :: "'r redis_server \<Rightarrow> env \<Rightarrow> string \<Rightarrow> int \<Rightarrow> 'r \<Rightarrow> bool result \<times> 'r" where
  "AllowAction_srv R e key cooldown r = SetNX R e key ''1'' cooldown r"

definition ConsumeVoucher_srv :: "'r redis_server \<Rightarrow> env \<Rightarrow> string \<Rightarrow> int \<Rightarrow> 'r \<Rightarrow> bool result \<times> 'r" where
  "ConsumeVoucher_srv R e sig expiryUnix r =
     (let ttl = time_Until (now e) (time_Unix expiryUnix) in
      if ttl \<le> 0 then (Inr False, r) else SetNX R e (''voucher:used:'' @ sig) ''1'' ttl r)"

definition CheckIPBan_srv :: "'r redis_server \<Rightarrow> env \<Rightarrow> string \<Rightarrow> 'r \<Rightarrow> bool result \<times> 'r" where
  "CheckIPBan_srv R e ip r = exists_cmd R e (''ban:'' @ ip) r"

definition BanIP_srv :: "'r redis_server \<Rightarrow> env \<Rightarrow> string \<Rightarrow> int \<Rightarrow> 'r \<Rightarrow> unit result \<times> 'r" where
  "BanIP_srv R e ip duration r = status_cmd R e (SET (''ban:'' @ ip) ''1'' duration) r"

definition IncrementIPFailure_srv :: "'r redis_server \<Rightarrow> env \<Rightarrow> string \<Rightarrow> 'r \<Rightarrow> int result \<times> 'r" where
  "IncrementIPFailure_srv R e ip r = count_up R e (''fail:'' @ ip) 1 (EXPIRE (''fail:'' @ ip) (1 * Hour)) r"

definition CheckIPRateLimit_srv :: "'r redis_server \<Rightarrow> env \<Rightarrow> string \<Rightarrow> int \<Rightarrow> 'r \<Rightarrow> bool result \<times> 'r" where
  "CheckIPRateLimit_srv R e ip limit r =
     (let key = ''rate:'' @ ip @ '':'' @ localFormat e ''200601021504'' (now e)
      in at_most limit (count_up R e key 1 (EXPIRE key (60 * Second)) r))"

definition AllowIssuance_srv :: "'r redis_server \<Rightarrow> env \<Rightarrow> string \<Rightarrow> int \<Rightarrow> 'r \<Rightarrow> bool result \<times> 'r" where
  "AllowIssuance_srv R e ip maxPerDay r =
     (let key = ''issuance:'' @ ip @ '':'' @ localFormat e ''20060102'' (now e)
      in at_most maxPerDay (count_up R e key 1 (EXPIRENX key (48 * Hour)) r))"

definition IssuanceCountToday_srv :: "'r redis_server \<Rightarrow> env \<Rightarrow> string \<Rightarrow> 'r \<Rightarrow> int result \<times> 'r" where
  "IssuanceCountToday_srv R e ip r =
     parse_int (or_fail redis_Nil (get_cmd R e (''issuance:'' @ ip @ '':'' @ localFormat e ''20060102'' (now e)) r))"

definition RegisterChallengeStrike_srv :: "'r redis_server \<Rightarrow> env \<Rightarrow> string \<Rightarrow> 'r \<Rightarrow> int result \<times> 'r" where
  "RegisterChallengeStrike_srv R e ip r =
     (let key = ''chstrike:'' @ ip @ '':'' @ localFormat e ''2006010215'' (now e)
      in count_up R e key 1 (EXPIRENX key (2 * Hour)) r)"

text \<open>An error comes with the answer false.\<close>

definition CheckChallengeCooldown_srv :: "'r redis_server \<Rightarrow> env \<Rightarrow> string \<Rightarrow> 'r \<Rightarrow> bool result \<times> 'r" where
  "CheckChallengeCooldown_srv R e ip r = exists_cmd R e (''chcooldown:'' @ ip) r"

definition SetChallengeCooldown_srv :: "'r redis_server \<Rightarrow> env \<Rightarrow> string \<Rightarrow> int \<Rightarrow> 'r \<Rightarrow> unit result \<times> 'r" where
  "SetChallengeCooldown_srv R e ip duration r = status_cmd R e (SET (''chcooldown:'' @ ip) ''1'' duration) r"

definition StorePairing_srv :: "'r redis_server \<Rightarrow> env \<Rightarrow> string \<Rightarrow> string \<Rightarrow> int \<Rightarrow> 'r \<Rightarrow> unit result \<times> 'r" where
  "StorePairing_srv R e pin data ttl r = status_cmd R e (SET (''pair:'' @ pin) data ttl) r"

definition GetPairing_srv :: "'r redis_server \<Rightarrow> env \<Rightarrow> string \<Rightarrow> 'r \<Rightarrow> string result \<times> 'r" where
  "GetPairing_srv R e pin r = or_fail ''pairing expired or invalid'' (get_cmd R e (''pair:'' @ pin) r)"

definition DeletePairing_srv :: "'r redis_server \<Rightarrow> env \<Rightarrow> string \<Rightarrow> 'r \<Rightarrow> unit result \<times> 'r" where
  "DeletePairing_srv R e pin r = status_cmd R e (DEL (''pair:'' @ pin)) r"

definition status_of :: "redis_reply list result \<times> 'r \<Rightarrow> unit result \<times> 'r" where
  "status_of a = (case a of (Inl err, r') \<Rightarrow> (Inl err, r') | (Inr _, r') \<Rightarrow> (Inr (), r'))"

definition CreateTunnel_srv :: "'r redis_server \<Rightarrow> env \<Rightarrow> string \<Rightarrow> string \<Rightarrow> int \<Rightarrow> 'r \<Rightarrow> unit result \<times> 'r" where
  "CreateTunnel_srv R e pubkeyA pubkeyB ttl r =
     status_of (Exec R e [SET (''tunnel:'' @ pubkeyA) pubkeyB ttl, SET (''tunnel:'' @ pubkeyB) pubkeyA ttl] r)"

definition GetTunnelPartner_srv :: "'r redis_server \<Rightarrow> env \<Rightarrow> string \<Rightarrow> 'r \<Rightarrow> string result \<times> 'r" where
  "GetTunnelPartner_srv R e pubkey r = or_fail ''tunnel not found'' (get_cmd R e (''tunnel:'' @ pubkey) r)"

definition IncrementTunnelBytes_srv :: "'r redis_server \<Rightarrow> env \<Rightarrow> string \<Rightarrow> int \<Rightarrow> 'r \<Rightarrow> int result \<times> 'r" where
  "IncrementTunnelBytes_srv R e tunnelID bytes r =
     count_up R e (''tunnel_bytes:'' @ tunnelID) bytes (EXPIRE (''tunnel_bytes:'' @ tunnelID) (1 * Hour)) r"

definition DeleteTunnel_srv :: "'r redis_server \<Rightarrow> env \<Rightarrow> string \<Rightarrow> string \<Rightarrow> 'r \<Rightarrow> unit result \<times> 'r" where
  "DeleteTunnel_srv R e pubkeyA pubkeyB r =
     status_of (Exec R e [DEL (''tunnel:'' @ pubkeyA), DEL (''tunnel:'' @ pubkeyB),
       DEL (''tunnel_bytes:'' @ pubkeyA @ '':'' @ pubkeyB), DEL (''tunnel_bytes:'' @ pubkeyB @ '':'' @ pubkeyA)] r)"

definition StoreFileToken_srv :: "'r redis_server \<Rightarrow> env \<Rightarrow> string \<Rightarrow> string \<Rightarrow> string \<Rightarrow> 'r \<Rightarrow> unit result \<times> 'r" where
  "StoreFileToken_srv R e token messageID userID r =
     status_cmd R e (SET (''filetok:'' @ token) (messageID @ '':'' @ userID) fileTokenTTL) r"

definition GetFileToken_srv :: "'r redis_server \<Rightarrow> env \<Rightarrow> string \<Rightarrow> 'r \<Rightarrow> (string \<times> string) result \<times> 'r" where
  "GetFileToken_srv R e token r =
     (case get_cmd R e (''filetok:'' @ token) r of
        (Inl err, r') \<Rightarrow> (Inl err, r')
      | (Inr None, r') \<Rightarrow> (Inr ([], []), r')
      | (Inr (Some val), r') \<Rightarrow>
          (case LastIndex val (CHR '':'') of
             None \<Rightarrow> (Inr ([], []), r')
           | Some idx \<Rightarrow> (Inr (take idx val, drop (idx + 1) val), r')))"

definition StoreEntitlement_srv :: "'r redis_server \<Rightarrow> env \<Rightarrow> string \<Rightarrow> string \<Rightarrow> int \<Rightarrow> 'r \<Rightarrow> unit result \<times> 'r" where
  "StoreEntitlement_srv R e userID hash ttl r = status_cmd R e (SET (''entitlement:'' @ userID) hash ttl) r"

definition GetEntitlementHash_srv :: "'r redis_server \<Rightarrow> env \<Rightarrow> string \<Rightarrow> 'r \<Rightarrow> string result \<times> 'r" where
  "GetEntitlementHash_srv R e userID r = or_empty (get_cmd R e (''entitlement:'' @ userID) r)"

definition StoreIntegrityNonce_srv :: "'r redis_server \<Rightarrow> env \<Rightarrow> string \<Rightarrow> string \<Rightarrow> int \<Rightarrow> 'r \<Rightarrow> unit result \<times> 'r" where
  "StoreIntegrityNonce_srv R e keyHash nonce ttl r = status_cmd R e (SET (''integrity:nonce:'' @ keyHash) nonce ttl) r"

definition GetIntegrityNonce_srv :: "'r redis_server \<Rightarrow> env \<Rightarrow> string \<Rightarrow> 'r \<Rightarrow> string result \<times> 'r" where
  "GetIntegrityNonce_srv R e keyHash r = or_empty (get_cmd R e (''integrity:nonce:'' @ keyHash) r)"

definition DeleteIntegrityNonce_srv :: "'r redis_server \<Rightarrow> env \<Rightarrow> string \<Rightarrow> 'r \<Rightarrow> unit result \<times> 'r" where
  "DeleteIntegrityNonce_srv R e keyHash r = status_cmd R e (DEL (''integrity:nonce:'' @ keyHash)) r"

end
