(* ===== verification/Redis_Docs.thy ===== *)
theory Redis_Docs
  imports Redis_Server Ws_Auth "HOL-Library.Char_ord" "HOL-Library.List_Lexorder" "HOL-Library.Product_Lexorder"
begin

text \<open>
  The documented behaviour of the Redis commands, as a function on databases, what it means that a
  server keeps to it, and what then holds of the methods of the client: its gates and counters on a
  server.
\<close>

section \<open>Databases\<close>

text \<open>
  A sorted set is the ascending list of its members with their scores; the order is that of the
  scores and, between equal scores, that of the bytes of the members.
\<close>

datatype redis_value = RStr string | RZset "(int \<times> string) list"

type_synonym redis_entry = "redis_value \<times> int option"
type_synonym redis_db = "string \<Rightarrow> redis_entry option"

definition alive :: "int \<Rightarrow> redis_entry option \<Rightarrow> redis_entry option" where
  "alive t x = (case x of Some (v, Some d) \<Rightarrow> if t < d then x else None | _ \<Rightarrow> x)"

text \<open>The expiry the client library asks for: whole seconds as such, anything else in milliseconds.\<close>

definition Millisecond :: int where "Millisecond = 1000000"

definition px :: "int \<Rightarrow> int" where
  "px dur = (if dur mod Second = 0 then dur
             else if dur < Millisecond then Millisecond else dur div Millisecond * Millisecond)"

definition with_zset :: "int \<Rightarrow> string \<Rightarrow> redis_db \<Rightarrow> ((int \<times> string) list \<Rightarrow> redis_reply \<times> (int \<times> string) list) \<Rightarrow>
    redis_reply \<times> redis_db" where
  "with_zset t k D f =
     (let (z, d) = (case alive t (D k) of Some (RZset z, d) \<Rightarrow> (z, d) | _ \<Rightarrow> ([], None));
          (x, z') = f z
      in case alive t (D k) of
           Some (RStr _, _) \<Rightarrow> (RErr ''WRONGTYPE'', D)
         | _ \<Rightarrow> (x, D(k := (if z' = [] then None else Some (RZset z', d)))))"

definition zset_put :: "int \<Rightarrow> string \<Rightarrow> (int \<times> string) list \<Rightarrow> (int \<times> string) list" where
  "zset_put s m z = insort (s, m) (filter (\<lambda>(_, m'). m' \<noteq> m) z)"

fun redis_doc :: "int \<Rightarrow> redis_cmd \<Rightarrow> redis_db \<Rightarrow> redis_reply \<times> redis_db" where
  "redis_doc t PING D = (RBulk ''PONG'', D)"
| "redis_doc t FLUSHALL D = (ROk, Map.empty)"
| "redis_doc t (GET k) D =
     (case alive t (D k) of
        None \<Rightarrow> (RNil, D)
      | Some (RStr v, _) \<Rightarrow> (RBulk v, D)
      | Some (RZset _, _) \<Rightarrow> (RErr ''WRONGTYPE'', D))"
| "redis_doc t (SET k v dur) D = (ROk, D(k \<mapsto> (RStr v, if 0 < dur then Some (t + px dur) else None)))"
| "redis_doc t (SETNX k v dur) D =
     (if dur < 0 then (RErr ''ERR invalid expire time'', D)
      else if alive t (D k) \<noteq> None then (RNil, D)
      else (ROk, D(k \<mapsto> (RStr v, if 0 < dur then Some (t + px dur) else None))))"
| "redis_doc t (DEL k) D = (RInt (if alive t (D k) = None then 0 else 1), D(k := None))"
| "redis_doc t (EXISTS k) D = (RInt (if alive t (D k) = None then 0 else 1), D)"
| "redis_doc t (INCRBY k n) D =
     (case alive t (D k) of
        None \<Rightarrow> (RInt n, D(k \<mapsto> (RStr (FormatInt n), None)))
      | Some (RStr v, d) \<Rightarrow>
          (case ParseInt v of
             None \<Rightarrow> (RErr ''ERR value is not an integer'', D)
           | Some m \<Rightarrow> if int64 (m + n) then (RInt (m + n), D(k \<mapsto> (RStr (FormatInt (m + n)), d)))
                       else (RErr ''ERR increment would overflow'', D))
      | Some (RZset _, _) \<Rightarrow> (RErr ''WRONGTYPE'', D))"
| "redis_doc t (EXPIRE k dur) D =
     (case alive t (D k) of
        None \<Rightarrow> (RInt 0, D)
      | Some (v, _) \<Rightarrow> (RInt 1, D(k := (if dur \<le> 0 then None else Some (v, Some (t + px dur))))))"
| "redis_doc t (EXPIRENX k dur) D =
     (case alive t (D k) of
        Some (v, None) \<Rightarrow> (RInt 1, D(k := (if dur \<le> 0 then None else Some (v, Some (t + px dur)))))
      | _ \<Rightarrow> (RInt 0, D))"
| "redis_doc t (ZADD k s m) D =
     with_zset t k D (\<lambda>z. (RInt (if m \<in> snd ` set z then 0 else 1), zset_put s m z))"
| "redis_doc t (ZREMRANGEBYSCORE k s) D =
     with_zset t k D (\<lambda>z. (RInt (int (length (filter (\<lambda>(x, _). x < s) z))), filter (\<lambda>(x, _). \<not> x < s) z))"
| "redis_doc t (ZREMRANGEBYRANK k j) D =
     with_zset t k D (\<lambda>z. let n = nat (if j < 0 then int (length z) + j + 1 else j + 1)
                           in (RInt (int (min n (length z))), drop n z))"
| "redis_doc t (ZCARD k) D = with_zset t k D (\<lambda>z. (RInt (int (length z)), z))"
| "redis_doc t (ZCOUNT k s) D =
     with_zset t k D (\<lambda>z. (RInt (int (length (filter (\<lambda>(x, _). s \<le> x) z))), z))"
| "redis_doc t (ZRANGEBYSCORE k s) D =
     with_zset t k D (\<lambda>z. (RList (map snd (filter (\<lambda>(x, _). s \<le> x) z)), z))"

text \<open>Two databases that nobody can tell apart from \<open>t\<close> on: expired entries do not count.\<close>

definition same_from :: "int \<Rightarrow> redis_db \<Rightarrow> redis_db \<Rightarrow> bool" where
  "same_from t D D' = (\<forall>t' k. t \<le> t' \<longrightarrow> alive t' (D k) = alive t' (D' k))"

text \<open>A server that does what the documentation says, seen through the abstraction \<open>db\<close> of its states.\<close>

locale redis_server =
  fixes R :: "'r redis_server" and db :: "'r \<Rightarrow> redis_db"
  assumes documented: "run_cmd R t c r = (x, r') \<Longrightarrow>
    fst (redis_doc t c (db r)) = x \<and> same_from t (snd (redis_doc t c (db r))) (db r')"

lemma same_from_refl [simp]: "same_from t D D"
  by (simp add: same_from_def)

lemma same_from_trans: "same_from t D D' \<Longrightarrow> same_from t D' D'' \<Longrightarrow> same_from t D D''"
  by (simp add: same_from_def)

lemma same_fromD: "same_from t D D' \<Longrightarrow> t \<le> t' \<Longrightarrow> alive t' (D' k) = alive t' (D k)"
  by (simp add: same_from_def)

lemma same_from_later: "same_from t D D' \<Longrightarrow> t \<le> t' \<Longrightarrow> same_from t' D D'"
  by (simp add: same_from_def)

lemma alive_Some: "alive t x = Some y \<longleftrightarrow> x = Some y \<and> (\<forall>d. snd y = Some d \<longrightarrow> t < d)"
  by (cases y) (auto simp: alive_def split: option.splits prod.splits if_splits)

lemma alive_later: "alive t x = None \<Longrightarrow> t \<le> t' \<Longrightarrow> alive t' x = None"
  by (auto simp: alive_def split: option.splits prod.splits if_splits)

lemma alive_None [simp]: "alive t None = None"
  by (simp add: alive_def)

lemma px_pos: "0 < dur \<Longrightarrow> 0 < px dur"
  by (auto simp: px_def Millisecond_def Second_def pos_imp_zdiv_pos_iff)

lemma px_near:
  assumes "0 < dur"
  shows "dur - Millisecond < px dur"
proof -
  have "0 < Millisecond" by (simp add: Millisecond_def)
  then have "dur - Millisecond < dur div Millisecond * Millisecond"
    using pos_mod_bound [of Millisecond dur] div_mult_mod_eq [of dur Millisecond] by linarith
  then show ?thesis using assms \<open>0 < Millisecond\<close> by (simp add: px_def)
qed

lemma px_hours [simp]: "px Hour = Hour" "px (n * Hour) = n * Hour"
  by (simp_all add: px_def time_units)

text \<open>A command looks at its key as it is alive, so expired entries do not matter to it.\<close>

lemma same_from_upd: "same_from t D D' \<Longrightarrow> same_from t (D(k := x)) (D'(k := x))"
  by (simp add: same_from_def)

lemma with_zset_cong:
  assumes "same_from t D D'"
  shows "fst (with_zset t k D f) = fst (with_zset t k D' f) \<and> same_from t (snd (with_zset t k D f)) (snd (with_zset t k D' f))"
  using assms same_fromD [OF assms order.refl, of k] same_from_upd [OF assms]
  by (auto simp: with_zset_def Let_def split: option.splits redis_value.splits prod.splits)

lemma redis_doc_cong:
  assumes "same_from t D D'"
  shows "fst (redis_doc t c D) = fst (redis_doc t c D') \<and> same_from t (snd (redis_doc t c D)) (snd (redis_doc t c D'))"
proof -
  have a: "alive t (D' k) = alive t (D k)" for k using same_fromD [OF assms] by simp
  show ?thesis
    using assms with_zset_cong [OF assms] same_from_upd [OF assms]
    by (cases c) (auto simp: a split: option.splits redis_value.splits prod.splits)
qed

fun doc_cmds :: "int \<Rightarrow> redis_cmd list \<Rightarrow> redis_db \<Rightarrow> redis_reply list \<times> redis_db" where
  "doc_cmds t [] D = ([], D)"
| "doc_cmds t (c # cs) D =
     (let (x, D1) = redis_doc t c D; (xs, D2) = doc_cmds t cs D1 in (x # xs, D2))"

lemma doc_cmds_cong:
  "same_from t D D' \<Longrightarrow> fst (doc_cmds t cs D) = fst (doc_cmds t cs D') \<and>
     same_from t (snd (doc_cmds t cs D)) (snd (doc_cmds t cs D'))"
proof (induction cs arbitrary: D D')
  case (Cons c cs)
  from redis_doc_cong [OF Cons.prems, of c] Cons.IH show ?case by (simp add: Let_def split: prod.splits) fastforce
qed simp

lemma doc_cmds_single [simp]: "doc_cmds t [c] D = ([fst (redis_doc t c D)], snd (redis_doc t c D))"
  by (simp del: redis_doc.simps split: prod.splits)

text \<open>
  What a call returns and leaves: nothing has happened, or the commands were executed as documented;
  an answer is the documented one.
\<close>

context redis_server
begin

lemma cmds_documented:
  "run_cmds R t cs r = (xs, r') \<Longrightarrow> fst (doc_cmds t cs (db r)) = xs \<and> same_from t (snd (doc_cmds t cs (db r))) (db r')"
proof (induction cs arbitrary: r xs r')
  case (Cons c cs)
  obtain x r1 ys where 1: "run_cmd R t c r = (x, r1)" "run_cmds R t cs r1 = (ys, r')" "xs = x # ys"
    using Cons.prems by (auto simp: Let_def split: prod.splits)
  obtain x' D1 where d: "redis_doc t c (db r) = (x', D1)" by fastforce
  with documented [OF 1(1)] have "x' = x" "same_from t D1 (db r1)" by auto
  with Cons.IH [OF 1(2)] doc_cmds_cong [of t D1 "db r1" cs] d 1(3) show ?case
    by (auto simp: Let_def split: prod.splits intro: same_from_trans)
qed simp

lemma Exec_cases:
  assumes "Exec R e cs r = (a, r')"
  shows "(\<exists>err. a = Inl err) \<and> r' = r \<or>
    same_from (server_time R e) (snd (doc_cmds (server_time R e) cs (db r))) (db r') \<and>
    (\<forall>xs. a = Inr xs \<longrightarrow> xs = fst (doc_cmds (server_time R e) cs (db r)))"
proof -
  obtain xs r1 where "run_cmds R (server_time R e) cs r = (xs, r1)" by fastforce
  with assms cmds_documented [OF this] show ?thesis
    by (auto simp: Exec_def Let_def split: link_outcome.splits option.splits)
qed

lemma Exec_answered:
  assumes "link R e cs = Answered" "first_error (fst (doc_cmds (server_time R e) cs (db r))) = None"
  shows "\<exists>r'. Exec R e cs r = (Inr (fst (doc_cmds (server_time R e) cs (db r))), r') \<and>
    same_from (server_time R e) (snd (doc_cmds (server_time R e) cs (db r))) (db r')"
proof -
  obtain xs r1 where "run_cmds R (server_time R e) cs r = (xs, r1)" by fastforce
  with assms cmds_documented [OF this] show ?thesis
    by (auto simp: Exec_def Let_def split: option.splits)
qed

text \<open>A gate of \<open>SetNX\<close>: the deadline of its key.\<close>

definition deadline :: "string \<Rightarrow> 'r \<Rightarrow> int option" where
  "deadline k r = (case db r k of Some (_, d) \<Rightarrow> d | None \<Rightarrow> None)"

lemma deadline_alive: "t < x \<Longrightarrow> deadline k r = Some x \<longleftrightarrow> (\<exists>v. alive t (db r k) = Some (v, Some x))"
  by (auto simp: deadline_def alive_Some split: option.splits)

lemma SetNX_step:
  assumes "0 < d" "SetNX R e key val d r = (a, r')"
  shows "(a = Inr True \<longrightarrow> alive (server_time R e) (db r key) = None \<and>
            deadline key r' = Some (server_time R e + px d)) \<and>
         (server_time R e < x \<longrightarrow> deadline k r = Some x \<longrightarrow> deadline k r' = Some x)"
proof -
  let ?t = "server_time R e" and ?c = "SETNX key val d"
  obtain b where ex: "Exec R e [?c] r = (b, r')" and a: "a = Inr True \<Longrightarrow> \<exists>xs. b = Inr xs \<and> hd xs = ROk"
    using assms(2) by (auto simp: SetNX_def do_cmd_def split: prod.splits sum.splits redis_reply.splits)
  show ?thesis
  proof (cases "r' = r \<and> a \<noteq> Inr True")
    case False
    have doc: "same_from ?t (snd (redis_doc ?t ?c (db r))) (db r')"
      "a = Inr True \<longrightarrow> fst (redis_doc ?t ?c (db r)) = ROk"
      using Exec_cases [OF ex] False a by (auto simp del: redis_doc.simps doc_cmds.simps)
    have new: "alive ?t (db r' k') = alive ?t (snd (redis_doc ?t ?c (db r)) k')" for k'
      using same_fromD [OF doc(1)] by simp
    show ?thesis
    proof (intro conjI impI)
      assume "a = Inr True"
      with doc(2) have n: "alive ?t (db r key) = None" using assms(1)
        by (cases "alive ?t (db r key)") (auto split: if_splits)
      with assms(1) new [of key] px_pos [OF assms(1)] have "alive ?t (db r' key) = Some (RStr val, Some (?t + px d))"
        by (simp add: alive_def)
      then show "deadline key r' = Some (?t + px d)" by (auto simp: deadline_def alive_Some)
      show "alive ?t (db r key) = None" by (rule n)
    next
      assume x: "?t < x" "deadline k r = Some x"
      then obtain v where v: "alive ?t (db r k) = Some (v, Some x)" using deadline_alive by blast
      have "snd (redis_doc ?t ?c (db r)) k = db r k"
        using assms(1) v by auto
      with new [of k] v show "deadline k r' = Some x" using deadline_alive [OF x(1)] by auto
    qed
  qed simp
qed

lemma SetNX_gate:
  assumes "0 < d"
  shows "deadline key r = Some x \<Longrightarrow> server_time R e < x \<Longrightarrow> fst (SetNX R e key val d r) \<noteq> Inr True"
    and "deadline k r = Some x \<Longrightarrow> server_time R e < x \<Longrightarrow> deadline k (snd (SetNX R e key val d r)) = Some x"
    and "fst (SetNX R e key val d r) = Inr True \<Longrightarrow>
           deadline key (snd (SetNX R e key val d r)) = Some (server_time R e + px d)"
proof -
  obtain a r' where a: "SetNX R e key val d r = (a, r')" by fastforce
  note step = SetNX_step [OF assms a]
  show "fst (SetNX R e key val d r) \<noteq> Inr True" if "deadline key r = Some x" "server_time R e < x"
    using step that deadline_alive by (auto simp: a)
  show "deadline k (snd (SetNX R e key val d r)) = Some x" if "deadline k r = Some x" "server_time R e < x"
    using step that by (simp add: a)
  show "deadline key (snd (SetNX R e key val d r)) = Some (server_time R e + px d)"
    if "fst (SetNX R e key val d r) = Inr True"
    using step that by (simp add: a)
qed

end

text \<open>The gates of the code on a server. A cooldown of no length is out of the contract.\<close>

definition upload_gate_srv :: "'r redis_server \<Rightarrow> env \<Rightarrow> string \<Rightarrow> int \<Rightarrow> 'r \<Rightarrow> bool result \<times> 'r" where
  "upload_gate_srv R e k d r = (if d \<le> 0 then (Inr False, r) else AllowLargeUpload_srv R e k d r)"

sublocale redis_server \<subseteq> upload: spaced_gate
  "\<lambda>e k d r. granted (upload_gate_srv R e k d r)" "server_time R" "\<lambda>e k d. px d"
  "\<lambda>k. deadline (''largeup:'' @ k)"
  by unfold_locales (auto simp: upload_gate_srv_def AllowLargeUpload_srv_def SetNX_gate)

sublocale redis_server \<subseteq> voucher: spaced_gate
  "\<lambda>e sig x r. granted (ConsumeVoucher_srv R e sig x r)" "server_time R"
  "\<lambda>e sig x. px (time_Until (now e) (time_Unix x))" "\<lambda>sig. deadline (''voucher:used:'' @ sig)"
  by unfold_locales (auto simp: ConsumeVoucher_srv_def Let_def SetNX_gate)

context redis_server
begin

lemmas upload_spacing = upload.spacing
lemmas voucher_spacing = voucher.spacing

end

text \<open>The documentation itself is such a server.\<close>

definition reference_server :: "redis_db redis_server" where
  "reference_server =
     \<lparr> run_cmd = redis_doc, server_time = now, link = (\<lambda>_ _. Answered),
       entry_text = (\<lambda>(s, m, ct). m), entry_parse = (\<lambda>t. Some [''envelope'' \<mapsto> t]) \<rparr>"

interpretation reference: redis_server reference_server "\<lambda>D. D"
  by unfold_locales (simp add: reference_server_def)

section \<open>Vouchers on a server\<close>

lemma gate_run_nth:
  "j < length calls \<Longrightarrow> calls ! j = (e, k, d) \<Longrightarrow> \<exists>s'. fst (gate_run g calls s) ! j = fst (g e k d s')"
proof (induction calls arbitrary: s j)
  case (Cons c calls)
  then show ?case by (cases c; cases j) (auto simp: gate_run_Cons)
qed simp

text \<open>
  C33. On a Redis server too a voucher signature is accepted at most once, over any interleaved sequence
  of redemptions with any lost requests and answers, but for the last millisecond of its life: the
  client library rounds the expiry of the marker down to milliseconds.
\<close>

theorem server_voucher_single_use:
  assumes "redis_server R db" "\<And>c. c \<in> set calls \<Longrightarrow> server_time R (fst c) = now (fst c)"
    and "sorted (map (now \<circ> fst) calls)" "i < j" "j < length calls"
    and "calls ! i = (e1, sig, x)" "calls ! j = (e2, sig, x)"
    and "fst (gate_run (\<lambda>e sig x r. granted (ConsumeVoucher_srv R e sig x r)) calls r) ! i"
    and "fst (gate_run (\<lambda>e sig x r. granted (ConsumeVoucher_srv R e sig x r)) calls r) ! j"
    and "time_Unix x - now e1 < 2 ^ 63"
  shows "time_Unix x - Millisecond < now e2 \<and> now e2 < time_Unix x"
proof -
  have ms: "map (server_time R \<circ> fst) calls = map (now \<circ> fst) calls"
    using assms(2) by simp
  have "i < length calls" using assms(4,5) by simp
  then have "(e1, sig, x) \<in> set calls" "(e2, sig, x) \<in> set calls"
    using assms(5,6,7) nth_mem by metis+
  then have clock: "server_time R e1 = now e1" "server_time R e2 = now e2" using assms(2) by force+
  have gap: "server_time R e1 + px (time_Until (now e1) (time_Unix x)) \<le> server_time R e2"
    by (rule redis_server.voucher_spacing [OF assms(1) _ assms(4-9)]) (simp only: ms assms(3))
  have live: "now e < time_Unix x" if g: "fst (granted (ConsumeVoucher_srv R e sig x s))" for e s
    using g by (auto simp: ConsumeVoucher_srv_def time_Until_def time_Sub_def Let_def split: if_splits)
  obtain s1 s2 where "fst (granted (ConsumeVoucher_srv R e1 sig x s1))" "fst (granted (ConsumeVoucher_srv R e2 sig x s2))"
    using gate_run_nth [OF \<open>i < length calls\<close> assms(6)] gate_run_nth [OF assms(5,7)] assms(8,9) by metis
  then have l: "now e1 < time_Unix x" "now e2 < time_Unix x" using live by auto
  then have "time_Until (now e1) (time_Unix x) = time_Unix x - now e1"
    using assms(10) by (simp add: time_Until_def time_Sub_def)
  with px_near [of "time_Unix x - now e1"] gap clock l show ?thesis by simp
qed

text \<open>A marker set a nanosecond after a full second is gone in the last millisecond of the voucher.\<close>

definition late_redemption :: "(env \<times> string \<times> int) list" where
  "late_redemption = [(env0\<lparr>now := 1\<rparr>, ''s'', 5), (env0\<lparr>now := 5 * Second - 1\<rparr>, ''s'', 5)]"

theorem server_voucher_single_use_witness:
  "fst (gate_run (\<lambda>e sig x r. granted (ConsumeVoucher_srv reference_server e sig x r)) late_redemption Map.empty) = [True, True] \<and>
   time_Unix 5 - Millisecond < 5 * Second - 1 \<and> 5 * Second - 1 < time_Unix 5"
proof -
  have g: "fst (gate_run (\<lambda>e sig x r. granted (ConsumeVoucher_srv reference_server e sig x r)) late_redemption Map.empty) =
      [True, True]"
    by (simp add: late_redemption_def gate_run_Cons gate_run.simps(1) ConsumeVoucher_srv_def SetNX_def do_cmd_def Exec_def
        reference_server_def time_Until_def time_Sub_def time_Unix_def wrap64_def Second_def Let_def px_def Millisecond_def
        alive_def)
  have "time_Unix 5 - now (env0\<lparr>now := 1\<rparr>) < 2 ^ 63" by (simp add: time_Unix_def wrap64_def Second_def)
  from server_voucher_single_use [where calls = late_redemption and i = 0 and j = 1 and r = Map.empty and sig = "''s''"
        and ?e2.0 = "env0\<lparr>now := 5 * Second - 1\<rparr>", OF reference.redis_server_axioms _ _ _ _ _ _ _ _ this] g
  show ?thesis by (simp add: late_redemption_def reference_server_def Second_def)
qed

section \<open>The nuke limit on a server\<close>

definition nuke_gate_srv :: "'r redis_server \<Rightarrow> env \<Rightarrow> string \<Rightarrow> int \<Rightarrow> 'r \<Rightarrow> bool \<times> 'r" where
  "nuke_gate_srv R e u limit r = granted (AllowNuke_srv R e u limit r)"

text \<open>A counter that stands at \<open>n\<close> since \<open>t\<close>, for an hour.\<close>

definition counter :: "redis_entry option \<Rightarrow> int \<Rightarrow> int \<Rightarrow> bool" where
  "counter x t n = (if n = 0 then alive t x = None else x = Some (RStr (FormatInt n), Some (t + Hour)))"

lemma count_documented:
  assumes "counter (D k) t n" "0 \<le> n" "n < 2 ^ 62" "t \<le> t'" "t' < t + Hour"
  shows "fst (doc_cmds t' [INCRBY k 1, EXPIRE k Hour] D) = [RInt (n + 1), RInt 1] \<and>
    snd (doc_cmds t' [INCRBY k 1, EXPIRE k Hour] D) k = Some (RStr (FormatInt (n + 1)), Some (t' + Hour))"
proof (cases "n = 0")
  case True
  then have "alive t' (D k) = None" using assms(1,4) alive_later by (auto simp: counter_def)
  with True show ?thesis by (simp add: Let_def alive_def not_le)
next
  case False
  then have "alive t' (D k) = Some (RStr (FormatInt n), Some (t + Hour))"
    using assms(1,5) by (simp add: counter_def alive_def)
  moreover have "ParseInt (FormatInt n) = Some n" "int64 (n + 1)"
    using assms(2,3) by (auto simp: ParseInt_FormatInt int64_def)
  ultimately show ?thesis using assms(5) by (simp add: Let_def alive_def not_le)
qed

context redis_server
begin

lemma count_step:
  assumes "link R e [INCRBY k 1, EXPIRE k Hour] = Answered"
    and "counter (db r k) t n" "0 \<le> n" "n < 2 ^ 62" "t \<le> server_time R e" "server_time R e < t + Hour"
  shows "\<exists>r'. count_up R e k 1 (EXPIRE k Hour) r = (Inr (n + 1), r') \<and> counter (db r' k) (server_time R e) (n + 1)"
proof -
  note doc = count_documented [of "db r" k, OF assms(2-6)]
  have "first_error (fst (doc_cmds (server_time R e) [INCRBY k 1, EXPIRE k Hour] (db r))) = None"
    unfolding conjunct1 [OF doc] by simp
  from Exec_answered [OF assms(1) this] obtain r' where ex: "Exec R e [INCRBY k 1, EXPIRE k Hour] r = (Inr [RInt (n + 1), RInt 1], r')"
    and s: "same_from (server_time R e) (snd (doc_cmds (server_time R e) [INCRBY k 1, EXPIRE k Hour] (db r))) (db r')"
    unfolding conjunct1 [OF doc] by blast
  have "alive (server_time R e) (db r' k) = Some (RStr (FormatInt (n + 1)), Some (server_time R e + Hour))"
    using same_fromD [OF s order.refl, of k] unfolding conjunct2 [OF doc] by (simp add: alive_def)
  with assms(3) ex show ?thesis by (auto simp: count_up_def int_of_def counter_def alive_Some)
qed

lemma nukes_counted:
  assumes "counter (db r (''nukerate:'' @ u)) t n" "0 \<le> n" "n + int (length es) < 2 ^ 62"
    and "\<forall>e \<in> set es. link R e [INCRBY (''nukerate:'' @ u) 1, EXPIRE (''nukerate:'' @ u) Hour] = Answered"
    and "successively (\<lambda>a b. a \<le> b \<and> b < a + Hour) (t # map (server_time R) es)"
  shows "fst (gate_run (nuke_gate_srv R) (map (\<lambda>e. (e, u, limit)) es) r) =
    map (\<lambda>i. n + int i + 1 \<le> limit) [0..<length es]"
  using assms
proof (induction es arbitrary: r t n)
  case (Cons e es)
  let ?k = "''nukerate:'' @ u"
  have l: "link R e [INCRBY ?k 1, EXPIRE ?k Hour] = Answered" using Cons.prems(4) by simp
  have n: "n < 2 ^ 62" using Cons.prems(3) by simp
  have tt: "t \<le> server_time R e" "server_time R e < t + Hour" using Cons.prems(5) by simp_all
  from count_step [OF l Cons.prems(1,2) n tt] obtain r' where r': "count_up R e ?k 1 (EXPIRE ?k Hour) r = (Inr (n + 1), r')"
      "counter (db r' ?k) (server_time R e) (n + 1)" by blast
  have "fst (gate_run (nuke_gate_srv R) (map (\<lambda>e. (e, u, limit)) es) r') =
      map (\<lambda>i. n + 1 + int i + 1 \<le> limit) [0..<length es]"
    by (rule Cons.IH [OF r'(2)]) (use Cons.prems in auto)
  moreover have "nuke_gate_srv R e u limit r = (n + 1 \<le> limit, r')"
    unfolding nuke_gate_srv_def AllowNuke_srv_def r'(1) by (simp add: at_most_def granted_def)
  ultimately show ?case
    by (simp add: gate_run_Cons map_upt_Suc add.commute add.left_commute del: upt_Suc)
qed (simp add: gate_run.simps(1))

end

text \<open>
  C35. On a Redis server the nuke limit is no limit per hour: as long as a sender never pauses for an
  hour, its counter never goes back, so from the first nuke beyond the limit on all are refused,
  however few of them fall within any one hour; a refused attempt keeps the counter alive as well.
\<close>

theorem server_nuke_never_resets:
  assumes "redis_server R db" "es \<noteq> []" "length es < 2 ^ 61"
    and "alive (server_time R (hd es)) (db r (''nukerate:'' @ u)) = None"
    and "\<forall>e \<in> set es. link R e [INCRBY (''nukerate:'' @ u) 1, EXPIRE (''nukerate:'' @ u) Hour] = Answered"
    and "successively (\<lambda>a b. a \<le> b \<and> b < a + Hour) (map (server_time R) es)"
  shows "fst (gate_run (nuke_gate_srv R) (map (\<lambda>e. (e, u, limit)) es) r) =
    map (\<lambda>i. int i + 1 \<le> limit) [0..<length es]"
proof -
  have "counter (db r (''nukerate:'' @ u)) (server_time R (hd es)) 0" using assms(4) by (simp add: counter_def)
  moreover have "successively (\<lambda>a b. a \<le> b \<and> b < a + Hour) (server_time R (hd es) # map (server_time R) es)"
    using assms(2,6) by (cases es) simp_all
  ultimately show ?thesis
    using redis_server.nukes_counted [OF assms(1), of r u "server_time R (hd es)" 0 es limit] assms(3,5) by simp
qed

text \<open>Three nukes, 59 minutes apart, under a limit of two: the third is refused.\<close>

definition slow_nukes :: "env list" where
  "slow_nukes = map (\<lambda>i. env0\<lparr>now := 59 * Minute * i\<rparr>) [0, 1, 2]"

theorem server_nuke_never_resets_witness:
  "fst (gate_run (nuke_gate_srv reference_server) (map (\<lambda>e. (e, ''u'', 2)) slow_nukes) Map.empty) = [True, True, False]"
  using server_nuke_never_resets [OF reference.redis_server_axioms, of slow_nukes Map.empty "''u''" 2]
  by (simp add: slow_nukes_def reference_server_def Hour_def less_imp_le)

section \<open>The first issuance of a day\<close>

text \<open>
  C36. On a Redis server the peek at the issuance counter fails when there is no counter, so the
  adaptive mode, which is to spare the first issuance of an address and day, demands the puzzle there
  too; in memory the same peek gives zero and the puzzle is spared.
\<close>

theorem server_challenges_first_issuance:
  assumes "redis_server R db" "challengeMode (globals e) \<noteq> Always" "clientAdvertisesChallenge caps"
    and "alive (server_time R e) (db r (''issuance:'' @ ip @ '':'' @ localFormat e ''20060102'' (now e))) = None"
    and "\<not> fault e (Rdb OpIssuanceCountToday ip)"
    and "map_of (memoryIssuance m) (issuance_key ip (localFormat e ''20060102'' (now e))) = None"
  shows "puzzle_rule e caps (fst (IssuanceCountToday_srv R e ip r)) \<and> \<not> puzzle_rule e caps (IssuanceCountToday e ip m)"
proof -
  let ?k = "''issuance:'' @ ip @ '':'' @ localFormat e ''20060102'' (now e)"
  obtain a r' where ex: "Exec R e [GET ?k] r = (a, r')" by fastforce
  from redis_server.Exec_cases [OF assms(1) ex] assms(4) have "(\<exists>err. a = Inl err) \<or> a = Inr [RNil]"
    by (cases a) auto
  then have "\<exists>err. fst (IssuanceCountToday_srv R e ip r) = Inl err"
    using ex by (auto simp: IssuanceCountToday_srv_def parse_int_def or_fail_def get_cmd_def do_cmd_def)
  with assms(2,3,5,6) show ?thesis by (auto simp: IssuanceCountToday_def)
qed

theorem server_challenges_first_issuance_witness:
  "puzzle_rule env0 [''human_challenge''] (fst (IssuanceCountToday_srv reference_server env0 ''9.9.9.9'' Map.empty)) \<and>
   \<not> puzzle_rule env0 [''human_challenge''] (IssuanceCountToday env0 ''9.9.9.9'' NewRedisClient)"
  by (rule server_challenges_first_issuance [OF reference.redis_server_axioms])
    (simp_all add: env0_def default_globals_def clientAdvertisesChallenge_def NewRedisClient_def)

end
