(* ===== verification/Redis_Modes.thy ===== *)
theory Redis_Modes
  imports Redis_Docs
begin

text \<open>
  The two modes of the key-value client side by side: for bans, queue blocks, puzzle cooldowns and
  nonces, a run of calls gives the same answers in memory and on a Redis server.
\<close>

section \<open>Calls in either mode\<close>

datatype kv_call =
    KBan string int
  | KBanned string
  | KBlock string
  | KUnblock string
  | KBlocked string
  | KCool string int
  | KCooling string
  | KNonce string

definition unit_answer :: "unit result \<times> 's \<Rightarrow> bool result \<times> 's" where
  "unit_answer a = (map_sum id (\<lambda>_. True) (fst a), snd a)"

fun in_memory :: "env \<Rightarrow> kv_call \<Rightarrow> RedisClient \<Rightarrow> bool result \<times> RedisClient" where
  "in_memory e (KBan ip d) r = unit_answer (BanIP e ip d r)"
| "in_memory e (KBanned ip) r = (CheckIPBan e ip r, r)"
| "in_memory e (KBlock u) r = unit_answer (BlockQueue e u r)"
| "in_memory e (KUnblock u) r = unit_answer (UnblockQueue e u r)"
| "in_memory e (KBlocked u) r = (IsQueueBlocked e u r, r)"
| "in_memory e (KCool ip d) r = unit_answer (SetChallengeCooldown e ip d r)"
| "in_memory e (KCooling ip) r = CheckChallengeCooldown e ip r"
| "in_memory e (KNonce n) r = IsNonceUnique e n r"

fun on_server :: "'r redis_server \<Rightarrow> env \<Rightarrow> kv_call \<Rightarrow> 'r \<Rightarrow> bool result \<times> 'r" where
  "on_server R e (KBan ip d) r = unit_answer (BanIP_srv R e ip d r)"
| "on_server R e (KBanned ip) r = CheckIPBan_srv R e ip r"
| "on_server R e (KBlock u) r = unit_answer (BlockQueue_srv R e u r)"
| "on_server R e (KUnblock u) r = unit_answer (UnblockQueue_srv R e u r)"
| "on_server R e (KBlocked u) r = IsQueueBlocked_srv R e u r"
| "on_server R e (KCool ip d) r = unit_answer (SetChallengeCooldown_srv R e ip d r)"
| "on_server R e (KCooling ip) r = CheckChallengeCooldown_srv R e ip r"
| "on_server R e (KNonce n) r = IsNonceUnique_srv R e n r"

fun answers_of :: "(env \<Rightarrow> kv_call \<Rightarrow> 's \<Rightarrow> bool result \<times> 's) \<Rightarrow> (env \<times> kv_call) list \<Rightarrow> 's \<Rightarrow> bool result list" where
  "answers_of f [] s = []"
| "answers_of f ((e, c) # calls) s = fst (f e c s) # answers_of f calls (snd (f e c s))"

text \<open>
  The modes part at one instant only: at the very nanosecond of its expiry a ban or a block still
  holds in memory and is gone on a server. Durations are whole milliseconds.
\<close>

fun off_deadline :: "env \<Rightarrow> kv_call \<Rightarrow> RedisClient \<Rightarrow> bool" where
  "off_deadline e (KBan ip d) r = (0 < d \<and> px d = d)"
| "off_deadline e (KCool ip d) r = (0 < d \<and> px d = d)"
| "off_deadline e (KBanned ip) r = (memoryBans r ip \<noteq> Some (now e))"
| "off_deadline e (KBlocked u) r = (memoryBlocks r u \<noteq> Some (now e))"
| "off_deadline e _ r = True"

fun never_at_deadline :: "(env \<times> kv_call) list \<Rightarrow> RedisClient \<Rightarrow> bool" where
  "never_at_deadline [] r = True"
| "never_at_deadline ((e, c) # calls) r =
     (off_deadline e c r \<and> never_at_deadline calls (snd (in_memory e c r)))"

section \<open>The simulation\<close>

text \<open>A deadline in memory and an entry on the server that say the same from \<open>t\<close> on.\<close>

definition tracks :: "int \<Rightarrow> int option \<Rightarrow> redis_entry option \<Rightarrow> bool" where
  "tracks t x y =
     (case x of
        Some d \<Rightarrow> if t < d then (\<exists>v. alive t y = Some (v, Some d)) else alive t y = None
      | None \<Rightarrow> alive t y = None)"

lemma tracks_later: "tracks t x y \<Longrightarrow> t \<le> t' \<Longrightarrow> tracks t' x y"
  by (auto simp: tracks_def alive_def split: option.splits prod.splits if_splits)

lemma tracks_alive: "tracks t x y \<Longrightarrow> alive t y = None \<longleftrightarrow> \<not> (\<exists>d. x = Some d \<and> t < d)"
  by (auto simp: tracks_def split: option.splits if_splits)

lemma tracks_cong: "alive t y = alive t y' \<Longrightarrow> tracks t x y = tracks t x y'"
  by (simp only: tracks_def)

lemma tracks_new: "0 < d \<Longrightarrow> tracks t (Some (t + d)) (Some (v, Some (t + d)))"
  by (simp add: tracks_def alive_def)

lemma tracks_none [simp]: "tracks t None None"
  by (simp add: tracks_def)

text \<open>The cooldowns are a list in memory; pruning drops the deadlines that have passed.\<close>

lemma map_of_prune:
  "distinct (map fst m) \<Longrightarrow>
   map_of (filter (\<lambda>(k, until). \<not> until < t) m) k =
     (case map_of m k of Some until \<Rightarrow> if until < t then None else Some until | None \<Rightarrow> None)"
proof (induction m)
  case (Cons a m)
  then show ?case
    by (cases a) (auto simp: map_of_eq_None_iff split: option.splits if_splits)
qed simp

lemma tracks_prune:
  "distinct (map fst m) \<Longrightarrow> tracks t (map_of m k) y \<Longrightarrow>
   tracks t (map_of (filter (\<lambda>(k, until). \<not> until < t) m) k) y"
  by (cases "map_of m k") (auto simp: map_of_prune tracks_def simp del: map_of_eq_Some_iff)

definition same_store :: "int \<Rightarrow> RedisClient \<Rightarrow> redis_db \<Rightarrow> bool" where
  "same_store t r D =
     ((\<forall>k. tracks t (memoryBans r k) (D (''ban:'' @ k))) \<and>
      (\<forall>k. tracks t (memoryBlocks r k) (D (''block:'' @ k))) \<and>
      (\<forall>k. tracks t (map_of (memoryChCooldown r) k) (D (''chcooldown:'' @ k))) \<and>
      (\<forall>k. tracks t (memoryNonces r k) (D (''pow:nonce:'' @ k))) \<and>
      distinct (map fst (memoryChCooldown r)))"

lemma same_store_later: "same_store t r D \<Longrightarrow> t \<le> t' \<Longrightarrow> same_store t' r D"
  unfolding same_store_def using tracks_later by blast

lemma same_store_cong: "same_from t D D' \<Longrightarrow> same_store t r D = same_store t r D'"
  unfolding same_store_def using tracks_cong [OF same_fromD [OF _ order.refl]] by simp

lemma prune_distinct: "distinct (map fst m) \<Longrightarrow> distinct (map fst (filter P m))"
  by (rule distinct_map_filter)

context redis_server
begin

lemma answered_cmd:
  assumes "link R e [c] = Answered" "first_error [fst (redis_doc (server_time R e) c (db r))] = None"
  obtains r' where "do_cmd R e c r = (Inr (fst (redis_doc (server_time R e) c (db r))), r')"
    and "same_from (server_time R e) (snd (redis_doc (server_time R e) c (db r))) (db r')"
proof -
  obtain r' where "Exec R e [c] r = (Inr [fst (redis_doc (server_time R e) c (db r))], r')"
    "same_from (server_time R e) (snd (redis_doc (server_time R e) c (db r))) (db r')"
    using Exec_answered [of e "[c]" r] assms by (simp only: doc_cmds_single fst_conv snd_conv simp_thms) blast
  then show thesis using that by (simp add: do_cmd_def)
qed

lemma SET_answered:
  assumes "link R e [SET k v d] = Answered"
  obtains r' where "status_cmd R e (SET k v d) r = (Inr (), r')"
    and "same_from (server_time R e) ((db r)(k \<mapsto> (RStr v, if 0 < d then Some (server_time R e + px d) else None))) (db r')"
  by (rule answered_cmd [OF assms, of r]) (auto simp: status_cmd_def intro: that)

lemma DEL_answered:
  assumes "link R e [DEL k] = Answered"
  obtains r' where "status_cmd R e (DEL k) r = (Inr (), r')"
    and "same_from (server_time R e) ((db r)(k := None)) (db r')"
  by (rule answered_cmd [OF assms, of r]) (auto simp: status_cmd_def intro: that)

lemma EXISTS_answered:
  assumes "link R e [EXISTS k] = Answered"
  obtains r' where "exists_cmd R e k r = (Inr (alive (server_time R e) (db r k) \<noteq> None), r')"
    and "same_from (server_time R e) (db r) (db r')"
  by (rule answered_cmd [OF assms, of r]) (auto simp: exists_cmd_def int_cmd_def int_of_def intro: that)

lemma SETNX_answered:
  assumes "link R e [SETNX k v d] = Answered" "0 < d"
  obtains r' where "SetNX R e k v d r = (Inr (alive (server_time R e) (db r k) = None), r')"
    and "same_from (server_time R e)
           (if alive (server_time R e) (db r k) = None
            then (db r)(k \<mapsto> (RStr v, Some (server_time R e + px d))) else db r) (db r')"
proof -
  have "first_error [fst (redis_doc (server_time R e) (SETNX k v d) (db r))] = None" using assms(2) by simp
  then obtain r' where "do_cmd R e (SETNX k v d) r = (Inr (fst (redis_doc (server_time R e) (SETNX k v d) (db r))), r')"
    "same_from (server_time R e) (snd (redis_doc (server_time R e) (SETNX k v d) (db r))) (db r')"
    using answered_cmd [OF assms(1)] by blast
  with assms(2) show thesis
    by (cases "alive (server_time R e) (db r k) = None") (auto simp: SetNX_def intro!: that [of r'])
qed

end

section \<open>The same answers\<close>

text \<open>A call that arrives, finds no fault and is answered.\<close>

definition served :: "'r redis_server \<Rightarrow> env \<Rightarrow> bool" where
  "served R e = (server_time R e = now e \<and> (\<forall>cs. link R e cs = Answered) \<and> (\<forall>x. \<not> fault e x))"

text \<open>One entry at a time, in memory and on the server.\<close>

lemma same_store_upd:
  assumes "same_store t r D" "tracks t x y"
  shows "same_store t (r\<lparr>memoryBans := (memoryBans r)(k := x)\<rparr>) (D(''ban:'' @ k := y))"
    and "same_store t (r\<lparr>memoryBlocks := (memoryBlocks r)(k := x)\<rparr>) (D(''block:'' @ k := y))"
    and "same_store t (r\<lparr>memoryNonces := (memoryNonces r)(k := x)\<rparr>) (D(''pow:nonce:'' @ k := y))"
    and "x = Some d \<Longrightarrow> same_store t (r\<lparr>memoryChCooldown := AList.update k d (memoryChCooldown r)\<rparr>) (D(''chcooldown:'' @ k := y))"
  using assms by (auto simp: same_store_def update_conv distinct_update simp del: map_of_eq_Some_iff)

lemma same_store_prune:
  "same_store t r D \<Longrightarrow>
   same_store t (r\<lparr>memoryChCooldown := filter (\<lambda>(k, until). \<not> until < t) (memoryChCooldown r)\<rparr>) D"
  by (simp add: same_store_def tracks_prune prune_distinct)

lemma same_storeD:
  assumes "same_store t r D"
  shows "tracks t (memoryBans r k) (D (''ban:'' @ k))" "tracks t (memoryBlocks r k) (D (''block:'' @ k))"
    and "tracks t (map_of (memoryChCooldown r) k) (D (''chcooldown:'' @ k))"
    and "tracks t (memoryNonces r k) (D (''pow:nonce:'' @ k))"
  using assms unfolding same_store_def by blast+

lemma tracks_test: "tracks t x y \<Longrightarrow> (alive t y = None) = (case x of None \<Rightarrow> True | Some d \<Rightarrow> \<not> t < d)"
  by (auto simp: tracks_def split: option.splits if_splits)

lemma tracks_until:
  "tracks t x y \<Longrightarrow> x \<noteq> Some t \<Longrightarrow> (alive t y \<noteq> None) = (case x of None \<Rightarrow> False | Some d \<Rightarrow> \<not> d < t)"
  by (auto simp: tracks_test split: option.splits)

lemma whole_ttls: "0 < nukeBlockTTL" "px nukeBlockTTL = nukeBlockTTL" "0 < 10 * Minute" "px (10 * Minute) = 10 * Minute"
  by (simp_all add: nukeBlockTTL_def time_units px_def)

context redis_server
begin

lemma ban_modes:
  assumes "served R e" "same_store (now e) r (db s)" "0 < d" "px d = d"
  shows "fst (BanIP_srv R e ip d s) = fst (BanIP e ip d r) \<and>
    same_store (now e) (snd (BanIP e ip d r)) (db (snd (BanIP_srv R e ip d s)))"
proof -
  obtain s' where "status_cmd R e (SET (''ban:'' @ ip) ''1'' d) s = (Inr (), s')"
    "same_from (now e) ((db s)(''ban:'' @ ip \<mapsto> (RStr ''1'', Some (now e + d)))) (db s')"
    using SET_answered [of e "''ban:'' @ ip" "''1''" d s] assms by (auto simp: served_def)
  then show ?thesis
    using assms same_store_upd(1) [OF assms(2) tracks_new [OF assms(3)]]
    by (simp add: BanIP_def BanIP_srv_def served_def same_store_cong [symmetric])
qed

lemma block_modes:
  assumes "served R e" "same_store (now e) r (db s)"
  shows "fst (BlockQueue_srv R e u s) = fst (BlockQueue e u r) \<and>
    same_store (now e) (snd (BlockQueue e u r)) (db (snd (BlockQueue_srv R e u s)))"
proof -
  obtain s' where "status_cmd R e (SET (''block:'' @ u) ''1'' nukeBlockTTL) s = (Inr (), s')"
    "same_from (now e) ((db s)(''block:'' @ u \<mapsto> (RStr ''1'', Some (now e + nukeBlockTTL)))) (db s')"
    using SET_answered [of e "''block:'' @ u" "''1''" nukeBlockTTL s] assms whole_ttls by (auto simp: served_def)
  then show ?thesis
    using assms same_store_upd(2) [OF assms(2) tracks_new [OF whole_ttls(1)]]
    by (simp add: BlockQueue_def BlockQueue_srv_def served_def same_store_cong [symmetric])
qed

lemma unblock_modes:
  assumes "served R e" "same_store (now e) r (db s)"
  shows "fst (UnblockQueue_srv R e u s) = fst (UnblockQueue e u r) \<and>
    same_store (now e) (snd (UnblockQueue e u r)) (db (snd (UnblockQueue_srv R e u s)))"
proof -
  obtain s' where "status_cmd R e (DEL (''block:'' @ u)) s = (Inr (), s')"
    "same_from (now e) ((db s)(''block:'' @ u := None)) (db s')"
    using DEL_answered [of e "''block:'' @ u" s] assms by (auto simp: served_def)
  then show ?thesis
    using assms same_store_upd(2) [OF assms(2) tracks_none]
    by (simp add: UnblockQueue_def UnblockQueue_srv_def served_def same_store_cong [symmetric])
qed

lemma cool_modes:
  assumes "served R e" "same_store (now e) r (db s)" "0 < d" "px d = d"
  shows "fst (SetChallengeCooldown_srv R e ip d s) = fst (SetChallengeCooldown e ip d r) \<and>
    same_store (now e) (snd (SetChallengeCooldown e ip d r)) (db (snd (SetChallengeCooldown_srv R e ip d s)))"
proof -
  obtain s' where "status_cmd R e (SET (''chcooldown:'' @ ip) ''1'' d) s = (Inr (), s')"
    "same_from (now e) ((db s)(''chcooldown:'' @ ip \<mapsto> (RStr ''1'', Some (now e + d)))) (db s')"
    using SET_answered [of e "''chcooldown:'' @ ip" "''1''" d s] assms by (auto simp: served_def)
  then show ?thesis
    using assms same_store_upd(4) [OF assms(2) tracks_new [OF assms(3)] refl]
      same_store_upd(4) [OF same_store_prune [OF assms(2)] tracks_new [OF assms(3)] refl]
    by (simp add: SetChallengeCooldown_def SetChallengeCooldown_srv_def served_def same_store_cong [symmetric] Let_def)
qed

lemma nonce_modes:
  assumes "served R e" "same_store (now e) r (db s)"
  shows "fst (IsNonceUnique_srv R e n s) = fst (IsNonceUnique e n r) \<and>
    same_store (now e) (snd (IsNonceUnique e n r)) (db (snd (IsNonceUnique_srv R e n s)))"
proof -
  let ?k = "''pow:nonce:'' @ n"
  obtain s' where s: "SetNX R e ?k ''1'' (10 * Minute) s = (Inr (alive (now e) (db s ?k) = None), s')"
    "same_from (now e) (if alive (now e) (db s ?k) = None
       then (db s)(?k \<mapsto> (RStr ''1'', Some (now e + 10 * Minute))) else db s) (db s')"
    using SETNX_answered [OF _ whole_ttls(3), of e ?k "''1''" s] assms(1) unfolding served_def whole_ttls(4) by metis
  have test: "(alive (now e) (db s ?k) = None) = (case memoryNonces r n of None \<Rightarrow> True | Some d \<Rightarrow> \<not> now e < d)"
    by (rule tracks_test [OF same_storeD(4) [OF assms(2)]])
  show ?thesis
    using s test assms same_store_upd(3) [OF assms(2) tracks_new [OF whole_ttls(3)]]
    by (simp add: IsNonceUnique_def IsNonceUnique_srv_def served_def same_store_cong [symmetric] split: option.splits if_splits)
qed

lemma test_modes:
  assumes "served R e" "same_store (now e) r (db s)"
  shows "memoryBans r ip \<noteq> Some (now e) \<Longrightarrow> fst (CheckIPBan_srv R e ip s) = CheckIPBan e ip r"
    and "memoryBlocks r u \<noteq> Some (now e) \<Longrightarrow> fst (IsQueueBlocked_srv R e u s) = IsQueueBlocked e u r"
    and "fst (CheckChallengeCooldown_srv R e ip s) = fst (CheckChallengeCooldown e ip r)"
    and "same_store (now e) r (db (snd (CheckIPBan_srv R e ip s)))"
    and "same_store (now e) r (db (snd (IsQueueBlocked_srv R e u s)))"
    and "same_store (now e) (snd (CheckChallengeCooldown e ip r)) (db (snd (CheckChallengeCooldown_srv R e ip s)))"
proof -
  have ask: "fst (exists_cmd R e k s) = Inr (alive (now e) (db s k) \<noteq> None) \<and> same_from (now e) (db s) (db (snd (exists_cmd R e k s)))" for k
    using EXISTS_answered [of e k s] assms(1) unfolding served_def by (metis fst_conv snd_conv)
  note pruned = same_store_prune [OF assms(2)]
  show "fst (CheckIPBan_srv R e ip s) = CheckIPBan e ip r" if "memoryBans r ip \<noteq> Some (now e)"
    using tracks_until [OF same_storeD(1) [OF assms(2)] that] ask [of "''ban:'' @ ip"] assms(1)
    by (simp add: CheckIPBan_def CheckIPBan_srv_def served_def split: option.splits)
  show "fst (IsQueueBlocked_srv R e u s) = IsQueueBlocked e u r" if "memoryBlocks r u \<noteq> Some (now e)"
    using tracks_until [OF same_storeD(2) [OF assms(2)] that] ask [of "''block:'' @ u"] assms(1)
    by (simp add: IsQueueBlocked_def IsQueueBlocked_srv_def served_def split: option.splits)
  show "fst (CheckChallengeCooldown_srv R e ip s) = fst (CheckChallengeCooldown e ip r)"
    using tracks_test [OF same_storeD(3) [OF pruned]] ask [of "''chcooldown:'' @ ip"] assms(1)
    by (simp add: CheckChallengeCooldown_def CheckChallengeCooldown_srv_def served_def Let_def split: option.splits)
  show "same_store (now e) r (db (snd (CheckIPBan_srv R e ip s)))" "same_store (now e) r (db (snd (IsQueueBlocked_srv R e u s)))"
    using ask assms(2) same_store_cong by (simp_all only: CheckIPBan_srv_def IsQueueBlocked_srv_def) blast+
  show "same_store (now e) (snd (CheckChallengeCooldown e ip r)) (db (snd (CheckChallengeCooldown_srv R e ip s)))"
    using pruned same_store_cong [OF conjunct2 [OF ask]] assms(1)
    by (simp add: CheckChallengeCooldown_def CheckChallengeCooldown_srv_def served_def Let_def)
qed

lemma step_modes:
  assumes "served R e" "off_deadline e c r" "same_store (now e) r (db s)"
  shows "fst (in_memory e c r) = fst (on_server R e c s) \<and>
    same_store (now e) (snd (in_memory e c r)) (db (snd (on_server R e c s)))"
  using assms(2) ban_modes [OF assms(1,3)] block_modes [OF assms(1,3)] unblock_modes [OF assms(1,3)]
    cool_modes [OF assms(1,3)] nonce_modes [OF assms(1,3)] test_modes [OF assms(1,3)]
  by (cases c) (simp_all add: unit_answer_def)

lemma answers_modes:
  "(\<And>x. x \<in> set calls \<Longrightarrow> served R (fst x)) \<Longrightarrow> sorted (map (now \<circ> fst) calls) \<Longrightarrow>
   (\<And>x. x \<in> set calls \<Longrightarrow> t \<le> now (fst x)) \<Longrightarrow> never_at_deadline calls r \<Longrightarrow> same_store t r (db s) \<Longrightarrow>
   answers_of in_memory calls r = answers_of (on_server R) calls s"
proof (induction calls arbitrary: t r s)
  case (Cons x calls)
  obtain e c where x: "x = (e, c)" by fastforce
  have "served R e" "t \<le> now e" using Cons.prems(1,3) [of x] x by simp_all
  moreover have "off_deadline e c r" using Cons.prems(4) x by simp
  ultimately have step: "fst (in_memory e c r) = fst (on_server R e c s)"
      "same_store (now e) (snd (in_memory e c r)) (db (snd (on_server R e c s)))"
    using step_modes [OF _ _ same_store_later [OF Cons.prems(5)]] by blast+
  show ?case
    using step(1) Cons.IH [OF _ _ _ _ step(2)] Cons.prems by (auto simp: x)
qed simp

end

text \<open>
  C38. The two modes agree: over any sequence of calls that ban, block, cool down and test, a relay
  with a Redis server that keeps to the documentation, reached in every call, gives exactly the
  answers of the relay that keeps these things in its own memory, when both start with the same
  bans, blocks, cooldowns and nonces, the clock does not go back, cooldowns and bans last whole
  milliseconds and no ban or block is asked about at the very nanosecond of its expiry.
\<close>

theorem modes_agree:
  assumes "redis_server R db" "\<And>x. x \<in> set calls \<Longrightarrow> served R (fst x)"
    and "sorted (t # map (now \<circ> fst) calls)" "same_store t r (db s)" "never_at_deadline calls r"
  shows "answers_of in_memory calls r = answers_of (on_server R) calls s"
  by (rule redis_server.answers_modes [OF assms(1,2) _ _ assms(5,4)]) (use assms(3) in auto)

text \<open>A ban that is seen and runs out, a cooldown after a strike, a number used twice, a lifted block.\<close>

definition mixed_calls :: "(env \<times> kv_call) list" where
  "mixed_calls =
     [(env0, KBan ''a'' Minute), (env0, KBanned ''a''), (env0, KNonce ''7''), (env0, KBlock ''u''),
      (env0, KCool ''a'' Hour), (env0\<lparr>now := 2 * Minute\<rparr>, KBanned ''a''), (env0\<lparr>now := 2 * Minute\<rparr>, KCooling ''a''),
      (env0\<lparr>now := 2 * Minute\<rparr>, KNonce ''7''), (env0\<lparr>now := 2 * Minute\<rparr>, KBlocked ''u''),
      (env0\<lparr>now := 2 * Minute\<rparr>, KUnblock ''u''), (env0\<lparr>now := 3 * Minute\<rparr>, KBlocked ''u'')]"

theorem modes_agree_witness:
  "answers_of (on_server reference_server) mixed_calls Map.empty = answers_of in_memory mixed_calls NewRedisClient \<and>
   answers_of in_memory mixed_calls NewRedisClient =
     map Inr [True, True, True, True, True, False, True, False, True, True, False]"
proof -
  have "answers_of in_memory mixed_calls NewRedisClient = answers_of (on_server reference_server) mixed_calls Map.empty"
  proof (rule modes_agree [OF reference.redis_server_axioms, where t = "now env0"])
    show "\<And>x. x \<in> set mixed_calls \<Longrightarrow> served reference_server (fst x)"
      by (auto simp: mixed_calls_def served_def reference_server_def env0_def)
    show "sorted (now env0 # map (now \<circ> fst) mixed_calls)"
      by (simp add: mixed_calls_def env0_def time_units)
    show "same_store (now env0) NewRedisClient Map.empty"
      by (simp add: same_store_def NewRedisClient_def)
    show "never_at_deadline mixed_calls NewRedisClient"
      by (simp add: mixed_calls_def NewRedisClient_def env0_def time_units px_def unit_answer_def BanIP_def BlockQueue_def
          UnblockQueue_def SetChallengeCooldown_def CheckChallengeCooldown_def IsNonceUnique_def nukeBlockTTL_def)
  qed
  moreover have "answers_of in_memory mixed_calls NewRedisClient =
      map Inr [True, True, True, True, True, False, True, False, True, True, False]"
    by (simp add: mixed_calls_def NewRedisClient_def env0_def time_units unit_answer_def BanIP_def CheckIPBan_def BlockQueue_def
        UnblockQueue_def IsQueueBlocked_def SetChallengeCooldown_def CheckChallengeCooldown_def IsNonceUnique_def nukeBlockTTL_def)
  ultimately show ?thesis by simp
qed

end
