(* ===== verification/Redis_Queues.thy ===== *)
theory Redis_Queues
  imports Redis_Docs
begin

text \<open>
  The offline queue on a Redis server: a list specification of what a deposit makes of the sorted set
  (\<open>server_put\<close>), that the commands of redis.go refine it, on every branch (messages already due, an
  emptied set, the cap of 1000), and what a recipient is therefore given.
\<close>

section \<open>The specification\<close>

type_synonym deposit = "env \<times> queue_entry \<times> int"

definition score :: "env \<Rightarrow> int \<Rightarrow> int" where "score e ttl = unix (now e + ttl)"

text \<open>Entries that expire in this second or later; those are kept and handed out.\<close>

definition not_due :: "env \<Rightarrow> (int \<times> string) list \<Rightarrow> (int \<times> string) list" where
  "not_due e = filter (\<lambda>(x, _). unix (now e) \<le> x)"

text \<open>A deposit: the entry gets its (new) score, due entries go, and the soonest to expire above the cap go.\<close>

definition server_put :: "'r redis_server \<Rightarrow> deposit \<Rightarrow> (int \<times> string) list \<Rightarrow> (int \<times> string) list" where
  "server_put R d z =
     (case d of (e, m, ttl) \<Rightarrow>
        let z' = not_due e (zset_put (score e ttl) (entry_text R m) z) in drop (length z' - maxQueueLen) z')"

fun server_queue :: "'r redis_server \<Rightarrow> deposit list \<Rightarrow> (int \<times> string) list \<Rightarrow> (int \<times> string) list" where
  "server_queue R [] z = z"
| "server_queue R (d # ds) z = server_queue R ds (server_put R d z)"

fun deposits :: "'r redis_server \<Rightarrow> string \<Rightarrow> deposit list \<Rightarrow> 'r \<Rightarrow> 'r" where
  "deposits R u [] r = r"
| "deposits R u ((e, (s, m, ct), ttl) # ds) r = deposits R u ds (snd (AddMessageToQueue_srv R e u s m ct ttl r))"

lemma server_queue_append: "server_queue R (ds @ ds') z = server_queue R ds' (server_queue R ds z)"
  by (induction ds arbitrary: z) simp_all

lemma set_zset_put: "set (zset_put s m z) = insert (s, m) {x \<in> set z. snd x \<noteq> m}"
  by (auto simp: zset_put_def set_insort_key)

lemma length_zset_put: "length (zset_put s m z) \<le> Suc (length z)"
  by (simp add: zset_put_def)

lemma zset_put_not_Nil [simp]: "zset_put s m z \<noteq> []"
  using set_zset_put [of s m z] by force

lemma distinct_insort_snd:
  "distinct (map snd (insort a xs)) \<longleftrightarrow> snd a \<notin> snd ` set xs \<and> distinct (map snd xs)"
  by (induction xs) (auto simp: set_insort_key)

text \<open>A well-formed set: ascending, with every text once.\<close>

definition zset_ok :: "(int \<times> string) list \<Rightarrow> bool" where
  "zset_ok z = (sorted z \<and> distinct (map snd z))"

lemma zset_ok_Nil [simp]: "zset_ok []"
  by (simp add: zset_ok_def)

lemma zset_ok_put: "zset_ok z \<Longrightarrow> zset_ok (zset_put s m z)"
proof -
  assume z: "zset_ok z"
  let ?f = "filter (\<lambda>(_, m'). m' \<noteq> m) z"
  have "sorted (zset_put s m z)"
    using z by (simp add: zset_ok_def zset_put_def sorted_insort sorted_filter [of "\<lambda>x. x", simplified])
  moreover have "distinct (map snd ?f)" "m \<notin> snd ` set ?f"
    using z by (auto simp: zset_ok_def distinct_map_filter)
  then have "distinct (map snd (zset_put s m z))" by (simp add: zset_put_def distinct_insort_snd)
  ultimately show ?thesis by (simp add: zset_ok_def)
qed

lemma zset_ok_not_due: "zset_ok z \<Longrightarrow> zset_ok (not_due e z)"
  by (simp add: zset_ok_def not_due_def distinct_map_filter sorted_filter [of "\<lambda>x. x", simplified])

lemma zset_ok_drop: "zset_ok z \<Longrightarrow> zset_ok (drop n z)"
  by (simp add: zset_ok_def sorted_wrt_drop drop_map [symmetric])

lemma zset_ok_server_put: "zset_ok z \<Longrightarrow> zset_ok (server_put R d z)"
  by (auto simp: server_put_def Let_def intro!: zset_ok_drop zset_ok_not_due zset_ok_put split: prod.split)

lemma zset_ok_server_queue: "zset_ok z \<Longrightarrow> zset_ok (server_queue R ds z)"
  by (induction ds arbitrary: z) (simp_all add: zset_ok_server_put)

lemma set_server_put:
  "x \<in> set (server_put R (e, m, ttl) z) \<Longrightarrow> x = (score e ttl, entry_text R m) \<or> x \<in> set z"
  by (auto simp: server_put_def Let_def not_due_def set_zset_put dest!: in_set_dropD)

lemma set_server_queue:
  "x \<in> set (server_queue R ds z) \<Longrightarrow> x \<in> set z \<or> (\<exists>(e, m, ttl) \<in> set ds. x = (score e ttl, entry_text R m))"
proof (induction R ds z rule: server_queue.induct)
  case (2 R d ds z)
  obtain e m ttl where d: "d = (e, m, ttl)" by (rule prod_cases3)
  show ?case using "2.IH" "2.prems" set_server_put [of x R e m ttl z] by (auto simp: d)
qed simp

lemma length_server_put: "length (server_put R d z) \<le> Suc (length z)" "length (server_put R d z) \<le> maxQueueLen"
proof -
  obtain e m ttl where d: "d = (e, m, ttl)" by (rule prod_cases3)
  have "length (not_due e (zset_put (score e ttl) (entry_text R m) z)) \<le> Suc (length z)"
    unfolding not_due_def using length_filter_le length_zset_put le_trans by blast
  then show "length (server_put R d z) \<le> Suc (length z)" "length (server_put R d z) \<le> maxQueueLen"
    by (auto simp: server_put_def d Let_def)
qed

lemma length_server_queue: "length (server_queue R ds z) \<le> length z + length ds"
proof (induction ds arbitrary: z)
  case (Cons d ds)
  have "length (server_queue R ds (server_put R d z)) \<le> length (server_put R d z) + length ds" by (rule Cons)
  then show ?case using length_server_put(1) [of R d z] by simp
qed simp

lemma server_queue_cap: "length z \<le> maxQueueLen \<Longrightarrow> length (server_queue R ds z) \<le> maxQueueLen"
  by (induction ds arbitrary: z) (simp_all add: length_server_put(2))

text \<open>Below the cap an entry stays until it is due or its text is deposited again.\<close>

lemma server_put_below:
  assumes "length z < maxQueueLen"
  shows "set (server_put R (e, m, ttl) z) =
    {x \<in> insert (score e ttl, entry_text R m) {x \<in> set z. snd x \<noteq> entry_text R m}. unix (now e) \<le> fst x}"
proof -
  have "length (not_due e (zset_put (score e ttl) (entry_text R m) z)) \<le> maxQueueLen"
    unfolding not_due_def using length_filter_le length_zset_put assms by (meson Suc_leI le_trans)
  then show ?thesis by (auto simp: server_put_def Let_def not_due_def set_zset_put)
qed

lemma server_queue_keeps:
  assumes "length z + length ds \<le> maxQueueLen" "x \<in> set z"
    and "\<forall>(e, m, ttl) \<in> set ds. unix (now e) \<le> fst x \<and> entry_text R m \<noteq> snd x"
  shows "x \<in> set (server_queue R ds z)"
  using assms
proof (induction ds arbitrary: z)
  case (Cons d ds)
  obtain e m ttl where d: "d = (e, m, ttl)" by (rule prod_cases3)
  have "x \<in> set (server_put R d z)"
    using Cons.prems server_put_below [of z R e m ttl] by (auto simp: d)
  moreover have "length (server_put R d z) + length ds \<le> maxQueueLen"
    using length_server_put(1) [of R d z] Cons.prems(1) by simp
  ultimately show ?case using Cons.IH Cons.prems(3) by simp
qed simp

section \<open>The commands refine it\<close>

lemma px_queueTTL [simp]: "px queueTTL = queueTTL" "0 < queueTTL" "\<not> queueTTL \<le> 0"
  by (simp_all add: queueTTL_def px_def time_units)

text \<open>The key of a queue last written at \<open>t\<close>: the set, with the expiry of the key, or nothing.\<close>

definition queue_is :: "redis_entry option \<Rightarrow> int \<Rightarrow> (int \<times> string) list \<Rightarrow> bool" where
  "queue_is x t z =
     (if z = [] then alive t x = None else x = Some (RZset z, Some (t + queueTTL)))"

lemma queue_alive:
  assumes "queue_is x t z" "t \<le> t'" "t' < t + queueTTL"
  shows "alive t' x = (if z = [] then None else Some (RZset z, Some (t + queueTTL)))"
  using assms alive_later by (auto simp: queue_is_def alive_def)

lemma put_documented:
  fixes z' :: "(int \<times> string) list" and cs :: "redis_cmd list"
  assumes "queue_is (D k) t z" "t \<le> t'" "t' < t + queueTTL"
    and "z' = filter (\<lambda>(x, _). \<not> x < lo) (zset_put s m z)"
    and "cs = [ZADD k s m, ZREMRANGEBYSCORE k lo, EXPIRE k queueTTL, ZCARD k]"
  shows "\<exists>a b c. fst (doc_cmds t' cs D) = [RInt a, RInt b, RInt c, RInt (int (length z'))]"
    and "snd (doc_cmds t' cs D) k = (if z' = [] then None else Some (RZset z', Some (t' + queueTTL)))"
proof -
  let ?z = "zset_put s m z" and ?d = "if z = [] then None else Some (t + queueTTL)"
  have a: "alive t' (D k) = (if z = [] then None else Some (RZset z, Some (t + queueTTL)))"
    using queue_alive [OF assms(1-3)] .
  obtain n where 1: "redis_doc t' (ZADD k s m) D = (RInt n, D(k \<mapsto> (RZset ?z, ?d)))"
    by (cases "z = []") (simp_all add: with_zset_def a Let_def)
  have b: "alive t' (Some (RZset y, ?d)) = Some (RZset y, ?d)" for y using assms(3) by (auto simp: alive_def)
  let ?D1 = "D(k \<mapsto> (RZset ?z, ?d))" and ?D2 = "D(k := (if z' = [] then None else Some (RZset z', ?d)))"
    and ?D3 = "D(k := (if z' = [] then None else Some (RZset z', Some (t' + queueTTL))))"
  obtain n2 where 2: "redis_doc t' (ZREMRANGEBYSCORE k lo) ?D1 = (RInt n2, ?D2)"
    by (simp add: with_zset_def assms(4) b Let_def)
  have c: "alive t' (Some (RZset z', Some (t' + queueTTL))) = Some (RZset z', Some (t' + queueTTL))"
    by (simp add: alive_def)
  obtain n3 where 3: "redis_doc t' (EXPIRE k queueTTL) ?D2 = (RInt n3, ?D3)"
    by (cases "z' = []") (simp_all add: b)
  have 4: "redis_doc t' (ZCARD k) ?D3 = (RInt (int (length z')), ?D3)"
    by (cases "z' = []") (simp_all add: with_zset_def c)
  have "doc_cmds t' cs D = ([RInt n, RInt n2, RInt n3, RInt (int (length z'))], ?D3)"
    by (simp only: assms(5) doc_cmds.simps 1 2 3 4 Let_def prod.case)
  then show "\<exists>a b c. fst (doc_cmds t' cs D) = [RInt a, RInt b, RInt c, RInt (int (length z'))]"
    "snd (doc_cmds t' cs D) k = (if z' = [] then None else Some (RZset z', Some (t' + queueTTL)))" by simp_all
qed

lemma trim_documented:
  assumes "alive t (D k) = Some (RZset z, d)" "j = int (length z) - int maxQueueLen - 1" "maxQueueLen < length z"
  shows "doc_cmds t [ZREMRANGEBYRANK k j] D =
    ([RInt (int (length z - maxQueueLen))], D(k := Some (RZset (drop (length z - maxQueueLen) z), d)))"
proof -
  have n: "nat (j + 1) = length z - maxQueueLen" "\<not> j < 0" using assms(2,3) by auto
  moreover have "\<not> length z \<le> length z - maxQueueLen" using assms(3) by (simp add: maxQueueLen_def)
  ultimately show ?thesis using assms(1,3) by (simp add: with_zset_def Let_def maxQueueLen_def)
qed

context redis_server
begin

lemma deposit_refines:
  assumes "\<And>cs. link R e cs = Answered" "queue_is (db r (queue_key u)) t z"
    and "t \<le> server_time R e" "server_time R e < t + queueTTL"
  shows "\<exists>r'. AddMessageToQueue_srv R e u s m ct ttl r = (Inr (), r') \<and>
    queue_is (db r' (queue_key u)) (server_time R e) (server_put R (e, (s, m, ct), ttl) z)"
proof -
  let ?k = "queue_key u" and ?t = "server_time R e"
  let ?cs = "[ZADD ?k (score e ttl) (entry_text R (s, m, ct)), ZREMRANGEBYSCORE ?k (unix (now e)), EXPIRE ?k queueTTL, ZCARD ?k]"
  define z' where "z' = filter (\<lambda>(x, _). \<not> x < unix (now e)) (zset_put (score e ttl) (entry_text R (s, m, ct)) z)"
  have put: "server_put R (e, (s, m, ct), ttl) z = drop (length z' - maxQueueLen) z'"
    by (simp add: server_put_def not_due_def z'_def not_less Let_def)
  obtain a b c where doc: "fst (doc_cmds ?t ?cs (db r)) = [RInt a, RInt b, RInt c, RInt (int (length z'))]"
    using put_documented(1) [of "db r" ?k, OF assms(2-4) z'_def refl] by blast
  have dbk: "snd (doc_cmds ?t ?cs (db r)) ?k = (if z' = [] then None else Some (RZset z', Some (?t + queueTTL)))"
    by (rule put_documented(2) [of "db r" ?k, OF assms(2-4) z'_def refl])
  have "first_error (fst (doc_cmds ?t ?cs (db r))) = None" unfolding doc by simp
  from Exec_answered [OF assms(1) this] obtain r1 where
    ex: "Exec R e ?cs r = (Inr [RInt a, RInt b, RInt c, RInt (int (length z'))], r1)"
    and same: "same_from ?t (snd (doc_cmds ?t ?cs (db r))) (db r1)"
    unfolding doc by blast
  have alive1: "alive ?t (db r1 ?k) = (if z' = [] then None else Some (RZset z', Some (?t + queueTTL)))"
    using same_fromD [OF same order.refl, of ?k] unfolding dbk by (simp add: alive_def)
  show ?thesis
  proof (cases "maxQueueLen < length z'")
    case False
    then have "queue_is (db r1 ?k) ?t (server_put R (e, (s, m, ct), ttl) z)"
      using alive1 by (auto simp: put queue_is_def alive_Some split: if_splits)
    with ex False show ?thesis by (simp add: AddMessageToQueue_srv_def score_def int_of_def)
  next
    case True
    let ?j = "int (length z') - int maxQueueLen - 1" and ?y = "drop (length z' - maxQueueLen) z'"
    have y: "z' \<noteq> []" "?y \<noteq> []" using True by (auto simp: maxQueueLen_def)
    have "alive ?t (db r1 ?k) = Some (RZset z', Some (?t + queueTTL))" using alive1 y(1) by simp
    from trim_documented [of ?t "db r1" ?k, OF this refl True]
    have trim: "doc_cmds ?t [ZREMRANGEBYRANK ?k ?j] (db r1) =
      ([RInt (int (length z' - maxQueueLen))], (db r1)(?k := Some (RZset ?y, Some (?t + queueTTL))))" .
    have "first_error (fst (doc_cmds ?t [ZREMRANGEBYRANK ?k ?j] (db r1))) = None" unfolding trim by simp
    from Exec_answered [OF assms(1) this] obtain r2 where
      ex2: "Exec R e [ZREMRANGEBYRANK ?k ?j] r1 = (Inr [RInt (int (length z' - maxQueueLen))], r2)"
      and same2: "same_from ?t ((db r1)(?k := Some (RZset ?y, Some (?t + queueTTL)))) (db r2)"
      unfolding trim by auto
    have "alive ?t (db r2 ?k) = Some (RZset ?y, Some (?t + queueTTL))"
      using same_fromD [OF same2 order.refl, of ?k] by (simp add: alive_def)
    then have "queue_is (db r2 ?k) ?t ?y" using y(2) by (simp add: queue_is_def alive_Some)
    with ex ex2 True show ?thesis
      by (simp add: AddMessageToQueue_srv_def score_def int_of_def status_cmd_def do_cmd_def put)
  qed
qed

lemma deposits_refine:
  assumes "queue_is (db r (queue_key u)) t z" "\<forall>(e, m, ttl) \<in> set ds. \<forall>cs. link R e cs = Answered"
    and "successively (\<lambda>a b. a \<le> b \<and> b < a + queueTTL) (t # map (server_time R \<circ> fst) ds @ [t'])"
  shows "\<exists>t0. queue_is (db (deposits R u ds r) (queue_key u)) t0 (server_queue R ds z) \<and> t0 \<le> t' \<and> t' < t0 + queueTTL"
  using assms
proof (induction ds arbitrary: r t z)
  case (Cons d ds)
  obtain e s m ct ttl where d: "d = (e, (s, m, ct), ttl)" by (metis prod_cases3)
  have l: "link R e cs = Answered" for cs using Cons.prems(2) d by simp
  have tt: "t \<le> server_time R e" "server_time R e < t + queueTTL" using Cons.prems(3) d by simp_all
  obtain r' where r': "AddMessageToQueue_srv R e u s m ct ttl r = (Inr (), r')"
      "queue_is (db r' (queue_key u)) (server_time R e) (server_put R d z)"
    using deposit_refines [OF l Cons.prems(1) tt] d by blast
  have "\<exists>t0. queue_is (db (deposits R u ds r') (queue_key u)) t0 (server_queue R ds (server_put R d z)) \<and> t0 \<le> t' \<and> t' < t0 + queueTTL"
    by (rule Cons.IH [OF r'(2)]) (use Cons.prems d in auto)
  then show ?case using d r'(1) by simp
qed auto

lemma fetch_refines:
  assumes "\<And>cs. link R e cs = Answered" "queue_is (db r (queue_key u)) t z"
    and "t \<le> server_time R e" "server_time R e < t + queueTTL"
  shows "\<exists>r'. FetchAndClearQueue_srv R e u r = (Inr (map (read_entry R \<circ> snd) (not_due e z)), r') \<and>
    alive (server_time R e) (db r' (queue_key u)) = None"
proof -
  let ?k = "queue_key u" and ?t = "server_time R e"
  have "fst (redis_doc ?t (ZRANGEBYSCORE ?k (unix (now e))) (db r)) = RList (map snd (not_due e z))"
    using queue_alive [OF assms(2-4)] by (auto simp: with_zset_def Let_def not_due_def)
  then have "fst (doc_cmds ?t [ZRANGEBYSCORE ?k (unix (now e))] (db r)) = [RList (map snd (not_due e z))]"
    by (simp del: redis_doc.simps doc_cmds.simps)
  then obtain r1 where 1: "Exec R e [ZRANGEBYSCORE ?k (unix (now e))] r = (Inr [RList (map snd (not_due e z))], r1)"
    using Exec_answered [OF assms(1), of "[ZRANGEBYSCORE ?k (unix (now e))]" r] by auto
  have "first_error (fst (doc_cmds ?t [DEL ?k] (db r1))) = None" by simp
  from Exec_answered [OF assms(1) this] obtain xs r2 where 2: "Exec R e [DEL ?k] r1 = (Inr xs, r2)"
      "same_from ?t (snd (doc_cmds ?t [DEL ?k] (db r1))) (db r2)" by blast
  have "alive ?t (db r2 ?k) = None" using same_fromD [OF 2(2) order.refl, of ?k] by simp
  with 1 2(1) show ?thesis by (simp add: FetchAndClearQueue_srv_def list_cmd_def status_cmd_def do_cmd_def)
qed

end

section \<open>What a recipient is given\<close>

text \<open>
  C34. The offline queue on a Redis server, for one recipient: after any deposits into an empty queue, each call
  answered by the server and no two calls seven days or more apart (the expiry of the key), the fetch succeeds and
  returns the entries of the list specification \<open>server_queue\<close> that are not due, whatever had come due in
  between and however far the deposits exceed the cap of 1000. Hence it returns only deposited messages whose second
  of expiry has not passed, at most 1000, no text twice, ordered by the second of expiry and, within a second, by
  their JSON text; the order of arrival is not kept. With at most 1000 deposits nothing is lost: a message
  whose last deposit is not due is returned, if the clock of the relay did not run backwards; above the cap the entries
  that expire soonest make room. A second fetch returns nothing.
\<close>

theorem server_queue_contents:
  assumes "redis_server R db" "alive t (db r (queue_key u)) = None"
    and "\<forall>(e, m, ttl) \<in> set ds. \<forall>cs. link R e cs = Answered" "\<And>cs. link R e' cs = Answered"
    and "successively (\<lambda>a b. a \<le> b \<and> b < a + queueTTL) (t # map (server_time R \<circ> fst) ds @ [server_time R e'])"
    and "\<forall>(e, m, ttl) \<in> set ds. read_entry R (entry_text R m) = m"
  shows "\<exists>z ms r'. FetchAndClearQueue_srv R e' u (deposits R u ds r) = (Inr ms, r') \<and>
    z = not_due e' (server_queue R ds []) \<and> ms = map (read_entry R \<circ> snd) z \<and>
    sorted z \<and> distinct ms \<and> length ms \<le> maxQueueLen \<and>
    (\<forall>x \<in> set z. unix (now e') \<le> fst x \<and> (\<exists>(e, m, ttl) \<in> set ds. x = (score e ttl, entry_text R m))) \<and>
    (\<forall>ds1 e m ttl ds2. ds = ds1 @ (e, m, ttl) # ds2 \<longrightarrow> m \<notin> fst ` snd ` set ds2 \<longrightarrow> unix (now e') \<le> score e ttl \<longrightarrow>
       length ds \<le> maxQueueLen \<longrightarrow> (\<forall>d \<in> set ds. unix (now (fst d)) \<le> unix (now e')) \<longrightarrow> m \<in> set ms) \<and>
    (\<forall>e''. (\<forall>cs. link R e'' cs = Answered) \<longrightarrow>
       server_time R e' \<le> server_time R e'' \<longrightarrow> server_time R e'' < server_time R e' + queueTTL \<longrightarrow>
       (\<exists>r''. FetchAndClearQueue_srv R e'' u r' = (Inr [], r'')))"
proof -
  let ?q = "server_queue R ds []"
  let ?z = "not_due e' ?q"
  let ?ms = "map (read_entry R \<circ> snd) ?z"
  have "queue_is (db r (queue_key u)) t []" using assms(2) by (simp add: queue_is_def)
  from redis_server.deposits_refine [OF assms(1) this assms(3,5)] obtain t0 where
    t0: "queue_is (db (deposits R u ds r) (queue_key u)) t0 ?q" "t0 \<le> server_time R e'" "server_time R e' < t0 + queueTTL"
    by blast
  obtain r' where f: "FetchAndClearQueue_srv R e' u (deposits R u ds r) = (Inr ?ms, r')"
      "alive (server_time R e') (db r' (queue_key u)) = None"
    using redis_server.fetch_refines [OF assms(1,4) t0] by blast
  have ok: "zset_ok ?z" by (simp add: zset_ok_not_due zset_ok_server_queue)
  have from_ds: "\<exists>(e, m, ttl) \<in> set ds. x = (score e ttl, entry_text R m)" if "x \<in> set ?q" for x
    using set_server_queue [OF that] by simp
  have reread: "entry_text R (read_entry R y) = y" if "y \<in> snd ` set ?z" for y
    using that from_ds assms(6) by (fastforce simp: not_due_def)
  have "distinct ?ms"
    using ok inj_on_inverseI [of "snd ` set ?z" "entry_text R" "read_entry R"] reread
    by (simp add: zset_ok_def distinct_map comp_inj_on)
  moreover have "length ?z \<le> length ?q" unfolding not_due_def by (rule length_filter_le)
  then have "length ?ms \<le> maxQueueLen" using server_queue_cap [of "[]" R ds] by simp
  moreover have "m \<in> set ?ms"
    if ds: "ds = ds1 @ (e, m, ttl) # ds2" "m \<notin> fst ` snd ` set ds2" "unix (now e') \<le> score e ttl" "length ds \<le> maxQueueLen"
      and clock: "\<forall>d \<in> set ds. unix (now (fst d)) \<le> unix (now e')" for ds1 e m ttl ds2
  proof -
    let ?x = "(score e ttl, entry_text R m)" and ?q1 = "server_queue R ds1 []"
    have len: "length ?q1 < maxQueueLen" "length (server_put R (e, m, ttl) ?q1) + length ds2 \<le> maxQueueLen"
      using length_server_queue [of R ds1 "[]"] length_server_put(1) [of R "(e, m, ttl)" ?q1] ds(1,4) by simp_all
    have "?x \<in> set (server_put R (e, m, ttl) ?q1)"
      using server_put_below [OF len(1), of R e m ttl] ds(1,3) clock by auto
    moreover have "unix (now e2) \<le> fst ?x \<and> entry_text R m2 \<noteq> snd ?x" if in2: "(e2, m2, ttl2) \<in> set ds2" for e2 m2 ttl2
    proof -
      have in_ds: "(e2, m2, ttl2) \<in> set ds" "(e, m, ttl) \<in> set ds" using in2 ds(1) by simp_all
      have "unix (now e2) \<le> unix (now e')" using bspec [OF clock in_ds(1)] by simp
      moreover have "m2 \<noteq> m" using in2 ds(2) by force
      moreover have "read_entry R (entry_text R m2) = m2" "read_entry R (entry_text R m) = m"
        using bspec [OF assms(6) in_ds(1)] bspec [OF assms(6) in_ds(2)] by simp_all
      ultimately have "unix (now e2) \<le> unix (now e')" "entry_text R m2 \<noteq> entry_text R m" by metis+
      then show ?thesis using ds(3) by simp
    qed
    ultimately have "?x \<in> set ?q"
      using server_queue_keeps [OF len(2), of ?x R] unfolding ds(1) server_queue_append by force
    then have "?x \<in> set ?z" using ds(3) by (simp add: not_due_def)
    then have "read_entry R (entry_text R m) \<in> set ?ms" by (force simp: image_iff)
    then show ?thesis using assms(6) ds(1) by simp
  qed
  moreover have "\<exists>r''. FetchAndClearQueue_srv R e'' u r' = (Inr [], r'')"
    if "\<And>cs. link R e'' cs = Answered" "server_time R e' \<le> server_time R e''"
      "server_time R e'' < server_time R e' + queueTTL" for e''
    using redis_server.fetch_refines [OF assms(1) that(1) _ that(2,3), of r' u "[]"] f(2)
    by (auto simp: queue_is_def not_due_def)
  ultimately show ?thesis
    using f(1) ok from_ds by (intro exI [of _ ?z] exI [of _ ?ms] exI [of _ r']) (auto simp: zset_ok_def not_due_def)
qed

text \<open>Deposited: \<open>b\<close>, \<open>a\<close>, \<open>b\<close> again, and \<open>c\<close>, which is due before the fetch.\<close>

definition four_deposits :: "deposit list" where
  "four_deposits = map (\<lambda>(m, ttl). (env0, ([], m, []), ttl)) [(''b'', Hour), (''a'', Hour), (''b'', Hour), (''c'', Minute)]"

theorem server_queue_contents_witness:
  "\<exists>ms r'. FetchAndClearQueue_srv reference_server (env0\<lparr>now := 2 * Minute\<rparr>) ''u''
       (deposits reference_server ''u'' four_deposits Map.empty) = (Inr ms, r') \<and>
     set ms = {([], ''a'', []), ([], ''b'', [])} \<and> distinct ms"
proof -
  let ?e = "env0\<lparr>now := 2 * Minute\<rparr>"
  have R: "link reference_server e cs = Answered" "server_time reference_server e = now e"
      "read_entry reference_server (entry_text reference_server ([], m, [])) = ([], m, [])" for e cs m
    by (simp_all add: reference_server_def read_entry_def)
  have a: "alive 0 ((Map.empty :: redis_db) (queue_key ''u'')) = None"
    "\<forall>(e, m, ttl) \<in> set four_deposits. \<forall>cs. link reference_server e cs = Answered"
    "successively (\<lambda>a b. a \<le> b \<and> b < a + queueTTL)
      (0 # map (server_time reference_server \<circ> fst) four_deposits @ [server_time reference_server ?e])"
    "\<forall>(e, m, ttl) \<in> set four_deposits. read_entry reference_server (entry_text reference_server m) = m"
    by (auto simp: four_deposits_def R env0_def queueTTL_def time_units)
  have clock: "\<forall>d \<in> set four_deposits. unix (now (fst d)) \<le> unix (now ?e)" "length four_deposits \<le> maxQueueLen"
    by (auto simp: four_deposits_def env0_def unix_def time_units maxQueueLen_def)
  have s: "unix (now ?e) = 120" "score env0 Hour = 3600" "score env0 Minute = 60"
    by (simp_all add: score_def unix_def time_units env0_def)
  have split: "four_deposits = take 1 four_deposits @ (env0, ([], ''a'', []), Hour) # drop 2 four_deposits"
    "four_deposits = take 2 four_deposits @ (env0, ([], ''b'', []), Hour) # drop 3 four_deposits"
    by (simp_all add: four_deposits_def)
  have rest: "([], ''a'', []) \<notin> fst ` snd ` set (drop 2 four_deposits)" "([], ''b'', []) \<notin> fst ` snd ` set (drop 3 four_deposits)"
    by (simp_all add: four_deposits_def)
  from server_queue_contents [where u = "''u''", OF reference.redis_server_axioms a(1,2) R(1) a(3,4)] show ?thesis
  proof (elim exE conjE, goal_cases)
    case (1 z ms r')
    note all = 1(8) [rule_format, OF split(1) rest(1) _ clock(2)] 1(8) [rule_format, OF split(2) rest(2) _ clock(2)]
    have "([], ''a'', []) \<in> set ms" "([], ''b'', []) \<in> set ms" using all clock(1) s by simp_all
    moreover have "y = ([], ''a'', []) \<or> y = ([], ''b'', [])" if y: "y \<in> set ms" for y
    proof -
      obtain x where x: "x \<in> set z" "y = read_entry reference_server (snd x)" using y 1(3) by auto
      with 1(7) obtain e m ttl where d: "(e, m, ttl) \<in> set four_deposits" "x = (score e ttl, entry_text reference_server m)"
          "120 \<le> score e ttl" using s(1) by fastforce
      then show ?thesis using x(2) s(2,3) R(3) by (auto simp: four_deposits_def)
    qed
    ultimately have "set ms = {([], ''a'', []), ([], ''b'', [])}" by blast
    with 1(1,5) show ?case by blast
  qed
qed

end
