(* ===== verification/Boot.thy ===== *)
theory Boot
  imports Relay_System
begin

text \<open>
  Start-up: what \<open>main\<close> makes of the environment variables, and how it copes with what is missing.
  The process environment, the files, the key parsers and the outcome of opening each service are
  the record \<open>boot_world\<close>; an unset variable reads as the empty string.
\<close>

section \<open>The world at start-up\<close>

text \<open>
  The key file of a service account as \<open>encoding/json\<close> decodes it. \<open>pem_block\<close> is the first PEM
  block of a text; \<open>pkcs8_key\<close> says whether its bytes parse as PKCS#8 and, then, whether the key is
  an RSA key, \<open>pkcs1_key\<close> whether they parse as PKCS#1.
\<close>

record key_file =
  kf_ProjectID :: string
  kf_PrivateKey :: string
  kf_ClientEmail :: string
  kf_TokenURI :: string

record boot_world =
  Getenv :: "string \<Rightarrow> string"
  ReadFile :: "string \<Rightarrow> string option"
  key_file_json :: "string \<Rightarrow> key_file option"
  pem_block :: "string \<Rightarrow> bytes option"
  pkcs8_key :: "bytes \<Rightarrow> bool option"
  pkcs1_key :: "bytes \<Rightarrow> bool"
  ed_generate :: "(bytes \<times> bytes) option"
  redis_pings :: "string \<Rightarrow> int \<Rightarrow> bool"
  sql_Open :: "string \<Rightarrow> bool"
  sql_Ping :: "string \<Rightarrow> bool"
  migrates :: "string \<Rightarrow> bool"
  minio_New :: "string \<Rightarrow> string \<Rightarrow> string \<Rightarrow> bool \<Rightarrow> bool"
  BucketExists :: "string \<Rightarrow> string \<Rightarrow> bool option"
  MakeBucket :: "string \<Rightarrow> string \<Rightarrow> bool"
  MkdirAll :: "string \<Rightarrow> bool"

definition getenv_or :: "boot_world \<Rightarrow> string \<Rightarrow> string \<Rightarrow> string" where
  "getenv_or w name dflt = (if Getenv w name = [] then dflt else Getenv w name)"

section \<open>The globals\<close>

text \<open>An unknown mode keeps the mode there was.\<close>

definition initChallengeEnv :: "boot_world \<Rightarrow> challenge_mode \<Rightarrow> challenge_mode" where
  "initChallengeEnv w mode =
     (let m = Getenv w ''WK_CHALLENGE_MODE'' in
      if m = [] \<or> m = ''off'' then Off
      else if m = ''adaptive'' then Adaptive
      else if m = ''always'' then Always
      else mode)"

definition issuance_difficulty :: "boot_world \<Rightarrow> nat \<Rightarrow> nat" where
  "issuance_difficulty w dflt =
     (let d = Getenv w ''WK_ISSUANCE_DIFFICULTY'' in
      if d = [] then dflt
      else (case ParseInt d of
              Some n \<Rightarrow> if 1 \<le> n \<and> n \<le> 12 then nat n else dflt
            | None \<Rightarrow> dflt))"

definition daily_ip_cap :: "boot_world \<Rightarrow> int \<Rightarrow> int" where
  "daily_ip_cap w dflt =
     (let c = Getenv w ''WK_ISSUANCE_DAILY_IP'' in
      if c = [] then dflt
      else (case ParseInt c of
              Some n \<Rightarrow> if 1 \<le> n then n else dflt
            | None \<Rightarrow> dflt))"

definition boot_globals :: "boot_world \<Rightarrow> relay_globals" where
  "boot_globals w =
     \<lparr> challengeMode = initChallengeEnv w (challengeMode default_globals),
       issuanceDifficulty = issuance_difficulty w (issuanceDifficulty default_globals),
       issuanceDailyIPCap = daily_ip_cap w (issuanceDailyIPCap default_globals),
       testMode = (Getenv w ''WK_TEST_MODE'' = ''true'') \<rparr>"

section \<open>The stores\<close>

text \<open>A bad \<open>REDIS_DB\<close> means the database 0; a server that does not answer, the in-memory client.\<close>

definition redis_database :: "boot_world \<Rightarrow> int" where
  "redis_database w =
     (let dbStr = Getenv w ''REDIS_DB'' in
      if dbStr = [] then 0 else (case ParseInt dbStr of Some n \<Rightarrow> n | None \<Rightarrow> 0))"

definition boot_redis :: "boot_world \<Rightarrow> bool" where
  "boot_redis w = redis_pings w (getenv_or w ''REDIS_ADDR'' ''localhost:6379'') (redis_database w)"

text \<open>Without \<open>POSTGRES_URL\<close>, or when it cannot be opened, the relay runs without Postgres.\<close>

text \<open>A client with its tables, or none; a database whose migrations fail is closed again.\<close>

definition NewPostgresClient :: "boot_world \<Rightarrow> string \<Rightarrow> unit result" where
  "NewPostgresClient w connStr =
     (if \<not> sql_Open w connStr then Inl ''failed to open postgres''
      else if \<not> sql_Ping w connStr then Inl ''failed to ping postgres''
      else if \<not> migrates w connStr then Inl ''failed to run postgres migrations''
      else Inr ())"

definition boot_postgres :: "boot_world \<Rightarrow> bool" where
  "boot_postgres w =
     (Getenv w ''POSTGRES_URL'' \<noteq> [] \<and> NewPostgresClient w (Getenv w ''POSTGRES_URL'') = Inr ())"

text \<open>The bucket is created when it is known not to exist.\<close>

definition NewS3Storage :: "boot_world \<Rightarrow> string \<Rightarrow> string \<Rightarrow> string \<Rightarrow> string \<Rightarrow> bool \<Rightarrow> storage_client option" where
  "NewS3Storage w endpointURL accessKey secretKey bucketName useSSL =
     (if \<not> minio_New w endpointURL accessKey secretKey useSSL then None
      else (case BucketExists w endpointURL bucketName of
              None \<Rightarrow> None
            | Some exists \<Rightarrow>
                if \<not> exists \<and> \<not> MakeBucket w endpointURL bucketName then None
                else Some (S3StorageClient bucketName endpointURL useSSL)))"

definition NewLocalStorage :: "boot_world \<Rightarrow> string \<Rightarrow> storage_client option" where
  "NewLocalStorage w dir = (if MkdirAll w dir then Some (LocalStorageClient dir) else None)"

text \<open>The bucket if its three variables are set and it opens, the local directory otherwise.\<close>

definition boot_storage :: "boot_world \<Rightarrow> storage_client option" where
  "boot_storage w =
     (let bucketEndpoint = Getenv w ''BUCKET_ENDPOINT'';
          bucketAccessKey = Getenv w ''BUCKET_ACCESS_KEY'';
          bucketSecretKey = Getenv w ''BUCKET_SECRET_KEY'';
          bucketName = getenv_or w ''BUCKET_NAME'' ''wiltkey-files'';
          useSSL = (Getenv w ''BUCKET_USE_SSL'' = ''true'');
          localDir = getenv_or w ''WK_LOCAL_STORAGE_DIR'' ''./wiltkey_local_storage''
      in if bucketEndpoint \<noteq> [] \<and> bucketAccessKey \<noteq> [] \<and> bucketSecretKey \<noteq> [] then
           (case NewS3Storage w bucketEndpoint bucketAccessKey bucketSecretKey bucketName useSSL of
              Some store \<Rightarrow> Some store
            | None \<Rightarrow> NewLocalStorage w localDir)
         else NewLocalStorage w localDir)"

section \<open>Google's credentials\<close>

definition parseRSAPrivateKey :: "boot_world \<Rightarrow> string \<Rightarrow> bool" where
  "parseRSAPrivateKey w pemStr =
     (case pem_block w pemStr of
        None \<Rightarrow> False
      | Some block \<Rightarrow>
          (case pkcs8_key w block of
             Some rsa \<Rightarrow> rsa
           | None \<Rightarrow> pkcs1_key w block))"

definition default_token_uri :: "serviceAccount \<Rightarrow> serviceAccount" where
  "default_token_uri sa =
     (if sa_TokenURI sa = [] then sa\<lparr>sa_TokenURI := ''https://oauth2.googleapis.com/token''\<rparr> else sa)"

definition account_of :: "key_file \<Rightarrow> serviceAccount" where
  "account_of k = \<lparr>sa_ProjectID = kf_ProjectID k, sa_ClientEmail = kf_ClientEmail k, sa_TokenURI = kf_TokenURI k\<rparr>"

text \<open>The account of a sender, \<open>None\<close> for a disabled one.\<close>

definition NewPushSender :: "boot_world \<Rightarrow> serviceAccount option" where
  "NewPushSender w =
     (let path = TrimSpace (Getenv w ''FCM_CREDENTIALS_FILE'') in
      if path = [] then None
      else (case ReadFile w path of
              None \<Rightarrow> None
            | Some raw \<Rightarrow>
                (case key_file_json w raw of
                   None \<Rightarrow> None
                 | Some k \<Rightarrow>
                     if kf_ProjectID k = [] \<or> kf_ClientEmail k = [] \<or> kf_PrivateKey k = [] then None
                     else if \<not> parseRSAPrivateKey w (kf_PrivateKey k) then None
                     else Some (default_token_uri (account_of k)))))"

text \<open>The part that both verifiers share: the package and the account.\<close>

definition play_credentials :: "boot_world \<Rightarrow> string \<Rightarrow> (string \<times> serviceAccount) option" where
  "play_credentials w path =
     (if path = [] then None
      else
        let p = TrimSpace (Getenv w ''PLAY_PACKAGE_NAME'');
            pkg = (if p = [] then ''xyz.artfacility.wiltkey'' else p)
        in (case ReadFile w path of
              None \<Rightarrow> None
            | Some raw \<Rightarrow>
                (case key_file_json w raw of
                   None \<Rightarrow> None
                 | Some k \<Rightarrow>
                     if kf_ClientEmail k = [] \<or> kf_PrivateKey k = [] then None
                     else if \<not> parseRSAPrivateKey w (kf_PrivateKey k) then None
                     else Some (pkg, default_token_uri (account_of k)))))"

definition NewPlayVerifier :: "boot_world \<Rightarrow> (string \<times> serviceAccount) option" where
  "NewPlayVerifier w = play_credentials w (TrimSpace (Getenv w ''PLAY_CREDENTIALS_FILE''))"

text \<open>The signing key of the relay; \<open>None\<close> ends the process.\<close>

definition relay_key :: "boot_world \<Rightarrow> (bytes \<times> bytes) option" where
  "relay_key w =
     (case DecodeString (TrimSpace (Getenv w ''RELAY_ATTESTATION_KEY'')) of
        Some keyBytes \<Rightarrow>
          if TrimSpace (Getenv w ''RELAY_ATTESTATION_KEY'') \<noteq> [] \<and> length keyBytes = 64
          then Some (drop 32 keyBytes, keyBytes) else ed_generate w
      | None \<Rightarrow> ed_generate w)"

definition NewPlayIntegrityVerifier ::
  "boot_world \<Rightarrow> ((bytes \<times> bytes) \<times> (string \<times> serviceAccount) option) option" where
  "NewPlayIntegrityVerifier w =
     (case relay_key w of
        None \<Rightarrow> None
      | Some key \<Rightarrow>
          let p = TrimSpace (Getenv w ''PLAY_CREDENTIALS_FILE'');
              path = (if p = [] then TrimSpace (Getenv w ''INTEGRITY_CREDENTIALS_FILE'') else p)
          in Some (key, play_credentials w path))"

section \<open>main\<close>

record booted =
  bt_port :: string
  bt_globals :: relay_globals
  bt_redis :: bool
  bt_postgres :: bool
  bt_cleanup :: bool
  bt_storage :: storage_client
  bt_push :: "serviceAccount option"
  bt_play :: "(string \<times> serviceAccount) option"
  bt_integrity :: "(string \<times> serviceAccount) option"
  bt_relay_key :: "bytes \<times> bytes"

text \<open>The relay up to \<open>ListenAndServe\<close> (the cleanup worker runs only with Postgres), or the text it dies with.\<close>

definition boot :: "boot_world \<Rightarrow> booted result" where
  "boot w =
     (case boot_storage w of
        None \<Rightarrow> Inl ''Failed to initialize local storage fallback''
      | Some store \<Rightarrow>
          (case NewPlayIntegrityVerifier w of
             None \<Rightarrow> Inl ''[Integrity] Failed to generate ephemeral relay key''
           | Some (key, integrity) \<Rightarrow>
               Inr \<lparr> bt_port = getenv_or w ''PORT'' ''8000'', bt_globals = boot_globals w,
                     bt_redis = boot_redis w,
                     bt_postgres = boot_postgres w,
                     bt_cleanup = boot_postgres w, bt_storage = store, bt_push = NewPushSender w,
                     bt_play = NewPlayVerifier w, bt_integrity = integrity, bt_relay_key = key \<rparr>))"

text \<open>What a step of the booted relay sees: its globals, accounts and keys.\<close>

definition booted_env :: "booted \<Rightarrow> env \<Rightarrow> env" where
  "booted_env b e = e\<lparr>globals := bt_globals b, push_enabled := bt_push b \<noteq> None,
     play_enabled := bt_play b \<noteq> None, play_package := (case bt_play b of None \<Rightarrow> [] | Some (pkg, _) \<Rightarrow> pkg),
     integrity_enabled := bt_integrity b \<noteq> None,
     integrity_package := (case bt_integrity b of None \<Rightarrow> [] | Some (pkg, _) \<Rightarrow> pkg),
     relay_pub := fst (bt_relay_key b)\<rparr>"

section \<open>The properties\<close>

lemma globals_bounds:
  "1 \<le> issuanceDifficulty (boot_globals w) \<and> issuanceDifficulty (boot_globals w) \<le> 12 \<and>
   1 \<le> issuanceDailyIPCap (boot_globals w)"
  by (auto simp: boot_globals_def issuance_difficulty_def daily_ip_cap_def default_globals_def Let_def
      split: option.splits)

text \<open>
  C37. Whatever the environment variables are, a relay that comes up asks for a proof of work of one
  to twelve zeros, so that no token is issued for nothing: every digest it accepts begins with a zero;
  it allows at least one issuance per address and day; and it comes up unless neither the bucket nor
  the local directory can be opened or no signing key can be generated.
\<close>

theorem boot_gate_bounds:
  "(boot w = Inr b \<longrightarrow>
      1 \<le> issuanceDifficulty (bt_globals b) \<and> issuanceDifficulty (bt_globals b) \<le> 12 \<and> 1 \<le> issuanceDailyIPCap (bt_globals b) \<and>
      (\<forall>ch m i. spend_proof (bt_globals b) ch m i \<longrightarrow>
         hd (hexEncode (sha256 (bytes_of (ch @ FormatInt (m_PowNonce i) @ m_Pubkey m)))) = CHR ''0'')) \<and>
   ((\<exists>b. boot w = Inr b) \<longleftrightarrow> boot_storage w \<noteq> None \<and> relay_key w \<noteq> None)"
proof -
  have zero: "hd (hexEncode h) = CHR ''0''" if "HasPrefix (hexEncode h) (replicate n (CHR ''0''))" "1 \<le> n" for h n
    using that by (cases n) (auto simp: HasPrefix_iff)
  have g: "boot w = Inr b \<Longrightarrow> bt_globals b = boot_globals w"
    by (auto simp: boot_def split: option.splits prod.splits)
  have "hd (hexEncode (sha256 (bytes_of (ch @ FormatInt (m_PowNonce i) @ m_Pubkey m)))) = CHR ''0''"
    if "boot w = Inr b" "spend_proof (bt_globals b) ch m i" for ch m i
    using that(2) globals_bounds [of w] zero unfolding g [OF that(1)] spend_proof_def VerifyPoW_def Let_def by blast
  moreover have "(\<exists>b. boot w = Inr b) \<longleftrightarrow> boot_storage w \<noteq> None \<and> relay_key w \<noteq> None"
    by (auto simp: boot_def NewPlayIntegrityVerifier_def Let_def split: option.splits)
  ultimately show ?thesis using globals_bounds [of w] g by auto
qed

text \<open>A process with no variables set, no key files and no Redis.\<close>

definition bare_world :: boot_world where
  "bare_world =
     \<lparr> Getenv = (\<lambda>_. []), ReadFile = (\<lambda>_. None), key_file_json = (\<lambda>_. None), pem_block = (\<lambda>_. None),
       pkcs8_key = (\<lambda>_. None), pkcs1_key = (\<lambda>_. False), ed_generate = Some (replicate 32 0, replicate 64 0),
       redis_pings = (\<lambda>_ _. False), sql_Open = (\<lambda>_. False), sql_Ping = (\<lambda>_. False), migrates = (\<lambda>_. False),
       minio_New = (\<lambda>_ _ _ _. False), BucketExists = (\<lambda>_ _. None), MakeBucket = (\<lambda>_ _. False), MkdirAll = (\<lambda>_. True) \<rparr>"

theorem boot_gate_bounds_witness:
  "\<exists>b. boot bare_world = Inr b \<and> issuanceDifficulty (bt_globals b) \<le> 12"
proof -
  have "boot_storage bare_world \<noteq> None" "relay_key bare_world \<noteq> None"
    by (simp_all add: boot_storage_def relay_key_def bare_world_def NewLocalStorage_def split: option.splits)
  with boot_gate_bounds [of bare_world] show ?thesis by blast
qed

end
