(* ===== verification/Puzzle_Play.thy ===== *)
theory Puzzle_Play
  imports Ws_Auth
begin

text \<open>
  The puzzle tester of cmd/puzzleplay: a server that leads a client through the handshake of the
  relay, with the relay's own proof of work and puzzle, and then serves puzzles on the socket until one
  is solved. As in the relay, its one goroutine per socket is cut at its reads.
\<close>

section \<open>State and frames\<close>

text \<open>The counters of the process are 64-bit and wrap; the random source is shared by the sockets.\<close>

record tester =
  entropy :: "nat \<Rightarrow> nat \<Rightarrow> bytes option"
  entropy_drawn :: nat
  roundsPresented :: "64 word"
  roundsSolved :: "64 word"
  roundsFailed :: "64 word"

record wsFrame =
  w_Type :: string
  w_Challenge :: string
  w_Pubkey :: string
  w_Signature :: string
  w_UserID :: string
  w_DeviceToken :: string
  w_PowNonce :: int
  w_Difficulty :: int
  w_ChallengeID :: string
  w_PuzzleSeed :: string
  w_PuzzleKind :: string
  w_PuzzleStrips :: int
  w_PuzzleAnswer :: "int option"
  w_Message :: string

definition ws_frame :: "string \<Rightarrow> wsFrame" where
  "ws_frame t =
     \<lparr> w_Type = t, w_Challenge = [], w_Pubkey = [], w_Signature = [], w_UserID = [], w_DeviceToken = [],
       w_PowNonce = 0, w_Difficulty = 0, w_ChallengeID = [], w_PuzzleSeed = [], w_PuzzleKind = [],
       w_PuzzleStrips = 0, w_PuzzleAnswer = None, w_Message = [] \<rparr>"

text \<open>
  The phases of a socket: waiting for \<open>AUTH\<close>, for the proof of work of an accepted key, for the
  solution of a puzzle, each with its deadline; over. A panic of the goroutine closes the socket too.
\<close>

datatype play_phase =
    PlayAuth string int
  | PlayIssue string string int
  | PlayRound string string string int
  | PlayOver

datatype play_input = PlayFails | PlayGarbled | PlayFrame wsFrame

type_synonym play_answer = "play_phase \<times> wsFrame list \<times> tester"

section \<open>The code\<close>

definition playDifficulty :: int where "playDifficulty = 1"

text \<open>\<open>None\<close> is the panic on a failing random source.\<close>

definition play_randomHex :: "nat \<Rightarrow> tester \<Rightarrow> string option \<times> tester" where
  "play_randomHex nBytes t =
     (map_option hexEncode (entropy t (entropy_drawn t) nBytes), t\<lparr>entropy_drawn := entropy_drawn t + 1\<rparr>)"

text \<open>Only the identities of keys whose hex has been decoded are asked for.\<close>

definition userIDFromPubkey :: "string \<Rightarrow> string" where
  "userIDFromPubkey pubHex = hexEncode (sha256 (case DecodeString pubHex of None \<Rightarrow> [] | Some b \<Rightarrow> b))"

text \<open>The head of the loop: a fresh puzzle.\<close>

definition play_round :: "env \<Rightarrow> string \<Rightarrow> tester \<Rightarrow> play_answer" where
  "play_round e userID t =
     (case play_randomHex 16 t of
        (None, t1) \<Rightarrow> (PlayOver, [], t1)
      | (Some seed, t1) \<Rightarrow>
          (case play_randomHex 16 t1 of
             (None, t2) \<Rightarrow> (PlayOver, [], t2)
           | (Some challengeID, t2) \<Rightarrow>
               (PlayRound userID seed challengeID (now e + puzzleSolutionDeadline),
                [(ws_frame ''AUTH_CHALLENGE_REQUIRED'')\<lparr>w_ChallengeID := challengeID, w_PuzzleSeed := seed,
                   w_PuzzleKind := ''strip_slide'', w_PuzzleStrips := PuzzleStrips\<rparr>],
                t2\<lparr>roundsPresented := roundsPresented t2 + 1\<rparr>)))"

text \<open>A miss is counted and reported, and the next puzzle follows on the same socket.\<close>

definition failRound :: "tester \<Rightarrow> wsFrame list \<times> tester" where
  "failRound t =
     ([(ws_frame ''AUTH_REJECTED'')\<lparr>w_Message := ''challenge_failed''\<rparr>], t\<lparr>roundsFailed := roundsFailed t + 1\<rparr>)"

definition play_again :: "env \<Rightarrow> string \<Rightarrow> tester \<Rightarrow> play_answer" where
  "play_again e userID t =
     (let (reject, t1) = failRound t; (ph, out, t2) = play_round e userID t1 in (ph, reject @ out, t2))"

definition play_open :: "env \<Rightarrow> bool \<Rightarrow> tester \<Rightarrow> play_answer" where
  "play_open e upgraded t =
     (if \<not> upgraded then (PlayOver, [], t)
      else (case play_randomHex 32 t of
              (None, t1) \<Rightarrow> (PlayOver, [], t1)
            | (Some challengeHex, t1) \<Rightarrow>
                (PlayAuth challengeHex (now e + 10 * Second), [(ws_frame ''CHALLENGE'')\<lparr>w_Challenge := challengeHex\<rparr>], t1)))"

definition play_auth :: "env \<Rightarrow> int \<Rightarrow> string \<Rightarrow> play_input \<Rightarrow> tester \<Rightarrow> play_answer" where
  "play_auth e difficulty challengeHex input t =
     (case input of
        PlayFrame authMsg \<Rightarrow>
          if w_Type authMsg \<noteq> ''AUTH'' then (PlayOver, [], t)
          else (case DecodeString (w_Pubkey authMsg) of
                  None \<Rightarrow> (PlayOver, [], t)
                | Some pubKeyBytes \<Rightarrow>
                    if length pubKeyBytes \<noteq> 32 then (PlayOver, [], t)
                    else (case DecodeString (w_Signature authMsg) of
                            None \<Rightarrow> (PlayOver, [], t)
                          | Some sig \<Rightarrow>
                              if \<not> (length sig = 64 \<and> ed_verify e pubKeyBytes (bytes_of challengeHex) sig) then (PlayOver, [], t)
                              else (PlayIssue challengeHex (w_Pubkey authMsg) (now e + 120 * Second),
                                    [(ws_frame ''TOKEN_CHALLENGE'')\<lparr>w_Challenge := challengeHex, w_Difficulty := difficulty\<rparr>], t)))
      | _ \<Rightarrow> (PlayOver, [], t))"

text \<open>\<open>VerifyPoW\<close> panics on a negative difficulty: the count of \<open>strings.Repeat\<close>.\<close>

definition play_issue :: "env \<Rightarrow> int \<Rightarrow> string \<Rightarrow> string \<Rightarrow> play_input \<Rightarrow> tester \<Rightarrow> play_answer" where
  "play_issue e difficulty challengeHex pubkey input t =
     (case input of
        PlayFrame issueMsg \<Rightarrow>
          if w_Type issueMsg \<noteq> ''AUTH_TOKEN_ISSUE'' then (PlayOver, [], t)
          else if difficulty < 0 then (PlayOver, [], t)
          else if \<not> VerifyPoW challengeHex (w_PowNonce issueMsg) pubkey (nat difficulty) then (PlayOver, [], t)
          else play_round e (userIDFromPubkey pubkey) t
      | _ \<Rightarrow> (PlayOver, [], t))"

definition play_solution :: "env \<Rightarrow> string \<Rightarrow> string \<Rightarrow> string \<Rightarrow> play_input \<Rightarrow> tester \<Rightarrow> play_answer" where
  "play_solution e userID seed challengeID input t =
     (case input of
        PlayFails \<Rightarrow> (PlayOver, [], t)
      | PlayGarbled \<Rightarrow> play_again e userID t
      | PlayFrame sol \<Rightarrow>
          if w_Type sol \<noteq> ''AUTH_CHALLENGE_SOLUTION'' \<or> w_ChallengeID sol \<noteq> challengeID then play_again e userID t
          else if w_PuzzleAnswer sol \<noteq> Some (PuzzleAnswerFromSeed seed PuzzleStrips) then play_again e userID t
          else (PlayOver, [(ws_frame ''AUTH_OK'')\<lparr>w_UserID := userID\<rparr>], t\<lparr>roundsSolved := roundsSolved t + 1\<rparr>))"

text \<open>One step of the goroutine; a read after its deadline fails.\<close>

definition puzzleplayWS :: "env \<Rightarrow> int \<Rightarrow> play_phase \<Rightarrow> play_input \<Rightarrow> tester \<Rightarrow> play_answer" where
  "puzzleplayWS e difficulty phase input t =
     (let by = (\<lambda>deadline. if deadline < now e then PlayFails else input) in
      case phase of
        PlayAuth challengeHex deadline \<Rightarrow> play_auth e difficulty challengeHex (by deadline) t
      | PlayIssue challengeHex pubkey deadline \<Rightarrow> play_issue e difficulty challengeHex pubkey (by deadline) t
      | PlayRound userID seed challengeID deadline \<Rightarrow> play_solution e userID seed challengeID (by deadline) t
      | PlayOver \<Rightarrow> (PlayOver, [], t))"

section \<open>Practice\<close>

text \<open>What is accepted as a solution: the answer of the seed, under the name of the puzzle.\<close>

definition play_solved :: "string \<Rightarrow> string \<Rightarrow> wsFrame \<Rightarrow> bool" where
  "play_solved seed challengeID sol =
     (w_Type sol = ''AUTH_CHALLENGE_SOLUTION'' \<and> w_ChallengeID sol = challengeID \<and>
      w_PuzzleAnswer sol = Some (PuzzleAnswerFromSeed seed PuzzleStrips))"

lemma play_solution_cases:
  "play_solution e u seed n (PlayFrame sol) t =
     (if play_solved seed n sol
      then (PlayOver, [(ws_frame ''AUTH_OK'')\<lparr>w_UserID := u\<rparr>], t\<lparr>roundsSolved := roundsSolved t + 1\<rparr>)
      else play_again e u t)"
  by (simp add: play_solution_def play_solved_def)

text \<open>
  A miss is answered by the rejection and a fresh puzzle for the same user on the same socket, the two
  counters go up, and the source of randomness is the only thing that can end it.
\<close>

lemma play_miss:
  assumes "\<And>n k. entropy t n k \<noteq> None"
  shows "\<exists>seed challengeID. play_again e u t =
     (PlayRound u seed challengeID (now e + 90 * Second),
      [(ws_frame ''AUTH_REJECTED'')\<lparr>w_Message := ''challenge_failed''\<rparr>,
       (ws_frame ''AUTH_CHALLENGE_REQUIRED'')\<lparr>w_ChallengeID := challengeID, w_PuzzleSeed := seed,
          w_PuzzleKind := ''strip_slide'', w_PuzzleStrips := 5\<rparr>],
      t\<lparr>entropy_drawn := entropy_drawn t + 2, roundsPresented := roundsPresented t + 1,
        roundsFailed := roundsFailed t + 1\<rparr>)"
proof -
  obtain a b where "entropy t (entropy_drawn t) 16 = Some a" "entropy t (Suc (entropy_drawn t)) 16 = Some b"
    using assms by (meson not_Some_eq)
  then show ?thesis
    by (simp add: play_again_def failRound_def play_round_def play_randomHex_def puzzleSolutionDeadline_def PuzzleStrips_def)
qed

section \<open>The tester and the relay\<close>

text \<open>The members of a frame of the relay that the tester has.\<close>

definition subframe :: "WSMessage \<Rightarrow> wsFrame" where
  "subframe v =
     \<lparr> w_Type = m_Type v, w_Challenge = m_Challenge v, w_Pubkey = m_Pubkey v, w_Signature = m_Signature v,
       w_UserID = m_UserID v, w_DeviceToken = m_DeviceToken v, w_PowNonce = m_PowNonce v,
       w_Difficulty = m_Difficulty v, w_ChallengeID = m_ChallengeID v, w_PuzzleSeed = m_PuzzleSeed v,
       w_PuzzleKind = m_PuzzleKind v, w_PuzzleStrips = m_PuzzleStrips v, w_PuzzleAnswer = m_PuzzleAnswer v,
       w_Message = m_Message v \<rparr>"

lemma userIDFromPubkey_eq: "userIDFromPubkey pk = authenticated_id pk"
  by (simp add: userIDFromPubkey_def authenticated_id_def GenerateUserID_def)

lemma auth_agrees:
  assumes "m_DeviceToken a = []" "pg s \<noteq> None"
  shows "(\<exists>dl. fst (play_auth e d ch (PlayFrame (subframe a)) t) = PlayIssue ch (m_Pubkey a) dl) =
         (\<exists>dl. fst (ServeWS_auth e ip ch (Received a) s) = AwaitIssue ch a dl)"
  using assms
  by (auto simp: play_auth_def ServeWS_auth_def subframe_def VerifySignature_def signed_payload_def close_with_def Let_def
      split: option.splits if_splits)

lemma rejected_eq [simp]: "rejected x = rejected y \<longleftrightarrow> x = y" "ws_error z \<noteq> rejected x"
  by (auto simp: rejected_def ws_error_def frame_def)

lemma issue_not_pow_invalid: "issue_token e ip u s \<noteq> close_with (rejected ''pow_invalid'') s'"
  by (auto simp: issue_token_def close_with_def ServeWS_register_def Let_def
      split: prod.splits sum.splits bool.splits)

lemma puzzle_not_pow_invalid: "runPuzzleChallenge e u s \<noteq> close_with (rejected ''pow_invalid'') s'"
  by (auto simp: runPuzzleChallenge_def close_with_def split: prod.splits sum.splits)

lemma issue_agrees:
  assumes "m_Type i = ''AUTH_TOKEN_ISSUE''" "\<And>n k. entropy t n k \<noteq> None"
  shows "(fst (play_issue e (int (issuanceDifficulty (globals e))) ch (m_Pubkey a) (PlayFrame (subframe i)) t) = PlayOver) =
         (ServeWS_issue e ip ch a (Received i) s = close_with (rejected ''pow_invalid'') s)"
proof -
  obtain x y where "entropy t (entropy_drawn t) 16 = Some x" "entropy t (Suc (entropy_drawn t)) 16 = Some y"
    using assms(2) by (meson not_Some_eq)
  then have "(fst (play_issue e (int (issuanceDifficulty (globals e))) ch (m_Pubkey a) (PlayFrame (subframe i)) t) = PlayOver) =
      (\<not> VerifyPoW ch (m_PowNonce i) (m_Pubkey a) (issuanceDifficulty (globals e)))"
    using assms(1) by (simp add: play_issue_def play_round_def play_randomHex_def subframe_def)
  moreover have "VerifyPoW ch (m_PowNonce i) (m_Pubkey a) (issuanceDifficulty (globals e)) \<Longrightarrow>
      ServeWS_issue e ip ch a (Received i) s \<noteq> close_with (rejected ''pow_invalid'') s"
    using assms(1) issue_not_pow_invalid puzzle_not_pow_invalid
    by (auto simp: ServeWS_issue_def Let_def close_with_def split: prod.splits sum.splits bool.splits)
  moreover have "\<not> VerifyPoW ch (m_PowNonce i) (m_Pubkey a) (issuanceDifficulty (globals e)) \<Longrightarrow>
      ServeWS_issue e ip ch a (Received i) s = close_with (rejected ''pow_invalid'') s"
    using assms(1) by (simp add: ServeWS_issue_def Let_def)
  ultimately show ?thesis by blast
qed

lemma solution_agrees:
  assumes "\<And>n k. entropy t n k \<noteq> None"
  shows "play_solved seed n (subframe sol) \<Longrightarrow>
           fst (play_solution e u seed n (PlayFrame (subframe sol)) t) = PlayOver \<and>
           puzzle_solution e ip u seed n (Received sol) s = issue_token e ip u s"
    and "\<not> play_solved seed n (subframe sol) \<Longrightarrow>
           (\<exists>seed' n'. fst (play_solution e u seed n (PlayFrame (subframe sol)) t) = PlayRound u seed' n' (now e + 90 * Second)) \<and>
           (\<exists>s'. puzzle_solution e ip u seed n (Received sol) s = close_with (rejected ''challenge_failed'') s')"
  using play_miss [OF assms, of e u]
  by (auto simp: play_solution_cases) (auto simp: play_solved_def puzzle_solution_def subframe_def puzzleStrips_def)

text \<open>
  C40. The puzzle tester is true to the relay. For the same frames, on the same challenge, difficulty and
  puzzle: it takes a key without a device token exactly if the relay goes on to ask for the proof of
  work; it refuses a proof of work exactly where the relay answers that it is invalid; and it has the
  same identity for the key. It ends a puzzle with success exactly where the relay goes on to issue
  the token; every other solution is rejected by both, and the tester asks the next puzzle.
\<close>

theorem tester_matches_relay:
  assumes "m_DeviceToken a = []" "m_Type i = ''AUTH_TOKEN_ISSUE''" "pg s \<noteq> None" "\<And>n k. entropy t n k \<noteq> None"
  shows "(\<exists>dl. fst (play_auth e d ch (PlayFrame (subframe a)) t) = PlayIssue ch (m_Pubkey a) dl) =
           (\<exists>dl. fst (ServeWS_auth e ip ch (Received a) s) = AwaitIssue ch a dl) \<and>
         (fst (play_issue e (int (issuanceDifficulty (globals e))) ch (m_Pubkey a) (PlayFrame (subframe i)) t) = PlayOver) =
           (ServeWS_issue e ip ch a (Received i) s = close_with (rejected ''pow_invalid'') s) \<and>
         userIDFromPubkey (m_Pubkey a) = authenticated_id (m_Pubkey a) \<and>
         (if play_solved seed n (subframe sol)
          then fst (play_solution e u seed n (PlayFrame (subframe sol)) t) = PlayOver \<and>
               puzzle_solution e ip u seed n (Received sol) s = issue_token e ip u s
          else (\<exists>seed' n'. fst (play_solution e u seed n (PlayFrame (subframe sol)) t) = PlayRound u seed' n' (now e + 90 * Second)) \<and>
               (\<exists>s'. puzzle_solution e ip u seed n (Received sol) s = close_with (rejected ''challenge_failed'') s'))"
  using auth_agrees [OF assms(1,3)] issue_agrees [OF assms(2,4)] userIDFromPubkey_eq solution_agrees [OF assms(4)]
  by auto

definition tester0 :: tester where
  "tester0 = \<lparr> entropy = (\<lambda>n k. Some (replicate k (of_nat n))), entropy_drawn = 0, roundsPresented = 0,
     roundsSolved = 0, roundsFailed = 0 \<rparr>"

definition right_answer :: WSMessage where
  "right_answer = (frame ''AUTH_CHALLENGE_SOLUTION'')\<lparr>m_ChallengeID := ''n'',
     m_PuzzleAnswer := Some (PuzzleAnswerFromSeed ''s'' PuzzleStrips)\<rparr>"

text \<open>An empty answer and the right one, on a fresh tester and a fresh relay.\<close>

theorem tester_matches_relay_witness:
  "(\<exists>seed' n'. fst (play_solution env0 ''u'' ''s'' ''n'' (PlayFrame (subframe (frame ''AUTH_CHALLENGE_SOLUTION''))) tester0) =
       PlayRound ''u'' seed' n' (90 * Second)) \<and>
   fst (play_solution env0 ''u'' ''s'' ''n'' (PlayFrame (subframe right_answer)) tester0) = PlayOver \<and>
   puzzle_solution env0 ''9.9.9.9'' ''u'' ''s'' ''n'' (Received right_answer) relay0 = issue_token env0 ''9.9.9.9'' ''u'' relay0"
proof -
  have "\<not> play_solved ''s'' ''n'' (subframe (frame ''AUTH_CHALLENGE_SOLUTION''))"
    "play_solved ''s'' ''n'' (subframe right_answer)"
    by (simp_all add: play_solved_def subframe_def right_answer_def frame_def)
  moreover have "pg relay0 \<noteq> None" "m_DeviceToken (frame ''AUTH'') = []" by (simp_all add: relay0_def frame_def)
  moreover have "entropy tester0 n k \<noteq> None" for n k by (simp add: tester0_def)
  ultimately show ?thesis
    using tester_matches_relay [where a = "frame ''AUTH''" and i = "frame ''AUTH_TOKEN_ISSUE''" and s = relay0 and
        t = tester0 and e = env0 and ip = "''9.9.9.9''" and seed = "''s''" and n = "''n''" and u = "''u''" and
        sol = "frame ''AUTH_CHALLENGE_SOLUTION''"]
      tester_matches_relay [where a = "frame ''AUTH''" and i = "frame ''AUTH_TOKEN_ISSUE''" and s = relay0 and
        t = tester0 and e = env0 and ip = "''9.9.9.9''" and seed = "''s''" and n = "''n''" and u = "''u''" and
        sol = right_answer]
    by simp
qed

end
