(* ===== verification/Spec2Isabelle.thy ===== *)
theory Spec2Isabelle
  imports File_Properties Nuke_Facts Http_Authority Http_Post Http_Google Relay_Types Relay_Limits Redis_Modes
    Redis_Queues Boot Puzzle_Play
begin

text \<open>
  A verification development of the WiltKey relay server, the Go program of \<open>src/wiltkey_server\<close>.

  \<^bold>\<open>The program.\<close> The relay passes end-to-end encrypted envelopes between clients it knows only by
  the SHA-256 hash of an Ed25519 key. A client opens a socket, signs a challenge, pays a proof of work
  (and at times a puzzle) for a device token, and from then on sends frames that \<open>handleWSMessage\<close>
  dispatches. Small messages go to the recipient's socket or to a queue in the key-value store; large
  ones go to an object store, with a row in Postgres and an offer to the recipient, who fetches the
  file over HTTP with a token and acknowledges it. The HTTP side has the anonymous queue (paid by
  vouchers or proof of work), push tokens, subscriptions verified with Google Play, attestations
  verified with Play Integrity, and the story budget. A worker sweeps expired rows.

  \<^bold>\<open>How the model is built.\<close> It is a shallow embedding with explicit state. A Go function is a
  definition of the same name; a method of a client of a store takes and returns the state of that
  store; a handler takes and returns the record \<open>relay\<close>. A Go error is the left side of a sum
  (\<open>'a result\<close>), \<open>nil\<close> is \<open>None\<close>, a Go string is its list of bytes. Whatever comes from outside is in
  the record \<open>env\<close> that a definition takes as its first argument: the clock, the outage of each
  single call (\<open>fault\<close>), the answers of Google, Ed25519 and RSA, \<open>encoding/json\<close> on an envelope, local
  time formats, the memory gauge. Random bytes and UUIDs are supplies in the state; that UUIDs are
  fresh (\<open>uuids_ok\<close>) is a hypothesis where it is needed. Loops over lists are structural recursion or
  folds; loops on a socket are cut at their reads, so one step is one definition. Nothing runs on
  fuel.

  \<^bold>\<open>Foundations.\<close> Relay_Prelude: \<open>strings\<close> and \<open>strconv\<close>. Sha256, Base64, Go_Time, Crypto_Ops: the
  hash and the base64 codec of the standard library, executable; times and durations as nanoseconds,
  with saturation and 64-bit wrap-around; internal/cryptoops/cryptoops.go, pow.go, auth.go, voucher.go.
  Lemmas: hex and base64 round trips, the proof of work as a bound on the digest, what a voucher
  must satisfy.
  Contracts: the interfaces of the key-value store as locales (a gate that reopens, a counter per
  window, a mailbox) and of a socket's channel, with the laws their clients rely on. Relay_Env: the
  environment.

  \<^bold>\<open>Stores.\<close> Redis_Client: redis.go with \<open>isMemory\<close>, each method on the record \<open>RedisClient\<close> of its
  maps; it interprets the locales of Contracts, and the queue refines an unbounded mailbox up to its
  cap of 1000 entries. Redis_Server: the same methods on a Redis server, as the commands they send;
  the server, the link to it and the client library are a parameter. Redis_Docs: what the commands
  are documented to do, as a locale that a server must satisfy, the documentation itself as its
  interpretation, and the gates and counters on such a server, with lost requests and answers.
  Redis_Queues: the offline queue on such a server as a list specification that the commands refine, cap,
  pruning and due messages included. Redis_Modes: where the two modes give the same answers. Postgres_Client: db.go, a
  list or map per table of \<open>runMigrations\<close>, each SQL statement an operation on it. Object_Storage:
  storage.go, and the URL reader of main.go.

  \<^bold>\<open>Google.\<close> Google_Apis: google_oauth.go, play_billing.go, play_integrity.go and the \<open>strings\<close>
  and \<open>time\<close> functions they need; the token cache and every check on an answer.

  \<^bold>\<open>Sockets.\<close> Relay_State: the record \<open>relay\<close>, \<open>WSMessage\<close>, the hub of websocket.go (a client's
  channel of 512 frames as a list, the closing of it, the flood bucket of 200 tokens refilled at 100 a
  second) and its steps. Hub: the invariant \<open>hub_ok\<close> and its preservation. Entitlements: the premium
  check, hold times, memory pressure and wake-up pushes (main.go, push.go, fcm.go). Ws_Routing,
  Ws_Files, Ws_Stories: every handler of handlers.go, the dispatch and a turn of \<open>readPump\<close>, the
  download endpoint and the cleanup worker. Ws_Effects: the relation \<open>caused\<close> of the effects a client is
  entitled to, which every handler satisfies. Routing_Facts, File_Facts, File_Properties, Nuke_Facts:
  the gates, delivery, fan-out to at most 256 recipients, the life of a file, nukes. Ws_Auth: the
  handshake \<open>ServeWS\<close> and puzzle.go as a state machine of at most four turns. Auth_Facts: its
  termination, that an honest client gets in, the counting of strikes, device tokens.

  \<^bold>\<open>HTTP.\<close> Http_Types, Http_Guard, Http_Handlers: requests and responses, the middleware with
  addresses, bans and rates, the identity checks, every endpoint, the routes (main.go, push.go,
  social_stories.go). Http_Facts: the contract of the identity checks as a locale with six
  interpretations. Http_Authority, Http_Post, Http_Google: who may change what, posts to the queue, the
  two endpoints that rest on Google.

  \<^bold>\<open>The whole.\<close> Relay_Effects and Relay_Files: what any step but the handshake can do, and that it
  keeps every stored row's file. Relay_System: all goroutines interleaved as an inductive step
  relation over the relay, the handshakes in flight and a trace of frames; reachable states and their
  invariant. Relay_Types: identities are hashes of keys in every reachable state. Relay_Runs: the same steps
  as a list of events with their clocks, a classification of what each can do to the stores, and the bound on
  the cached subscription over all runs. Relay_Limits: over all runs, the cooldown after three wrong
  solutions and the ban after a failed validation. Boot: \<open>main\<close>, from
  environment variables to the running relay, with its fall-backs; difficulties outside 1 to 12 are
  not accepted. Puzzle_Play: the puzzle tester of cmd/puzzleplay, and that it agrees with the relay.

  \<^bold>\<open>Granularity.\<close> A handler runs as a whole in \<open>step\<close> and as one event of a run; what holds in every
  reachable state or over every run holds between turns that do not overlap. The interleavings within a
  handler that the code allows are modelled where they matter: File_Properties splits a broadcast between two
  recipients, and there a stored row loses its object; wake-ups started with \<open>go\<close> run later, the offline
  delivery is a step of its own. The counters of one gate are updated under the lock or the transaction that the
  code uses. Integers are unbounded except where the code depends on their width (durations, Unix times, the
  tester's counters, SHA-256).

  \<^bold>\<open>Abstractions.\<close> The float64 bucket of the flood guard is a rational number. A UUID column is compared as a
  text, where Postgres also accepts other spellings of the same UUID. A download answers with its body and without the
  \<open>Content-Length\<close> header. The routes of \<open>serve_http\<close> are those behind the rate-limit middleware; \<open>/ping\<close>
  is \<open>serve_ping\<close> and \<open>/ws\<close> is \<open>ServeWS_open\<close> with the turns that follow. An expiry of the documented server is
  kept in nanoseconds, rounded as the client library rounds it, where a server keeps milliseconds. Boot ends when
  the relay is ready to listen.

  \<^bold>\<open>Not modelled.\<close> The Redis, Postgres and MinIO servers and their drivers, beyond the parameters above;
  JSON on the wire and the HTTP encoding, which decide only what is malformed; the upgrade, the pings
  and the write deadlines of the socket library (a failing read or write is an input of the model); the
  text of the migrations beyond the shape of the tables; the log; listening and TLS. Every error path
  that ends in a call of one of these is in the model as the outcome of that call. The Dart client
  and the website are not part of the Go program.
\<close>

end
